(* ===== verification/Prelude.thy ===== *)
theory Prelude
  imports Complex_Main "HOL-Library.Word"
begin

text \<open>
  What the components of the development share: the collections of facts, the result type
  of fallible Go functions and generic lemmas on lists and sums.

  A Go function that returns \<open>(T, error)\<close> is a function into the sum type
  \<open>'e + 'a\<close>: \<open>Inl e\<close> is the branch with a non-nil error, \<open>Inr x\<close> the branch with the
  error nil. A Go \<open>string\<close> is a sequence of bytes, so it is a HOL \<open>string\<close>, a list of
  8-bit characters, and \<open>length\<close> is Go's \<open>len\<close>.
\<close>

type_synonym ('e, 'a) result = "'e + 'a"
type_synonym go_string = string
type_synonym uuid = "128 word"
type_synonym time = int

named_theorems txt_simps \<open>facts about the text of numbers\<close>
named_theorems inv_intros \<open>operations that keep an invariant\<close>

section \<open>Lists\<close>

lemma sum_list_map_if_none:
  "\<forall>r\<in>set t. \<not> P r \<Longrightarrow> map (\<lambda>r. if P r then f r else r) t = t"
  by (induction t) auto

lemma filter_length_zero_iff: "length (filter P t) = 0 \<longleftrightarrow> (\<forall>r\<in>set t. \<not> P r)"
  by (simp add: filter_empty_conv)

lemma distinct_map_unique:
  assumes "distinct (map k t)" "a \<in> set t" "b \<in> set t" "k a = k b"
  shows "a = b"
  using assms by (auto simp: distinct_map inj_on_def)

lemma filter_key_single:
  assumes "distinct (map k t)" "r \<in> set t"
  shows "filter (\<lambda>x. k x = k r) t = [r]"
  using assms
proof (induction t)
  case Nil
  then show ?case by simp
next
  case (Cons y ys)
  show ?case
  proof (cases "y = r")
    case True
    with Cons.prems have "\<forall>x\<in>set ys. k x \<noteq> k r" by (auto simp: image_iff)
    then have "filter (\<lambda>x. k x = k r) ys = []" by (simp add: filter_empty_conv)
    with True show ?thesis by simp
  next
    case False
    with Cons.prems have "k y \<noteq> k r" by auto
    with Cons False show ?thesis by simp
  qed
qed

lemma sum_list_update_one:
  fixes g :: "'r \<Rightarrow> 'v::ab_group_add"
  assumes "distinct (map k t)" "r \<in> set t"
  shows "sum_list (map g (map (\<lambda>x. if k x = k r then f x else x) t))
       = sum_list (map g t) - g r + g (f r)"
  using assms
proof (induction t)
  case Nil
  then show ?case by simp
next
  case (Cons y ys)
  show ?case
  proof (cases "y = r")
    case True
    with Cons.prems have "\<forall>x\<in>set ys. k x \<noteq> k r" by (auto simp: image_iff)
    then have "map (\<lambda>x. if k x = k r then f x else x) ys = ys"
      by (rule sum_list_map_if_none)
    with True show ?thesis by simp
  next
    case False
    with Cons.prems have "k y \<noteq> k r" "r \<in> set ys" "distinct (map k ys)" by auto
    with Cons.IH show ?thesis by (simp add: algebra_simps)
  qed
qed

lemma map_key_same:
  assumes "\<And>x. k (f x) = k x"
  shows "map k (map (\<lambda>x. if P x then f x else x) t) = map k t"
  using assms by (induction t) auto

section \<open>Fallible state-passing computations\<close>

text \<open>
  A Go function that works on a state and may fail: \<open>'s \<Rightarrow> ('e, 'a) result \<times> 's\<close>. On an
  error the state is still returned, because Go keeps whatever was mutated before the error.
  \<open>bindE\<close> is the sequence \<open>x, err := f(); if err != nil { return err }; ...\<close>.
\<close>

type_synonym ('s, 'e, 'a) go = "'s \<Rightarrow> ('e, 'a) result \<times> 's"

definition returnE :: "'a \<Rightarrow> ('s, 'e, 'a) go" where
  "returnE x s = (Inr x, s)"

definition failE :: "'e \<Rightarrow> ('s, 'e, 'a) go" where
  "failE e s = (Inl e, s)"

definition bindE :: "('s, 'e, 'a) go \<Rightarrow> ('a \<Rightarrow> ('s, 'e, 'b) go) \<Rightarrow> ('s, 'e, 'b) go" where
  "bindE f g s = (case f s of (Inl e, s') \<Rightarrow> (Inl e, s') | (Inr x, s') \<Rightarrow> g x s')"

text \<open>\<open>catchE f h\<close>: the error of \<open>f\<close>, if any, is handled by \<open>h\<close>.\<close>

definition catchE :: "('s, 'e, 'a) go \<Rightarrow> ('e \<Rightarrow> ('s, 'e, 'a) go) \<Rightarrow> ('s, 'e, 'a) go" where
  "catchE f h s = (case f s of (Inl e, s') \<Rightarrow> h e s' | (Inr x, s') \<Rightarrow> (Inr x, s'))"

definition mapErr :: "('e \<Rightarrow> 'e) \<Rightarrow> ('s, 'e, 'a) go \<Rightarrow> ('s, 'e, 'a) go" where
  "mapErr m f s = (case f s of (Inl e, s') \<Rightarrow> (Inl (m e), s') | (Inr x, s') \<Rightarrow> (Inr x, s'))"

lemma returnE_simp [simp]: "returnE x s = (Inr x, s)"
  by (simp add: returnE_def)

lemma failE_simp [simp]: "failE e s = (Inl e, s)"
  by (simp add: failE_def)

lemma bindE_Inr [simp]: "f s = (Inr x, s') \<Longrightarrow> bindE f g s = g x s'"
  by (simp add: bindE_def)

lemma bindE_Inl [simp]: "f s = (Inl e, s') \<Longrightarrow> bindE f g s = (Inl e, s')"
  by (simp add: bindE_def)

lemma bindE_InrE:
  assumes "bindE f g s = (Inr y, s'')"
  obtains x s' where "f s = (Inr x, s')" "g x s' = (Inr y, s'')"
  using assms by (auto simp: bindE_def split: prod.splits sum.splits)

lemma bindE_InlE:
  assumes "bindE f g s = (Inl e, s'')"
  obtains "f s = (Inl e, s'')" | x s' where "f s = (Inr x, s')" "g x s' = (Inl e, s'')"
  using assms by (auto simp: bindE_def split: prod.splits sum.splits)

lemma mapErr_Inr [simp]: "mapErr m f s = (Inr x, s') \<longleftrightarrow> f s = (Inr x, s')"
  by (auto simp: mapErr_def split: prod.splits sum.splits)

lemma mapErr_Inl: "mapErr m f s = (Inl e, s') \<longleftrightarrow> (\<exists>e'. f s = (Inl e', s') \<and> e = m e')"
  by (auto simp: mapErr_def split: prod.splits sum.splits)

lemma mapErr_id: "mapErr (\<lambda>e. e) f = f"
  by (rule ext) (auto simp: mapErr_def split: prod.split sum.split)

lemma snd_mapErr [simp]: "snd (mapErr m f s) = snd (f s)"
  by (auto simp: mapErr_def split: prod.splits sum.splits)

text \<open>
  A reflexive and transitive relation between the state before and the state after: kept by
  every composition of computations that keep it.
\<close>

definition stays :: "('s \<Rightarrow> 's \<Rightarrow> bool) \<Rightarrow> ('s, 'e, 'a) go \<Rightarrow> bool" where
  "stays R f \<longleftrightarrow> (\<forall>s. R s (snd (f s)))"

lemma staysD: "stays R f \<Longrightarrow> f s = (r, s') \<Longrightarrow> R s s'"
  by (metis stays_def snd_conv)

lemma staysI: "(\<And>s. R s (snd (f s))) \<Longrightarrow> stays R f"
  by (simp add: stays_def)

lemma stays_returnE [inv_intros]: "reflp R \<Longrightarrow> stays R (returnE x)"
  by (simp add: stays_def reflp_def)

lemma stays_failE [inv_intros]: "reflp R \<Longrightarrow> stays R (failE e)"
  by (simp add: stays_def reflp_def)

lemma stays_bindE [inv_intros]:
  "transp R \<Longrightarrow> stays R f \<Longrightarrow> (\<And>x. stays R (g x)) \<Longrightarrow> stays R (bindE f g)"
  unfolding stays_def bindE_def
  by (auto split: prod.splits sum.splits) (metis snd_conv transpD)+

lemma stays_catchE [inv_intros]:
  "transp R \<Longrightarrow> stays R f \<Longrightarrow> (\<And>e. stays R (h e)) \<Longrightarrow> stays R (catchE f h)"
  unfolding stays_def catchE_def
  by (auto split: prod.splits sum.splits) (metis snd_conv transpD)+

lemma stays_mapErr [inv_intros]: "stays R f \<Longrightarrow> stays R (mapErr m f)"
  by (simp add: stays_def)

lemma stays_if [inv_intros]: "stays R f \<Longrightarrow> stays R g \<Longrightarrow> stays R (if b then f else g)"
  by simp

end
