(* ===== verification/Go_Strconv.thy ===== *)
theory Go_Strconv
  imports Prelude
begin

text \<open>
  The part of Go's standard library that turns numbers into text and back, as the program
  uses it: \<open>strconv.ParseInt(s, 10, bits)\<close> (and \<open>strconv.Atoi\<close>, its 64-bit case),
  \<open>big.Int.SetString(s, 10)\<close>, \<open>big.Int.String()\<close>, \<open>strconv.Itoa\<close>, truncated division
  \<open>big.Int.Quo\<close>, and slicing with its bounds check. Numbers are \<open>int\<close>, so that every
  definition evaluates on binary numerals.
\<close>

section \<open>Digits\<close>

definition is_digit :: "char \<Rightarrow> bool" where
  "is_digit c \<longleftrightarrow> 48 \<le> (of_char c :: int) \<and> (of_char c :: int) \<le> 57"

definition digit_val :: "char \<Rightarrow> int" where
  "digit_val c = of_char c - 48"

definition digit_char :: "int \<Rightarrow> char" where
  "digit_char d = char_of (48 + d)"

lemma of_char_digit_char:
  "0 \<le> d \<Longrightarrow> d < 10 \<Longrightarrow> (of_char (digit_char d) :: int) = 48 + d"
  by (simp add: digit_char_def)

lemma is_digit_digit_char [txt_simps]: "0 \<le> d \<Longrightarrow> d < 10 \<Longrightarrow> is_digit (digit_char d)"
  by (simp add: is_digit_def of_char_digit_char)

lemma digit_val_digit_char [txt_simps]:
  "0 \<le> d \<Longrightarrow> d < 10 \<Longrightarrow> digit_val (digit_char d) = d"
  by (simp add: digit_val_def of_char_digit_char)

lemma digit_char_0: "digit_char 0 = CHR ''0''"
  by (simp add: digit_char_def char_of_def bit_iff_odd)

lemma digit_val_bounds: "is_digit c \<Longrightarrow> 0 \<le> digit_val c \<and> digit_val c < 10"
  by (auto simp: is_digit_def digit_val_def)

lemma digit_char_digit_val: "is_digit c \<Longrightarrow> digit_char (digit_val c) = c"
  by (auto simp: is_digit_def digit_val_def digit_char_def)

lemma is_digit_zero [simp]: "is_digit (CHR ''0'')"
  by (simp add: is_digit_def)

lemma digit_val_zero [simp]: "digit_val (CHR ''0'') = 0"
  by (simp add: digit_val_def)

lemma not_digit_specials [simp]:
  "\<not> is_digit (CHR ''-'')" "\<not> is_digit (CHR ''+'')" "\<not> is_digit (CHR ''.'')"
  "\<not> is_digit (CHR ''e'')" "\<not> is_digit (CHR ''E'')" "\<not> is_digit (CHR 0x00)"
  "\<not> is_digit (CHR 0x22)"
  by (simp_all add: is_digit_def)

section \<open>The value of a run of digits\<close>

fun digits_val :: "int \<Rightarrow> string \<Rightarrow> int" where
  "digits_val n [] = n"
| "digits_val n (c # cs) = digits_val (n * 10 + digit_val c) cs"

lemma digits_val_shift: "digits_val n s = n * 10 ^ length s + digits_val 0 s"
proof (induction s arbitrary: n)
  case Nil
  then show ?case by simp
next
  case (Cons c s)
  have "digits_val n (c # s) = (n * 10 + digit_val c) * 10 ^ length s + digits_val 0 s"
    using Cons.IH [of "n * 10 + digit_val c"] by simp
  also have "\<dots> = n * 10 ^ length (c # s) + (digit_val c * 10 ^ length s + digits_val 0 s)"
    by (simp add: algebra_simps)
  also have "digit_val c * 10 ^ length s + digits_val 0 s = digits_val 0 (c # s)"
    using Cons.IH [of "digit_val c"] by simp
  finally show ?case .
qed

lemma digits_val_append:
  "digits_val n (s @ t) = digits_val (digits_val n s) t"
  by (induction s arbitrary: n) auto

lemma digits_val_append_0:
  "digits_val 0 (s @ t) = digits_val 0 s * 10 ^ length t + digits_val 0 t"
  by (simp add: digits_val_append digits_val_shift [of "digits_val 0 s"])

lemma digits_val_zeros [simp]: "digits_val 0 (replicate n (CHR ''0'')) = 0"
  by (induction n) auto

lemma digits_val_bounds:
  "list_all is_digit s \<Longrightarrow> 0 \<le> digits_val 0 s \<and> digits_val 0 s < 10 ^ length s"
proof (induction s)
  case Nil
  then show ?case by simp
next
  case (Cons c s)
  then have d: "0 \<le> digit_val c" "digit_val c \<le> 9"
    and v: "0 \<le> digits_val 0 s" "digits_val 0 s < 10 ^ length s"
    using digit_val_bounds [of c] by auto
  have eq: "digits_val 0 (c # s) = digit_val c * 10 ^ length s + digits_val 0 s"
    using digits_val_shift [of "digit_val c" s] by simp
  have "digit_val c * 10 ^ length s \<le> 9 * 10 ^ length s"
    using d by (intro mult_right_mono) auto
  then have "digits_val 0 (c # s) < 9 * 10 ^ length s + 10 ^ length s"
    using v eq by linarith
  with d v eq show ?case by simp
qed

lemma digits_val_mono:
  assumes "list_all is_digit s" "0 \<le> n"
  shows "n \<le> digits_val n s"
proof -
  have "n * 1 \<le> n * 10 ^ length s"
    using assms(2) by (intro mult_left_mono) auto
  then show ?thesis
    using digits_val_shift [of n s] digits_val_bounds [OF assms(1)] by simp
qed

section \<open>The text of a number\<close>

function nat_text :: "int \<Rightarrow> string" where
  "nat_text n = (if n < 10 then [digit_char n] else nat_text (n div 10) @ [digit_char (n mod 10)])"
  by pat_completeness auto
termination
  by (relation "measure nat") auto

declare nat_text.simps [simp del]

definition int_text :: "int \<Rightarrow> string" where
  "int_text i = (if i < 0 then CHR ''-'' # nat_text (- i) else nat_text i)"

lemma nat_text_small: "n < 10 \<Longrightarrow> nat_text n = [digit_char n]"
  by (simp add: nat_text.simps [of n])

lemma nat_text_0 [simp]: "nat_text 0 = ''0''"
  by (simp add: nat_text_small digit_char_0)

lemma nat_text_step:
  "0 < n \<Longrightarrow> 0 \<le> d \<Longrightarrow> d < 10 \<Longrightarrow> nat_text (n * 10 + d) = nat_text n @ [digit_char d]"
  by (subst nat_text.simps) auto

lemma nat_text_times10: "0 < n \<Longrightarrow> nat_text (n * 10) = nat_text n @ ''0''"
  using nat_text_step [of n 0] by (simp add: digit_char_0)

lemma nat_text_not_Nil [simp]: "nat_text n \<noteq> []"
  by (subst nat_text.simps) simp

lemma length_nat_text_pos [simp]: "0 < length (nat_text n)"
  by simp

lemma digits_nat_text [txt_simps]: "0 \<le> n \<Longrightarrow> list_all is_digit (nat_text n)"
proof (induction n rule: nat_text.induct)
  case (1 n)
  then show ?case
    by (cases "n < 10") (simp_all add: nat_text.simps [of n] is_digit_digit_char)
qed

lemma digits_val_nat_text [txt_simps]: "0 \<le> n \<Longrightarrow> digits_val 0 (nat_text n) = n"
proof (induction n rule: nat_text.induct)
  case (1 n)
  then show ?case
    by (cases "n < 10")
      (simp_all add: nat_text.simps [of n] digits_val_append digit_val_digit_char)
qed

lemma hd_nat_text_digit: "0 \<le> n \<Longrightarrow> is_digit (hd (nat_text n))"
  using digits_nat_text [of n] by (cases "nat_text n") simp_all

lemma length_nat_text_le: "n < 10 ^ Suc k \<Longrightarrow> length (nat_text n) \<le> Suc k"
proof (induction k arbitrary: n)
  case 0
  then show ?case by (simp add: nat_text_small)
next
  case (Suc k)
  show ?case
  proof (cases "n < 10")
    case True
    then show ?thesis by (simp add: nat_text_small)
  next
    case False
    from Suc.prems have "n div 10 < 10 ^ Suc k" by auto
    with Suc.IH have "length (nat_text (n div 10)) \<le> Suc k" by blast
    with False show ?thesis by (simp add: nat_text.simps [of n])
  qed
qed

lemma length_nat_text_ge: "10 ^ k \<le> n \<Longrightarrow> Suc k \<le> length (nat_text n)"
proof -
  assume le: "10 ^ k \<le> n"
  moreover have "(0::int) < 10 ^ k" by simp
  ultimately have "0 \<le> n" by linarith
  then have "n < 10 ^ length (nat_text n)"
    using digits_val_bounds [OF digits_nat_text, of n] by (simp add: digits_val_nat_text)
  with le have "(10::int) ^ k < 10 ^ length (nat_text n)"
    by (rule le_less_trans)
  then have "k < length (nat_text n)" by (rule power_less_imp_less_exp [rotated]) simp
  then show ?thesis by simp
qed

lemma length_nat_text_iff: "0 < k \<Longrightarrow> length (nat_text n) \<le> k \<longleftrightarrow> n < 10 ^ k"
  using length_nat_text_le [of n "k - 1"] length_nat_text_ge [of k n]
  by (cases "n < 10 ^ k") (auto simp: not_less)

lemma last_nat_text: "0 \<le> n \<Longrightarrow> last (nat_text n) = digit_char (n mod 10)"
  by (subst nat_text.simps) auto

lemma butlast_nat_text: "10 \<le> n \<Longrightarrow> butlast (nat_text n) = nat_text (n div 10)"
  by (subst nat_text.simps) auto

lemma last_nat_text_zero_iff: "0 \<le> n \<Longrightarrow> last (nat_text n) = CHR ''0'' \<longleftrightarrow> n mod 10 = 0"
proof -
  assume "0 \<le> n"
  moreover have "digit_char (n mod 10) = digit_char 0 \<longleftrightarrow> n mod 10 = 0"
    using digit_val_digit_char [of "n mod 10"] digit_val_digit_char [of 0] by auto
  ultimately show ?thesis by (simp add: last_nat_text digit_char_0)
qed

lemma int_text_nonneg: "0 \<le> i \<Longrightarrow> int_text i = nat_text i"
  by (simp add: int_text_def)

lemma int_text_not_Nil [simp]: "int_text i \<noteq> []"
  by (simp add: int_text_def)

section \<open>big.Int.SetString and strconv.ParseInt\<close>

fun strip_sign :: "string \<Rightarrow> bool \<times> string" where
  "strip_sign [] = (False, [])"
| "strip_sign (c # cs) =
     (if c = CHR ''-'' then (True, cs) else if c = CHR ''+'' then (False, cs) else (False, c # cs))"

definition with_sign :: "bool \<Rightarrow> int \<Rightarrow> int" where
  "with_sign neg n = (if neg then - n else n)"

definition big_set_string :: "string \<Rightarrow> int option" where
  "big_set_string s =
     (case strip_sign s of (neg, ds) \<Rightarrow>
        if ds = [] \<or> \<not> list_all is_digit ds then None else Some (with_sign neg (digits_val 0 ds)))"

datatype num_error = ErrSyntax | ErrRange

text \<open>
  \<open>ParseUint\<close> stops at the first character that is no digit (a syntax error) or at the
  first prefix whose value passes the largest unsigned value \<open>M\<close> (a range error, even when
  a later character is no digit).
\<close>

fun parse_digits :: "int \<Rightarrow> int \<Rightarrow> string \<Rightarrow> (num_error, int) result" where
  "parse_digits M n [] = Inr n"
| "parse_digits M n (c # cs) =
     (if \<not> is_digit c then Inl ErrSyntax
      else if n * 10 + digit_val c > M then Inl ErrRange
      else parse_digits M (n * 10 + digit_val c) cs)"

definition parse_int :: "string \<Rightarrow> nat \<Rightarrow> (num_error, int) result" where
  "parse_int s bits =
     (case strip_sign s of (neg, ds) \<Rightarrow>
        if ds = [] then Inl ErrSyntax
        else (case parse_digits (2 ^ bits - 1) 0 ds of
            Inl e \<Rightarrow> Inl e
          | Inr un \<Rightarrow>
              if \<not> neg \<and> un \<ge> 2 ^ (bits - 1) then Inl ErrRange
              else if neg \<and> un > 2 ^ (bits - 1) then Inl ErrRange
              else Inr (with_sign neg un)))"

definition atoi :: "string \<Rightarrow> (num_error, int) result" where
  "atoi s = parse_int s 64"

lemma parse_digits_Inr:
  "0 \<le> n \<Longrightarrow> parse_digits M n ds = Inr m \<longleftrightarrow>
     list_all is_digit ds \<and> m = digits_val n ds \<and> (ds = [] \<or> digits_val n ds \<le> M)"
proof (induction ds arbitrary: n)
  case Nil
  then show ?case by auto
next
  case (Cons c cs)
  show ?case
  proof (cases "is_digit c")
    case True
    with Cons.prems have nn: "0 \<le> n * 10 + digit_val c"
      using digit_val_bounds by simp
    have le: "n * 10 + digit_val c \<le> digits_val (n * 10 + digit_val c) cs"
      if "list_all is_digit cs"
      using that nn by (rule digits_val_mono)
    show ?thesis
    proof (cases "n * 10 + digit_val c > M")
      case True
      with le \<open>is_digit c\<close> show ?thesis by auto
    next
      case False
      with \<open>is_digit c\<close> Cons.IH [OF nn] show ?thesis by auto
    qed
  next
    case False
    then show ?thesis by simp
  qed
qed

lemma parse_digits_not_digits:
  "\<not> list_all is_digit ds \<Longrightarrow> \<exists>e. parse_digits M n ds = Inl e"
  by (induction ds arbitrary: n) auto

lemma big_set_string_Some:
  "big_set_string s = Some i \<longleftrightarrow>
     (\<exists>neg ds. strip_sign s = (neg, ds) \<and> ds \<noteq> [] \<and> list_all is_digit ds
        \<and> i = with_sign neg (digits_val 0 ds))"
  by (auto simp: big_set_string_def split: prod.splits if_splits)

lemma length_strip_sign: "length (snd (strip_sign s)) \<le> length s"
  by (cases s) auto

text \<open>
  The two routes of the decimal parser agree: on at most 18 characters no 64-bit value can
  overflow, so \<open>ParseInt\<close> computes what \<open>SetString\<close> computes.
\<close>

lemma digits_val_short:
  assumes "list_all is_digit ds" "length ds \<le> 18"
  shows "digits_val 0 ds < 2 ^ 63"
proof -
  have "digits_val 0 ds < 10 ^ length ds" using digits_val_bounds [OF assms(1)] ..
  also have "(10::int) ^ length ds \<le> 10 ^ 18"
    by (rule power_increasing [OF assms(2)]) simp
  also have "(10::int) ^ 18 < 2 ^ 63" by simp
  finally show ?thesis .
qed

lemma parse_int_short:
  assumes "length s \<le> 18"
  shows "(case parse_int s 64 of Inl _ \<Rightarrow> None | Inr i \<Rightarrow> Some i) = big_set_string s"
proof -
  obtain neg ds where sd: "strip_sign s = (neg, ds)" by force
  with length_strip_sign [of s] assms have len: "length ds \<le> 18" by simp
  show ?thesis
  proof (cases "list_all is_digit ds")
    case True
    with len have small: "digits_val 0 ds < 2 ^ 63" by (intro digits_val_short)
    with True have "parse_digits (2 ^ 64 - 1) 0 ds = Inr (digits_val 0 ds)"
      by (subst parse_digits_Inr) simp_all
    with True small sd show ?thesis
      by (simp add: parse_int_def big_set_string_def)
  next
    case False
    then obtain e where "parse_digits (2 ^ 64 - 1) 0 ds = Inl e"
      using parse_digits_not_digits by blast
    with False sd show ?thesis
      by (simp add: parse_int_def big_set_string_def)
  qed
qed

lemma strip_sign_int_text:
  "strip_sign (int_text i) = (i < 0, nat_text \<bar>i\<bar>)"
proof (cases "i < 0")
  case True
  then show ?thesis by (simp add: int_text_def)
next
  case False
  then obtain c cs where cs: "nat_text i = c # cs"
    by (metis nat_text_not_Nil neq_Nil_conv)
  with hd_nat_text_digit [of i] False have "is_digit c" by simp
  with cs False show ?thesis
    by (auto simp: int_text_def)
qed

lemma big_set_string_int_text [txt_simps]: "big_set_string (int_text i) = Some i"
  by (auto simp: big_set_string_def strip_sign_int_text txt_simps with_sign_def)

lemma int_text_inj: "int_text i = int_text j \<longleftrightarrow> i = j"
  by (metis big_set_string_int_text option.inject)

lemma parse_int_range:
  assumes "parse_int s bits = Inr i"
  shows "- (2 ^ (bits - 1)) \<le> i \<and> i < 2 ^ (bits - 1)"
proof -
  obtain neg ds where sd: "strip_sign s = (neg, ds)" by force
  with assms obtain n where n: "parse_digits (2 ^ bits - 1) 0 ds = Inr n"
      "i = with_sign neg n" "\<not> neg \<longrightarrow> n < 2 ^ (bits - 1)" "neg \<longrightarrow> n \<le> 2 ^ (bits - 1)"
    by (auto simp: parse_int_def split: if_splits sum.splits)
  then have "0 \<le> n" using digits_val_bounds [of ds] by (simp add: parse_digits_Inr)
  have "(0::int) < 2 ^ (bits - 1)" by simp
  have "- (2 ^ (bits - 1)) \<le> - n" "- n < 2 ^ (bits - 1)" if neg
    using n that \<open>0 \<le> n\<close> \<open>(0::int) < 2 ^ (bits - 1)\<close> by linarith+
  with \<open>0 \<le> n\<close> \<open>(0::int) < 2 ^ (bits - 1)\<close> n show ?thesis
    by (cases neg) (auto simp: with_sign_def)
qed

lemma parse_int_no_dot: "CHR ''.'' \<in> set s \<Longrightarrow> \<exists>e. parse_int s bits = Inl e"
proof -
  assume dot: "CHR ''.'' \<in> set s"
  obtain neg ds where sd: "strip_sign s = (neg, ds)" by force
  with dot have "CHR ''.'' \<in> set ds"
    by (cases s) (auto split: if_splits)
  then have "\<not> list_all is_digit ds"
    using not_digit_specials(3) by (auto simp: list_all_iff simp del: not_digit_specials)
  then obtain e where "parse_digits (2 ^ bits - 1) 0 ds = Inl e"
    using parse_digits_not_digits by blast
  with sd show ?thesis by (cases "ds = []") (auto simp: parse_int_def)
qed

section \<open>Truncated division and slices\<close>

definition quo :: "int \<Rightarrow> int \<Rightarrow> int" where
  "quo a b = sgn a * sgn b * (\<bar>a\<bar> div \<bar>b\<bar>)"

text \<open>\<open>s[lo:hi]\<close>: \<open>None\<close> is the run-time panic of a slice out of bounds.\<close>

definition go_slice :: "string \<Rightarrow> int \<Rightarrow> int \<Rightarrow> string option" where
  "go_slice s lo hi =
     (if 0 \<le> lo \<and> lo \<le> hi \<and> hi \<le> int (length s)
      then Some (take (nat (hi - lo)) (drop (nat lo) s)) else None)"

lemma go_slice_prefix: "0 \<le> i \<Longrightarrow> i \<le> int (length s) \<Longrightarrow> go_slice s 0 i = Some (take (nat i) s)"
  by (simp add: go_slice_def)

lemma go_slice_suffix:
  "0 \<le> i \<Longrightarrow> i \<le> int (length s) \<Longrightarrow> go_slice s i (int (length s)) = Some (drop (nat i) s)"
  by (simp add: go_slice_def nat_diff_distrib')

end
