(* ===== verification/Decimal.thy ===== *)
theory Decimal
  imports Go_Strconv
begin

text \<open>
  Package \<open>internal/decimal\<close>: the decimal type that carries every amount of money, its
  parser, its printer, the check that a value fits a database column, and its arithmetic
  (\<open>decimal.go\<close>, \<open>sql.go\<close>). A \<open>*big.Int\<close> is an \<open>int option\<close>, \<open>None\<close> the nil pointer of
  the zero value; the \<open>int32\<close> exponent is an \<open>int\<close> whose wrap-around is written out by
  \<open>wrap32\<close> where the code computes with it. Error texts are the constructors of
  \<open>dec_error\<close>; \<open>SlicePanic\<close> is the run-time panic of a slice out of range, which
  \<open>Decimal_Props\<close> shows never to happen.
\<close>

definition MaxAbsExponent :: int where
  "MaxAbsExponent = 1000"

record decimal =
  d_value :: "int option"
  d_exp :: int

datatype dec_error =
    MultipleE
  | TooManyDots
  | FractionTooLong
  | ExponentNotNumeric
  | CantConvert
  | ExponentExceeds
  | NotConvertible
  | SlicePanic

definition wrap32 :: "int \<Rightarrow> int" where
  "wrap32 x = (x + 2 ^ 31) mod 2 ^ 32 - 2 ^ 31"

definition MinInt32 :: int where "MinInt32 = - (2 ^ 31)"
definition MaxInt32 :: int where "MaxInt32 = 2 ^ 31 - 1"

section \<open>Parsing\<close>

text \<open>
  The loop \<open>for i, r := range value\<close>. It visits runes; the characters it looks for are
  ASCII and no byte of a longer rune is ASCII, so visiting bytes finds them at the same
  byte offsets.
\<close>

fun scan_points :: "string \<Rightarrow> int \<Rightarrow> int \<Rightarrow> int \<Rightarrow> (dec_error, int \<times> int) result" where
  "scan_points [] i eIndex pIndex = Inr (eIndex, pIndex)"
| "scan_points (r # rs) i eIndex pIndex =
     (if r = CHR ''E'' \<or> r = CHR ''e'' then
        (if eIndex > - 1 then Inl MultipleE else scan_points rs (i + 1) i pIndex)
      else if r = CHR ''.'' then
        (if pIndex > - 1 then Inl TooManyDots else scan_points rs (i + 1) eIndex i)
      else scan_points rs (i + 1) eIndex pIndex)"

text \<open>The exponent behind the \<open>e\<close>: the mantissa and the exponent's value.\<close>

definition split_exponent :: "string \<Rightarrow> int \<Rightarrow> (dec_error, string \<times> int) result" where
  "split_exponent s eIndex =
     (if eIndex \<noteq> - 1 then
        (case go_slice s (eIndex + 1) (int (length s)) of
           None \<Rightarrow> Inl SlicePanic
         | Some es \<Rightarrow>
             (case parse_int es 32 of
                Inl ErrRange \<Rightarrow> Inl FractionTooLong
              | Inl ErrSyntax \<Rightarrow> Inl ExponentNotNumeric
              | Inr expInt \<Rightarrow>
                  (case go_slice s 0 eIndex of
                     None \<Rightarrow> Inl SlicePanic
                   | Some m \<Rightarrow> Inr (m, expInt))))
      else Inr (s, 0))"

text \<open>The mantissa without its point, and the exponent lowered by the digits behind it.\<close>

definition split_point :: "string \<Rightarrow> int \<Rightarrow> int \<Rightarrow> (dec_error, string \<times> int) result" where
  "split_point v pIndex ex =
     (if pIndex = - 1 then Inr (v, ex)
      else (case go_slice v 0 pIndex of
          None \<Rightarrow> Inl SlicePanic
        | Some ip \<Rightarrow>
            (case go_slice v (pIndex + 1) (int (length v)) of
               None \<Rightarrow> Inl SlicePanic
             | Some fp \<Rightarrow>
                 Inr (if pIndex + 1 < int (length v) then ip @ fp else ip,
                      ex + - int (length fp)))))"

definition parse_mantissa :: "string \<Rightarrow> (dec_error, int) result" where
  "parse_mantissa intString =
     (if length intString \<le> 18 then
        (case parse_int intString 64 of Inl _ \<Rightarrow> Inl CantConvert | Inr i \<Rightarrow> Inr i)
      else (case big_set_string intString of None \<Rightarrow> Inl CantConvert | Some i \<Rightarrow> Inr i))"

definition NewFromString :: "string \<Rightarrow> (dec_error, decimal) result" where
  "NewFromString s =
     (case scan_points s 0 (- 1) (- 1) of
        Inl e \<Rightarrow> Inl e
      | Inr (eIndex, pIndex) \<Rightarrow>
     (case split_exponent s eIndex of
        Inl e \<Rightarrow> Inl e
      | Inr (v, ex0) \<Rightarrow>
     (case split_point v pIndex ex0 of
        Inl e \<Rightarrow> Inl e
      | Inr (intString, ex) \<Rightarrow>
     (case parse_mantissa intString of
        Inl e \<Rightarrow> Inl e
      | Inr dValue \<Rightarrow>
          if ex < MinInt32 \<or> ex > MaxInt32 then Inl FractionTooLong
          else if ex < - MaxAbsExponent \<or> ex > MaxAbsExponent then Inl ExponentExceeds
          else Inr \<lparr>d_value = Some dValue, d_exp = ex\<rparr>))))"

section \<open>The value and its sign\<close>

definition getValue :: "decimal \<Rightarrow> int" where
  "getValue d = (case d_value d of None \<Rightarrow> 0 | Some v \<Rightarrow> v)"

definition Sign :: "decimal \<Rightarrow> int" where
  "Sign d = sgn (getValue d)"

definition IsPositive :: "decimal \<Rightarrow> bool" where
  "IsPositive d \<longleftrightarrow> Sign d = 1"

definition dec_Zero :: decimal where
  "dec_Zero = \<lparr>d_value = Some 0, d_exp = 0\<rparr>"

section \<open>The fit into NUMERIC(precision, scale)\<close>

fun strip_zeros :: "string \<Rightarrow> int \<Rightarrow> string \<times> int" where
  "strip_zeros digits ex =
     (if length digits > 1 \<and> ex < 0 \<and> last digits = CHR ''0''
      then strip_zeros (butlast digits) (wrap32 (ex + 1)) else (digits, ex))"

declare strip_zeros.simps [simp del]

definition FitsNumeric :: "decimal \<Rightarrow> int \<Rightarrow> int \<Rightarrow> bool" where
  "FitsNumeric d precision scale =
     (if precision \<le> 0 \<or> scale < 0 \<or> scale > precision then False
      else if Sign d = 0 then True
      else (case strip_zeros (int_text \<bar>getValue d\<bar>) (d_exp d) of
          (digits, ex) \<Rightarrow>
            (let fractionalDigits = (if ex < 0 then wrap32 (- ex) else 0);
                 i0 = wrap32 (wrap32 (int (length digits)) + ex);
                 integerDigits = (if i0 < 0 then 0 else i0)
             in fractionalDigits \<le> scale \<and> integerDigits \<le> wrap32 (precision - scale))))"

section \<open>Rescaling, arithmetic, comparison\<close>

text \<open>
  The difference of two \<open>int32\<close> exponents is computed in \<open>float64\<close>, which holds it exactly.
\<close>

definition rescale :: "decimal \<Rightarrow> int \<Rightarrow> decimal" where
  "rescale d ex =
     (if d_exp d = ex then \<lparr>d_value = Some (getValue d), d_exp = d_exp d\<rparr>
      else (let diff = \<bar>ex - d_exp d\<bar>;
                expScale = 10 ^ nat diff;
                v = (if ex > d_exp d then quo (getValue d) expScale
                     else if ex < d_exp d then getValue d * expScale
                     else getValue d)
            in \<lparr>d_value = Some v, d_exp = ex\<rparr>))"

definition RescalePair :: "decimal \<Rightarrow> decimal \<Rightarrow> decimal \<times> decimal" where
  "RescalePair d1 d2 =
     (if d_exp d1 < d_exp d2 then (d1, rescale d2 (d_exp d1))
      else if d_exp d1 > d_exp d2 then (rescale d1 (d_exp d2), d2)
      else (d1, d2))"

definition dec_Add :: "decimal \<Rightarrow> decimal \<Rightarrow> decimal" where
  "dec_Add d d2 =
     (case RescalePair d d2 of (rd, rd2) \<Rightarrow>
        \<lparr>d_value = Some (getValue rd + getValue rd2), d_exp = d_exp rd\<rparr>)"

definition dec_Sub :: "decimal \<Rightarrow> decimal \<Rightarrow> decimal" where
  "dec_Sub d d2 =
     (case RescalePair d d2 of (rd, rd2) \<Rightarrow>
        \<lparr>d_value = Some (getValue rd - getValue rd2), d_exp = d_exp rd\<rparr>)"

definition big_cmp :: "int \<Rightarrow> int \<Rightarrow> int" where
  "big_cmp a b = (if a < b then - 1 else if a = b then 0 else 1)"

definition dec_Cmp :: "decimal \<Rightarrow> decimal \<Rightarrow> int" where
  "dec_Cmp d d2 =
     (if d_exp d = d_exp d2 then big_cmp (getValue d) (getValue d2)
      else (case RescalePair d d2 of (rd, rd2) \<Rightarrow> big_cmp (getValue rd) (getValue rd2)))"

definition dec_Compare :: "decimal \<Rightarrow> decimal \<Rightarrow> int" where
  "dec_Compare d d2 = dec_Cmp d d2"

section \<open>Printing\<close>

definition ScientificNotationString :: "decimal \<Rightarrow> string" where
  "ScientificNotationString d =
     (let intStr = int_text \<bar>getValue d\<bar> in
      if intStr = ''0'' then intStr
      else (let first = hd intStr;
                remaining = (if length intStr > 1 then ''.'' @ tl intStr else []);
                ex = (if length intStr > 1 then d_exp d + int (length intStr) - 1 else d_exp d);
                number = [first] @ remaining @ ''E'' @ int_text ex
            in if getValue d < 0 then CHR ''-'' # number else number))"

text \<open>The loop that drops the trailing zeros of the fractional part.\<close>

definition trim_zeros :: "string \<Rightarrow> string" where
  "trim_zeros f = rev (dropWhile (\<lambda>c. c = CHR ''0'') (rev f))"

definition fraction_parts :: "string \<Rightarrow> int \<Rightarrow> string \<times> string" where
  "fraction_parts str dExpInt =
     (if int (length str) > - dExpInt then
        (take (nat (int (length str) + dExpInt)) str, drop (nat (int (length str) + dExpInt)) str)
      else (''0'', replicate (nat (- dExpInt - int (length str))) (CHR ''0'') @ str))"

definition dec_string :: "decimal \<Rightarrow> bool \<Rightarrow> bool \<Rightarrow> string" where
  "dec_string d trimTrailingZeros useScientificNotation =
     (if d_exp d = 0 then int_text (getValue (rescale d 0))
      else if d_exp d \<ge> 0 then
        (if useScientificNotation then ScientificNotationString d
         else int_text (getValue (rescale d 0)))
      else (case fraction_parts (int_text \<bar>getValue d\<bar>) (d_exp d) of
          (intPart, fp) \<Rightarrow>
            (let fractionalPart = (if trimTrailingZeros then trim_zeros fp else fp);
                 number = intPart @ (if length fractionalPart > 0
                                     then ''.'' @ fractionalPart else [])
             in if getValue d < 0 then CHR ''-'' # number else number)))"

definition decString :: "decimal \<Rightarrow> string" where
  "decString d = dec_string d True False"

definition MarshalJSON :: "decimal \<Rightarrow> string" where
  "MarshalJSON d = CHR 0x22 # decString d @ [CHR 0x22]"

section \<open>The database driver's interface\<close>

datatype driver_value = DriverString string | DriverBytes string | DriverOther

definition unquoteIfQuoted :: "string \<Rightarrow> string" where
  "unquoteIfQuoted v =
     (if length v > 2 \<and> hd v = CHR 0x22 \<and> last v = CHR 0x22
      then butlast (tl v) else v)"

definition dec_Scan :: "driver_value \<Rightarrow> (dec_error, decimal) result" where
  "dec_Scan v =
     (case v of
        DriverString s \<Rightarrow> NewFromString (unquoteIfQuoted s)
      | DriverBytes s \<Rightarrow> NewFromString (unquoteIfQuoted s)
      | DriverOther \<Rightarrow> Inl NotConvertible)"

definition dec_Value :: "decimal \<Rightarrow> driver_value" where
  "dec_Value d = DriverString (decString d)"

end
