(* ===== verification/Domain.thy ===== *)
theory Domain
  imports Decimal
begin

text \<open>
  Package \<open>internal/domain\<close>: the entities, the sentinel errors, the idempotency key's
  validation. A sentinel error is a constructor of \<open>domain_error\<close>; the text of a message is
  not modelled, only the chain that \<open>fmt.Errorf("...: %w", err)\<close> builds and that
  \<open>errors.Is\<close> and \<open>errors.As\<close> walk.
\<close>

section \<open>Errors\<close>

datatype domain_error =
    ErrAccessDenied | ErrInsufficientFunds | ErrInvalidAmount | ErrSameAccount
  | ErrReceiverAccountNotFound | ErrAccountNotFound
  | ErrSaveRefreshToken | ErrRefreshTokenNotFound | ErrUserNotFound | ErrRefreshTokenRevoked
  | ErrRefreshTokenExpired | ErrInvalidCredentials | ErrInvalidRefreshToken | ErrTokenExpired
  | ErrTokenInvalid
  | ErrAccountAlreadyExist | ErrAccountBlocked | ErrRateLimited | ErrDuplicateRequest
  | ErrIdempotencyKeyRequired | ErrInvalidIdempotencyKey | ErrIdempotencyConflict
  | ErrIdempotencyInProgress | ErrRefreshTokenReuse | ErrInvalidEmail | ErrInvalidPassword
  | ErrInvalidName

text \<open>
  \<open>PgError\<close> carries the SQLSTATE of a \<open>*pgconn.PgError\<close>, \<open>NoRows\<close> is \<open>sql.ErrNoRows\<close>,
  \<open>TxDone\<close> is \<open>sql.ErrTxDone\<close>, \<open>Ctx\<close> is \<open>ctx.Err()\<close>, \<open>DecErr\<close> an error of the decimal
  package, \<open>Plain\<close> any other error, \<open>Wrapped\<close> an error made by \<open>fmt.Errorf\<close> with \<open>%w\<close>.
\<close>

datatype error =
    Sentinel domain_error
  | PgError string
  | NoRows
  | TxDone
  | Ctx
  | DecErr dec_error
  | Plain string
  | Wrapped string error

fun errors_is :: "error \<Rightarrow> error \<Rightarrow> bool" where
  "errors_is (Wrapped m e) target \<longleftrightarrow> Wrapped m e = target \<or> errors_is e target"
| "errors_is e target \<longleftrightarrow> e = target"

fun errors_as_pg :: "error \<Rightarrow> string option" where
  "errors_as_pg (PgError c) = Some c"
| "errors_as_pg (Wrapped m e) = errors_as_pg e"
| "errors_as_pg _ = None"

section \<open>Entities\<close>

definition RoleUser :: string where "RoleUser = ''user''"

record account =
  ac_ID :: uuid
  ac_Name :: string
  ac_Email :: string
  ac_Balance :: decimal
  ac_PasswordHash :: string
  ac_Role :: string

text \<open>\<open>NewAccount\<close>, given the outcome of the UUID generator.\<close>

definition NewAccount :: "(error, uuid) result \<Rightarrow> string \<Rightarrow> decimal \<Rightarrow> (error, account) result" where
  "NewAccount gen name balance =
     (case gen of Inl e \<Rightarrow> Inl (Wrapped ''uuid'' e)
      | Inr i \<Rightarrow> Inr \<lparr>ac_ID = i, ac_Name = name, ac_Email = [], ac_Balance = balance,
          ac_PasswordHash = [], ac_Role = []\<rparr>)"

type_synonym TransactionStatus = string

definition StatusPending :: TransactionStatus where "StatusPending = ''pending''"
definition StatusCompleted :: TransactionStatus where "StatusCompleted = ''completed''"
definition StatusFailed :: TransactionStatus where "StatusFailed = ''failed''"

definition zero_time :: time where
  "zero_time = - 62135596800 * 1000000000"

record transaction =
  tx_ID :: uuid
  tx_Amount :: decimal
  tx_Sender_id :: uuid
  tx_Receiver_id :: uuid
  tx_Status :: TransactionStatus
  tx_Created_at :: time

definition NewTransaction ::
  "(error, uuid) result \<Rightarrow> decimal \<Rightarrow> uuid \<Rightarrow> uuid \<Rightarrow> (error, transaction) result" where
  "NewTransaction gen amount sender_id receiver_id =
     (case gen of Inl e \<Rightarrow> Inl (Wrapped ''uuid'' e)
      | Inr i \<Rightarrow> Inr \<lparr>tx_ID = i, tx_Amount = amount, tx_Sender_id = sender_id,
          tx_Receiver_id = receiver_id, tx_Status = [], tx_Created_at = zero_time\<rparr>)"

record transaction_filter =
  f_AccountID :: uuid
  f_SenderID :: uuid
  f_ReceiverID :: uuid
  f_MinAmount :: string
  f_MaxAmount :: string
  f_From :: time
  f_To :: time
  f_Limit :: int
  f_Offset :: int

section \<open>Tokens\<close>

text \<open>
  The claims of an access or a refresh token (\<open>AccessClaims\<close>, \<open>RefreshClaims\<close> with the
  embedded \<open>jwt.RegisteredClaims\<close>): a claim the token does not carry is the empty string. The
  dates are \<open>jwt.NumericDate\<close>s, whole seconds.
\<close>

record jwt_claims =
  jc_UserID :: string
  jc_Role :: string
  jc_ID :: string
  jc_Subject :: string
  jc_Issuer :: string
  jc_ExpiresAt :: int
  jc_IssuedAt :: int

text \<open>What \<open>errors.Is\<close> tells the code about an error of the JWT library.\<close>

datatype jwt_error = JwtExpired | JwtOther

record token_pair =
  tp_AccessToken :: string
  tp_RefreshToken :: string
  tp_ExpiresIn :: int
  tp_JTI :: string
  tp_ExpiresAt :: time

section \<open>The idempotency record and its key\<close>

definition MaxIdempotencyKeyLength :: nat where
  "MaxIdempotencyKeyLength = 128"

type_synonym IdempotencyStatus = string

definition IdempotencyStatusProcessing :: IdempotencyStatus where
  "IdempotencyStatusProcessing = ''processing''"
definition IdempotencyStatusCompleted :: IdempotencyStatus where
  "IdempotencyStatusCompleted = ''completed''"

record transfer_idempotency =
  ti_SenderID :: uuid
  ti_Key :: string
  ti_RequestFingerprint :: string
  ti_Status :: IdempotencyStatus
  ti_TransactionID :: "uuid option"
  ti_CreatedAt :: time
  ti_UpdatedAt :: time

definition between :: "char \<Rightarrow> char \<Rightarrow> char \<Rightarrow> bool" where
  "between lo hi c \<longleftrightarrow> (of_char lo :: int) \<le> of_char c \<and> (of_char c :: int) \<le> of_char hi"

definition key_char_allowed :: "char \<Rightarrow> bool" where
  "key_char_allowed c \<longleftrightarrow>
     between (CHR ''a'') (CHR ''z'') c \<or> between (CHR ''A'') (CHR ''Z'') c
     \<or> between (CHR ''0'') (CHR ''9'') c
     \<or> c = CHR ''.'' \<or> c = CHR 0x5F \<or> c = CHR '':'' \<or> c = CHR ''-''"

fun key_chars_ok :: "string \<Rightarrow> bool" where
  "key_chars_ok [] = True"
| "key_chars_ok (c # cs) = (if \<not> key_char_allowed c then False else key_chars_ok cs)"

text \<open>\<open>None\<close> is the nil error.\<close>

definition ValidateIdempotencyKey :: "string \<Rightarrow> error option" where
  "ValidateIdempotencyKey key =
     (if key = [] then Some (Sentinel ErrIdempotencyKeyRequired)
      else if length key > MaxIdempotencyKeyLength then Some (Sentinel ErrInvalidIdempotencyKey)
      else if \<not> key_chars_ok key then Some (Sentinel ErrInvalidIdempotencyKey)
      else None)"

lemma key_chars_ok_iff: "key_chars_ok key \<longleftrightarrow> list_all key_char_allowed key"
  by (induction key) auto

lemma valid_key_iff:
  "ValidateIdempotencyKey key = None \<longleftrightarrow>
     key \<noteq> [] \<and> length key \<le> 128 \<and> list_all key_char_allowed key"
  by (auto simp: ValidateIdempotencyKey_def MaxIdempotencyKeyLength_def key_chars_ok_iff)

text \<open>A valid key fits the column \<open>VARCHAR(128)\<close> and is plain ASCII.\<close>

lemma key_char_allowed_ascii: "key_char_allowed c \<Longrightarrow> (of_char c :: int) < 128 \<and> c \<noteq> CHR 0x00"
  by (auto simp: key_char_allowed_def between_def)

end
