(* ===== verification/Decimal_Props.thy ===== *)
theory Decimal_Props
  imports Decimal
begin

text \<open>
  What the decimals of \<open>Decimal\<close> mean: \<open>dec_rat\<close> is the rational number a decimal denotes.
  The parser, the printer, the column check and the arithmetic are related to it: rescaling
  to a lower exponent, sums, differences and comparison are exact; printing is canonical
  (two decimals print alike exactly when they denote the same number); parsing inverts
  printing; \<open>FitsNumeric\<close> decides whether the number is storable in \<open>NUMERIC(p, s)\<close>.
\<close>

definition dec_rat :: "decimal \<Rightarrow> rat" where
  "dec_rat d = of_int (getValue d) * 10 powi d_exp d"

text \<open>The exponents the parser lets through, and the struct's machine bound.\<close>

definition dec_wf :: "decimal \<Rightarrow> bool" where
  "dec_wf d \<longleftrightarrow> - MaxAbsExponent \<le> d_exp d \<and> d_exp d \<le> MaxAbsExponent"

named_theorems dec_simps \<open>the value of a decimal\<close>

section \<open>Powers of ten\<close>

lemma powi_nat: "0 \<le> k \<Longrightarrow> (10::rat) powi k = 10 ^ nat k"
  by (simp add: power_int_def)

lemma powi_shift: "m \<le> e \<Longrightarrow> (10::rat) ^ nat (e - m) * 10 powi m = 10 powi e"
proof -
  assume "m \<le> e"
  then have "(10::rat) ^ nat (e - m) = 10 powi (e - m)" by (simp add: powi_nat)
  then show ?thesis by (simp flip: power_int_add)
qed

lemma powi_pos [simp]: "(0::rat) < 10 powi e"
  by (rule zero_less_power_int) simp

lemma powi_not_neg [simp]:
  "\<not> (10::rat) powi e \<le> 0" "\<not> (10::rat) powi e < 0" "(10::rat) powi e \<noteq> 0"
  using powi_pos [of e] by (simp_all only: not_le not_less less_imp_le order_less_imp_not_eq2 simp_thms)

lemma wrap32_id: "MinInt32 \<le> x \<Longrightarrow> x \<le> MaxInt32 \<Longrightarrow> wrap32 x = x"
  by (simp add: wrap32_def MinInt32_def MaxInt32_def)

section \<open>Rescaling and arithmetic\<close>

lemma getValue_Some [simp]: "getValue \<lparr>d_value = Some v, d_exp = e\<rparr> = v"
  by (simp add: getValue_def)

lemma dec_rat_Some [dec_simps]: "dec_rat \<lparr>d_value = Some v, d_exp = e\<rparr> = of_int v * 10 powi e"
  by (simp add: dec_rat_def)

lemma rescale_exp [simp]: "d_exp (rescale d ex) = ex"
  by (simp add: rescale_def Let_def)

lemma rescale_down:
  "ex \<le> d_exp d \<Longrightarrow> getValue (rescale d ex) = getValue d * 10 ^ nat (d_exp d - ex)"
  by (simp add: rescale_def Let_def)

lemma rescale_rat [dec_simps]: "ex \<le> d_exp d \<Longrightarrow> dec_rat (rescale d ex) = dec_rat d"
  by (simp add: dec_rat_def rescale_down mult.assoc powi_shift)

lemma RescalePair_spec:
  "RescalePair d1 d2 = (r1, r2) \<Longrightarrow>
     d_exp r1 = min (d_exp d1) (d_exp d2) \<and> d_exp r2 = min (d_exp d1) (d_exp d2)
       \<and> dec_rat r1 = dec_rat d1 \<and> dec_rat r2 = dec_rat d2"
  by (auto simp: RescalePair_def dec_simps split: if_splits)

lemma Sign_dec_rat: "of_int (Sign d) = sgn (dec_rat d)"
  by (simp add: Sign_def dec_rat_def sgn_mult) (simp add: sgn_if)

lemma IsPositive_iff: "IsPositive d \<longleftrightarrow> 0 < dec_rat d"
proof -
  have "IsPositive d \<longleftrightarrow> 0 < getValue d"
    by (simp add: IsPositive_def Sign_def sgn_1_pos)
  also have "\<dots> \<longleftrightarrow> 0 < dec_rat d"
    by (simp add: dec_rat_def zero_less_mult_iff not_less [symmetric])
  finally show ?thesis .
qed

text \<open>
  Decimal addition and subtraction are exact: the result denotes the sum (difference)
  of the two numbers, whatever their exponents.
\<close>
lemma add_sub_exact:
  "dec_rat (dec_Add a b) = dec_rat a + dec_rat b \<and> dec_rat (dec_Sub a b) = dec_rat a - dec_rat b"
proof -
  obtain r1 r2 where r: "RescalePair a b = (r1, r2)" by force
  from RescalePair_spec [OF r]
  have "d_exp r2 = d_exp r1" "dec_rat r1 = dec_rat a" "dec_rat r2 = dec_rat b" by simp_all
  with r show ?thesis
    by (auto simp: dec_Add_def dec_Sub_def dec_rat_def algebra_simps)
qed

text \<open>
  \<open>Cmp\<close> (and \<open>Compare\<close>) orders decimals as the numbers they denote, with no
  representation (1.0 against 1) making a difference.
\<close>
lemma cmp_orders_values:
  "dec_Compare a b = (if dec_rat a < dec_rat b then - 1 else if dec_rat a = dec_rat b then 0 else 1)"
proof -
  have cmp: "big_cmp (getValue x) (getValue y) =
      (if dec_rat x < dec_rat y then - 1 else if dec_rat x = dec_rat y then 0 else 1)"
    if "d_exp x = d_exp y" for x y
    using that powi_pos [of "d_exp y"]
    by (simp add: big_cmp_def dec_rat_def mult_less_cancel_right)
  obtain r1 r2 where r: "RescalePair a b = (r1, r2)" by force
  from RescalePair_spec [OF r]
  have "d_exp r1 = d_exp r2" "dec_rat r1 = dec_rat a" "dec_rat r2 = dec_rat b" by simp_all
  with r cmp [of r1 r2] cmp [of a b] show ?thesis
    by (auto simp: dec_Compare_def dec_Cmp_def)
qed

text \<open>
  C30: decimal arithmetic is exact: the result of \<open>Add\<close> (\<open>Sub\<close>) denotes the sum (difference) of
  the numbers, and \<open>Compare\<close> orders decimals as the numbers they denote, whatever the
  exponents of the two representations.
\<close>
theorem arithmetic_exact:
  "dec_rat (dec_Add a b) = dec_rat a + dec_rat b \<and> dec_rat (dec_Sub a b) = dec_rat a - dec_rat b
   \<and> dec_Compare a b = (if dec_rat a < dec_rat b then - 1 else if dec_rat a = dec_rat b then 0 else 1)"
  by (simp only: add_sub_exact cmp_orders_values)

section \<open>FitsNumeric\<close>

text \<open>What the loop over the trailing zeros leaves: the same number, in lowest terms.\<close>

lemma strip_zeros_spec:
  assumes "0 < n" "MinInt32 \<le> e" "e \<le> MaxInt32"
  shows "\<exists>n' k. strip_zeros (nat_text n) e = (nat_text n', e + int k) \<and> 0 < n' \<and> n = n' * 10 ^ k
      \<and> (e + int k < 0 \<longrightarrow> n' mod 10 \<noteq> 0) \<and> (k = 0 \<or> e + int k \<le> 0)"
  using assms
proof (induction "nat n" arbitrary: n e rule: less_induct)
  case less
  show ?case
  proof (cases "length (nat_text n) > 1 \<and> e < 0 \<and> last (nat_text n) = CHR ''0''")
    case True
    then have n10: "10 \<le> n"
      using length_nat_text_iff [of 1 n] by simp
    have m: "n mod 10 = 0"
      using True less.prems last_nat_text_zero_iff [of n] by simp
    have w: "wrap32 (e + 1) = e + 1"
      using True less.prems by (intro wrap32_id) (auto simp: MaxInt32_def)
    have smaller: "nat (n div 10) < nat n" "0 < n div 10"
      using n10 by auto
    have e1: "MinInt32 \<le> e + 1" "e + 1 \<le> MaxInt32"
      using less.prems True by (auto simp: MaxInt32_def)
    obtain n' k where ih: "strip_zeros (nat_text (n div 10)) (e + 1) = (nat_text n', e + 1 + int k)"
        "0 < n'" "n div 10 = n' * 10 ^ k" "e + 1 + int k < 0 \<longrightarrow> n' mod 10 \<noteq> 0"
        "k = 0 \<or> e + 1 + int k \<le> 0"
      using less.hyps [OF smaller e1] by (elim exE conjE) (rule that)
    have "strip_zeros (nat_text n) e = strip_zeros (nat_text (n div 10)) (e + 1)"
      using True w butlast_nat_text [OF n10] by (subst strip_zeros.simps) simp
    moreover have "n = n' * 10 ^ Suc k"
      using m ih(3) by (metis mult.assoc mult_div_mod_eq mult.commute add.right_neutral power_Suc)
    ultimately show ?thesis
      using ih True by (intro exI [of _ n'] exI [of _ "Suc k"]) (auto simp: algebra_simps)
  next
    case False
    have "n mod 10 \<noteq> 0" if "e < 0"
    proof (cases "n < 10")
      case True
      with less.prems show ?thesis by simp
    next
      case c: False
      then have "length (nat_text n) > 1"
        using length_nat_text_iff [of 1 n] by simp
      with False that less.prems show ?thesis
        using last_nat_text_zero_iff [of n] by simp
    qed
    moreover have "strip_zeros (nat_text n) e = (nat_text n, e)"
      using False by (subst strip_zeros.simps) (simp only: if_False)
    ultimately show ?thesis
      using less.prems by (intro exI [of _ n] exI [of _ 0]) simp
  qed
qed

lemma dec_rat_abs: "\<bar>dec_rat d\<bar> = of_int \<bar>getValue d\<bar> * 10 powi d_exp d"
  by (simp add: dec_rat_def abs_mult)

lemma integral_abs_iff: "(\<exists>z::int. (x::rat) = of_int z) \<longleftrightarrow> (\<exists>z::int. \<bar>x\<bar> = of_int z)"
proof (cases "x < 0")
  case True
  have "x = of_int z \<longleftrightarrow> - x = of_int (- z)" for z by (simp add: equation_minus_iff)
  then show ?thesis using True by (metis abs_of_neg minus_minus)
qed simp

lemma integral_scaled_iff:
  assumes "n' mod 10 \<noteq> 0" "e < 0"
  shows "(\<exists>z::int. of_int n' * (10::rat) powi e * 10 ^ s = of_int z) \<longleftrightarrow> nat (- e) \<le> s"
proof
  assume "nat (- e) \<le> s"
  then obtain j where j: "s = nat (- e) + j" by (rule less_eqE)
  have "of_int n' * (10::rat) powi e * 10 ^ s = of_int (n' * 10 ^ j)"
    using assms(2) by (simp add: j power_int_def power_add field_simps)
  then show "\<exists>z::int. of_int n' * (10::rat) powi e * 10 ^ s = of_int z" ..
next
  assume "\<exists>z::int. of_int n' * (10::rat) powi e * 10 ^ s = of_int z"
  then obtain z where z: "of_int n' * (10::rat) powi e * 10 ^ s = of_int z" ..
  show "nat (- e) \<le> s"
  proof (rule ccontr)
    assume c: "\<not> nat (- e) \<le> s"
    define k where "k = nat (- e) - s - 1"
    with c have ek: "nat (- e) = s + Suc k" by simp
    have "of_int n' * (10::rat) ^ s = of_int z * 10 ^ nat (- e)"
      using z assms(2) by (simp add: power_int_def field_simps)
    also have "\<dots> = of_int z * 10 ^ Suc k * 10 ^ s"
      by (simp add: ek power_add)
    finally have "of_int n' = (of_int (z * 10 ^ Suc k) :: rat)" by simp
    then have "n' = z * 10 ^ Suc k" by (simp only: of_int_eq_iff)
    then have "n' mod 10 = 0" by simp
    with assms(1) show False ..
  qed
qed

lemma below_power_iff:
  assumes "0 < n'" "0 \<le> q"
  shows "of_int n' * (10::rat) powi e < 10 ^ nat q \<longleftrightarrow> int (length (nat_text n')) + e \<le> q"
proof (cases "0 < q - e")
  case True
  have "of_int n' * (10::rat) powi e < 10 ^ nat q \<longleftrightarrow> of_int n' < (10::rat) powi (q - e)"
    using assms(2) by (simp add: power_int_diff field_simps powi_nat)
  also have "\<dots> \<longleftrightarrow> of_int n' < (of_int (10 ^ nat (q - e)) :: rat)"
    using True by (simp add: powi_nat)
  also have "\<dots> \<longleftrightarrow> n' < 10 ^ nat (q - e)" by (simp only: of_int_less_iff)
  also have "\<dots> \<longleftrightarrow> length (nat_text n') \<le> nat (q - e)"
    using True by (simp add: length_nat_text_iff)
  finally show ?thesis using True by linarith
next
  case False
  then have "(10::rat) powi q \<le> 10 powi e" by (intro power_int_increasing) auto
  also have "\<dots> \<le> of_int n' * 10 powi e" using assms(1) by simp
  finally have "\<not> of_int n' * (10::rat) powi e < 10 ^ nat q"
    using assms(2) by (simp add: powi_nat)
  moreover have "1 \<le> length (nat_text n')" using length_nat_text_pos [of n'] by linarith
  ultimately show ?thesis using False by linarith
qed

text \<open>
  The machine bounds under which the \<open>int32\<close> arithmetic of \<open>FitsNumeric\<close> is exact. Every
  decimal the parser returns for a text shorter than two billion bytes is within them.
\<close>

definition dec_int32_ok :: "decimal \<Rightarrow> bool" where
  "dec_int32_ok d \<longleftrightarrow> MinInt32 < d_exp d \<and> d_exp d \<le> MaxInt32
     \<and> int (length (int_text \<bar>getValue d\<bar>)) + max 0 (d_exp d) \<le> MaxInt32"

lemma scaled_integral:
  assumes "0 \<le> s" "ex < 0 \<longrightarrow> n mod 10 \<noteq> 0"
  shows "(\<exists>z::int. of_int n * 10 powi ex * 10 ^ nat s = (of_int z :: rat)) \<longleftrightarrow> (if ex < 0 then - ex else 0) \<le> s"
proof (cases "ex < 0")
  case True
  then show ?thesis using integral_scaled_iff [of n ex "nat s"] assms by (simp add: nat_le_iff)
next
  case False
  then have "of_int n * 10 powi ex * 10 ^ nat s = (of_int (n * 10 ^ nat ex * 10 ^ nat s) :: rat)"
    by (simp add: powi_nat)
  with False assms(1) show ?thesis by metis
qed

lemma length_nat_text_mono: "n' \<le> n \<Longrightarrow> length (nat_text n') \<le> length (nat_text n)"
  using length_nat_text_iff [of "length (nat_text n)" n] length_nat_text_iff [of "length (nat_text n)" n'] by simp

lemma fits_numeric_exact:
  assumes "dec_int32_ok d" "0 < p" "0 \<le> s" "s \<le> p" "p \<le> MaxInt32"
  shows "FitsNumeric d p s \<longleftrightarrow>
     (\<exists>z::int. dec_rat d * 10 ^ nat s = of_int z) \<and> \<bar>dec_rat d\<bar> < 10 ^ nat (p - s)"
proof (cases "getValue d = 0")
  case True
  then have "dec_rat d * 10 ^ nat s = of_int 0" by (simp add: dec_rat_def)
  with True assms show ?thesis
    by (auto simp: FitsNumeric_def Sign_def dec_rat_def intro: exI [of _ 0])
next
  case False
  define n where "n = \<bar>getValue d\<bar>"
  have n: "0 < n" using False by (simp add: n_def)
  from assms(1) have e: "MinInt32 \<le> d_exp d" "d_exp d \<le> MaxInt32"
    by (auto simp: dec_int32_ok_def)
  obtain n' k where sz: "strip_zeros (nat_text n) (d_exp d) = (nat_text n', d_exp d + int k)"
    and n': "0 < n'" "n = n' * 10 ^ k" "d_exp d + int k < 0 \<longrightarrow> n' mod 10 \<noteq> 0"
    and k: "k = 0 \<or> d_exp d + int k \<le> 0"
    using strip_zeros_spec [OF n e] by blast
  define ex where "ex = d_exp d + int k"
  have val: "\<bar>dec_rat d\<bar> = of_int n' * 10 powi ex"
    using n'(2) by (simp add: dec_rat_abs n_def ex_def power_int_add powi_nat mult.assoc)
  have "n' * 1 \<le> n' * 10 ^ k" using n'(1) by (intro mult_left_mono) auto
  then have len: "length (nat_text n') \<le> length (nat_text n)"
    using n'(2) by (intro length_nat_text_mono) simp
  have bounds: "int (length (nat_text n')) + max 0 ex \<le> MaxInt32" "MinInt32 < ex" "ex \<le> MaxInt32"
    using assms(1) len k by (auto simp: dec_int32_ok_def ex_def n_def int_text_nonneg)
  have w: "wrap32 (int (length (nat_text n'))) = int (length (nat_text n'))"
      "wrap32 (int (length (nat_text n')) + ex) = int (length (nat_text n')) + ex"
      "ex < 0 \<Longrightarrow> wrap32 (- ex) = - ex" "wrap32 (p - s) = p - s"
    using bounds assms by (auto intro!: wrap32_id simp: MinInt32_def MaxInt32_def)
  have fits: "FitsNumeric d p s \<longleftrightarrow>
      (if ex < 0 then - ex else 0) \<le> s \<and> int (length (nat_text n')) + ex \<le> p - s"
    using assms False sz w
    by (auto simp: FitsNumeric_def Sign_def sgn_0_0 int_text_nonneg n_def ex_def Let_def)
  have sgn_val: "(\<exists>z::int. dec_rat d * 10 ^ nat s = of_int z)
      \<longleftrightarrow> (\<exists>z::int. \<bar>dec_rat d\<bar> * 10 ^ nat s = of_int z)"
    using integral_abs_iff [of "dec_rat d * 10 ^ nat s"] by (simp add: abs_mult)
  have frac: "(\<exists>z::int. \<bar>dec_rat d\<bar> * 10 ^ nat s = of_int z) \<longleftrightarrow> (if ex < 0 then - ex else 0) \<le> s"
    unfolding val using n'(3) assms(3) by (intro scaled_integral) (simp_all add: ex_def)
  have whole: "\<bar>dec_rat d\<bar> < 10 ^ nat (p - s) \<longleftrightarrow> int (length (nat_text n')) + ex \<le> p - s"
    using below_power_iff [OF n'(1), of "p - s" ex] assms(4) by (simp add: val)
  show ?thesis using fits sgn_val frac whole by simp
qed

section \<open>Printing is canonical\<close>

lemma decString_getValue: "decString d = decString \<lparr>d_value = Some (getValue d), d_exp = d_exp d\<rparr>"
  by (simp add: decString_def dec_string_def rescale_def)

lemma decString_nonneg:
  "0 \<le> e \<Longrightarrow> decString \<lparr>d_value = Some v, d_exp = e\<rparr> = int_text (v * 10 ^ nat e)"
  by (auto simp: decString_def dec_string_def rescale_def)

lemma decString_neg:
  "e < 0 \<Longrightarrow> decString \<lparr>d_value = Some v, d_exp = e\<rparr> =
     (if v < 0 then ''-'' else []) @ fst (fraction_parts (nat_text \<bar>v\<bar>) e)
       @ (let f = trim_zeros (snd (fraction_parts (nat_text \<bar>v\<bar>) e))
          in if f = [] then [] else CHR ''.'' # f)"
  by (simp add: decString_def dec_string_def int_text_nonneg Let_def split: prod.split)

lemma trim_zeros_snoc [simp]: "trim_zeros (f @ ''0'') = trim_zeros f"
  by (simp add: trim_zeros_def)

lemma trim_zeros_zeros [simp]: "trim_zeros (replicate n (CHR ''0'')) = []"
  by (simp add: trim_zeros_def)

lemma trim_zeros_split: "\<exists>t. f = trim_zeros f @ replicate t (CHR ''0'')"
proof (induction f rule: rev_induct)
  case Nil
  then show ?case by (simp add: trim_zeros_def)
next
  case (snoc c f)
  show ?case
  proof (cases "c = CHR ''0''")
    case True
    from snoc obtain t where "f = trim_zeros f @ replicate t (CHR ''0'')" ..
    then have "f @ [c] = trim_zeros (f @ [c]) @ replicate (Suc t) (CHR ''0'')"
      using True by (metis append.assoc replicate_append_same replicate_Suc trim_zeros_snoc)
    then show ?thesis ..
  next
    case False
    then have "f @ [c] = trim_zeros (f @ [c]) @ replicate 0 (CHR ''0'')"
      by (simp add: trim_zeros_def)
    then show ?thesis ..
  qed
qed

lemma fraction_parts_zero: "e < 0 \<Longrightarrow> fraction_parts ''0'' e =
    (''0'', replicate (nat (- e)) (CHR ''0''))"
proof -
  assume "e < 0"
  then obtain k where k: "nat (- e) = Suc k" by (metis Suc_pred zero_less_nat_eq neg_0_less_iff_less)
  with \<open>e < 0\<close> have "nat (- e - 1) = k" by linarith
  with \<open>e < 0\<close> k show ?thesis
    by (simp add: fraction_parts_def replicate_append_same)
qed

lemma fraction_parts_snoc:
  assumes "e < 0"
  shows "fraction_parts (str @ [c]) (e - 1)
       = (fst (fraction_parts str e), snd (fraction_parts str e) @ [c])"
  using assms by (auto simp: fraction_parts_def nat_add_distrib)

text \<open>Multiplying the coefficient by ten and lowering the exponent changes nothing.\<close>

lemma decString_shift1:
  "decString \<lparr>d_value = Some (v * 10), d_exp = e - 1\<rparr> = decString \<lparr>d_value = Some v, d_exp = e\<rparr>"
proof -
  consider "0 < e" | "e \<le> 0" "v = 0" | "e = 0" "v \<noteq> 0" | "e < 0" "v \<noteq> 0" by linarith
  then show ?thesis
  proof cases
    case 1
    then have "nat e = Suc (nat (e - 1))" by linarith
    with 1 show ?thesis by (simp add: decString_nonneg mult.assoc)
  next
    case 2
    then show ?thesis
      by (cases "e = 0") (simp_all add: decString_neg decString_nonneg fraction_parts_zero int_text_nonneg
        trim_zeros_def)
  next
    case 3
    then have "nat_text \<bar>v * 10\<bar> = nat_text \<bar>v\<bar> @ ''0''"
      using nat_text_times10 [of "\<bar>v\<bar>"] by (simp add: abs_mult)
    with 3 show ?thesis
      by (simp add: decString_neg decString_nonneg fraction_parts_def int_text_def trim_zeros_def)
  next
    case 4
    then have "nat_text \<bar>v * 10\<bar> = nat_text \<bar>v\<bar> @ ''0''"
      using nat_text_times10 [of "\<bar>v\<bar>"] by (simp add: abs_mult)
    with 4 show ?thesis
      by (simp add: decString_neg fraction_parts_snoc)
  qed
qed

lemma decString_shift:
  "decString \<lparr>d_value = Some (v * 10 ^ k), d_exp = e - int k\<rparr> = decString \<lparr>d_value = Some v, d_exp = e\<rparr>"
proof (induction k)
  case 0
  then show ?case by simp
next
  case (Suc k)
  then show ?case
    using decString_shift1 [of "v * 10 ^ k" "e - int k"] by (simp add: algebra_simps)
qed

lemma dec_rat_eq_decString:
  assumes "dec_rat a = dec_rat b"
  shows "decString a = decString b"
proof -
  define m where "m = min (d_exp a) (d_exp b)"
  have scaled: "decString d = decString \<lparr>d_value = Some (getValue d * 10 ^ nat (d_exp d - m)), d_exp = m\<rparr>"
    and rat: "dec_rat d = of_int (getValue d * 10 ^ nat (d_exp d - m)) * 10 powi m"
    if "m \<le> d_exp d" for d
    using that decString_shift [of "getValue d" "nat (d_exp d - m)" "d_exp d"]
    by (simp_all add: decString_getValue [of d] dec_rat_def mult.assoc powi_shift)
  have "of_int (getValue a * 10 ^ nat (d_exp a - m)) * (10::rat) powi m
      = of_int (getValue b * 10 ^ nat (d_exp b - m)) * 10 powi m"
    using assms rat [of a] rat [of b] by (simp add: m_def)
  then have "getValue a * 10 ^ nat (d_exp a - m) = getValue b * 10 ^ nat (d_exp b - m)"
    by (simp only: mult_cancel_right powi_not_neg of_int_eq_iff simp_thms)
  then show ?thesis using scaled [of a] scaled [of b] by (simp add: m_def)
qed

section \<open>Parsing\<close>

lemma mantissa_shortcut:
  "parse_mantissa s = (case big_set_string s of None \<Rightarrow> Inl CantConvert | Some i \<Rightarrow> Inr i)"
proof (cases "length s \<le> 18")
  case True
  from parse_int_short [OF True] show ?thesis
    using True by (cases "parse_int s 64"; cases "big_set_string s")
      (simp_all add: parse_mantissa_def)
next
  case False
  then show ?thesis by (simp add: parse_mantissa_def)
qed

text \<open>The two indices the scan returns point at an \<open>e\<close> and at a dot.\<close>

definition points_ok :: "string \<Rightarrow> nat \<Rightarrow> int \<Rightarrow> int \<Rightarrow> bool" where
  "points_ok s n e p \<longleftrightarrow>
     (e = - 1 \<or> 0 \<le> e \<and> e < int n \<and> (s ! nat e = CHR ''e'' \<or> s ! nat e = CHR ''E'')) \<and>
     (p = - 1 \<or> 0 \<le> p \<and> p < int n \<and> s ! nat p = CHR ''.'')"

lemma scan_points_ok:
  assumes "points_ok s n e p" "n \<le> length s" "scan_points (drop n s) (int n) e p = Inr (e', p')"
  shows "points_ok s (length s) e' p'"
  using assms
proof (induction "length s - n" arbitrary: n e p)
  case 0
  then show ?case by simp
next
  case (Suc k)
  then have n: "n < length s" by simp
  then have d: "drop n s = s ! n # drop (Suc n) s" by (rule Cons_nth_drop_Suc [symmetric])
  have k: "k = length s - Suc n" using Suc.hyps(2) by simp
  have ok: "points_ok s (Suc n) e p" "s ! n = CHR ''E'' \<or> s ! n = CHR ''e'' \<Longrightarrow> points_ok s (Suc n) (int n) p"
    "s ! n = CHR ''.'' \<Longrightarrow> points_ok s (Suc n) e (int n)"
    using Suc.prems(1) by (auto simp: points_ok_def)
  note ih = Suc.hyps(1) [OF k]
  show ?case
    using Suc.prems(3) d n ih [OF ok(1)] ih [OF ok(2)] ih [OF ok(3)]
    by (auto simp: add.commute split: if_splits)
qed

lemma scan_points_start:
  "scan_points s 0 (- 1) (- 1) = Inr (e, p) \<Longrightarrow> points_ok s (length s) e p"
  using scan_points_ok [of s 0 "- 1" "- 1" e p] by (simp add: points_ok_def)

lemma scan_points_no_panic: "scan_points t i a b \<noteq> Inl SlicePanic"
  by (induction t i a b rule: scan_points.induct) auto

lemma split_exponent_ok:
  assumes "points_ok s (length s) e p" "split_exponent s e = r"
  shows "r \<noteq> Inl SlicePanic"
    and "r = Inr (v, ex) \<Longrightarrow> p \<noteq> - 1 \<Longrightarrow> p < int (length v)"
proof -
  show "r \<noteq> Inl SlicePanic"
    using assms by (auto simp: split_exponent_def go_slice_def points_ok_def
        split: if_splits sum.splits num_error.splits)
  assume r: "r = Inr (v, ex)" and p: "p \<noteq> - 1"
  show "p < int (length v)"
  proof (cases "e = - 1")
    case True
    with assms r p show ?thesis by (simp add: split_exponent_def points_ok_def)
  next
    case False
    with assms(1) have e: "0 \<le> e" "e < int (length s)" and ne: "s ! nat e \<noteq> CHR ''.''"
      by (auto simp: points_ok_def)
    from p assms(1) have pp: "0 \<le> p" "p < int (length s)" "s ! nat p = CHR ''.''"
      by (auto simp: points_ok_def)
    have slices: "go_slice s (e + 1) (int (length s)) = Some (drop (nat (e + 1)) s)"
      "go_slice s 0 e = Some (take (nat e) s)"
      using e by (simp_all add: go_slice_suffix go_slice_prefix)
    obtain x where v: "v = take (nat e) s" and x: "parse_int (drop (nat (e + 1)) s) 32 = Inr x"
      using False assms(2) r slices
      by (auto simp: split_exponent_def split: sum.splits num_error.splits)
    have "\<not> e < p"
    proof
      assume "e < p"
      define k where "k = nat (e + 1)"
      have k: "k \<le> nat p" "nat p < length s" using \<open>e < p\<close> pp e by (auto simp: k_def)
      then have "drop k s ! (nat p - k) = s ! nat p" by (simp add: nth_drop)
      moreover have "drop k s ! (nat p - k) \<in> set (drop k s)" using k by (intro nth_mem) simp
      ultimately have "CHR ''.'' \<in> set (drop (nat (e + 1)) s)" using pp(3) by (simp add: k_def)
      from parse_int_no_dot [OF this, of 32] x show False by auto
    qed
    moreover have "e \<noteq> p" using ne pp(3) by auto
    ultimately show ?thesis using v e pp by simp
  qed
qed

text \<open>
  The parser never indexes outside its input: for every text, valid or not, no slice
  expression of \<open>NewFromString\<close> is out of range, so it returns a decimal or an error and
  does not panic.
\<close>
lemma new_from_string_no_panic: "NewFromString s \<noteq> Inl SlicePanic"
proof (cases "scan_points s 0 (- 1) (- 1)")
  case (Inl e)
  then show ?thesis using scan_points_no_panic [of s 0 "- 1" "- 1"] by (simp add: NewFromString_def)
next
  case (Inr ep)
  obtain eI pI where ep: "ep = (eI, pI)" by force
  with Inr have ok: "points_ok s (length s) eI pI" by (auto intro: scan_points_start)
  have pm: "parse_mantissa t \<noteq> Inl SlicePanic" for t
    by (auto simp: mantissa_shortcut split: option.splits)
  show ?thesis
  proof (cases "split_exponent s eI")
    case (Inl e)
    with ok have "e \<noteq> SlicePanic" using split_exponent_ok(1) by blast
    with Inl Inr ep show ?thesis by (simp add: NewFromString_def)
  next
    case r: (Inr vx)
    obtain v ex where vx: "vx = (v, ex)" by force
    have "pI \<noteq> - 1 \<Longrightarrow> pI < int (length v)" using split_exponent_ok(2) [OF ok r] vx by simp
    moreover have "pI \<noteq> - 1 \<Longrightarrow> 0 \<le> pI" using ok by (auto simp: points_ok_def)
    ultimately obtain t x where "split_point v pI ex = Inr (t, x)"
      by (cases "pI = - 1") (auto simp: split_point_def go_slice_prefix go_slice_suffix)
    moreover from pm [of t] have "\<forall>e. parse_mantissa t = Inl e \<longrightarrow> e \<noteq> SlicePanic" by auto
    ultimately show ?thesis using r vx Inr ep
      by (auto simp: NewFromString_def split: sum.splits)
  qed
qed

section \<open>The numerals the parser accepts, and the number they denote\<close>

text \<open>
  A numeral in the usual notation: a sign or none, digits, an optional point with digits
  behind it, an optional exponent.
\<close>

datatype numeral = Numeral (n_sign: string) (n_int: string) (n_frac: "string option")
  (n_expo: "(char \<times> string) option")

definition frac_digits :: "numeral \<Rightarrow> string" where
  "frac_digits n = (case n_frac n of None \<Rightarrow> [] | Some f \<Rightarrow> f)"

definition numeral_text :: "numeral \<Rightarrow> string" where
  "numeral_text n = n_sign n @ n_int n
     @ (case n_frac n of None \<Rightarrow> [] | Some f \<Rightarrow> CHR ''.'' # f)
     @ (case n_expo n of None \<Rightarrow> [] | Some (c, x) \<Rightarrow> c # x)"

definition numeral_exp :: "numeral \<Rightarrow> int" where
  "numeral_exp n = (case n_expo n of None \<Rightarrow> 0
     | Some (c, x) \<Rightarrow> (case parse_int x 32 of Inl _ \<Rightarrow> 0 | Inr i \<Rightarrow> i)) - int (length (frac_digits n))"

definition numeral_ok :: "numeral \<Rightarrow> bool" where
  "numeral_ok n \<longleftrightarrow> n_sign n \<in> {[], ''-'', ''+''} \<and> list_all is_digit (n_int n)
     \<and> list_all is_digit (frac_digits n) \<and> n_int n @ frac_digits n \<noteq> []
     \<and> (case n_expo n of None \<Rightarrow> True
        | Some (c, x) \<Rightarrow> (c = CHR ''e'' \<or> c = CHR ''E'') \<and> \<not> isl (parse_int x 32))
     \<and> - MaxAbsExponent \<le> numeral_exp n \<and> numeral_exp n \<le> MaxAbsExponent"

definition numeral_coeff :: "numeral \<Rightarrow> int" where
  "numeral_coeff n = with_sign (n_sign n = ''-'') (digits_val 0 (n_int n @ frac_digits n))"

definition plain :: "char \<Rightarrow> bool" where
  "plain c \<longleftrightarrow> c \<noteq> CHR ''e'' \<and> c \<noteq> CHR ''E'' \<and> c \<noteq> CHR ''.''"

lemma plain_digit: "is_digit c \<Longrightarrow> plain c"
  by (auto simp: plain_def)

lemma plain_digits: "list_all is_digit s \<Longrightarrow> list_all plain s"
  by (auto simp: list_all_iff plain_digit)

lemma scan_points_plain:
  "list_all plain a \<Longrightarrow> scan_points (a @ b) i e p = scan_points b (i + int (length a)) e p"
  by (induction a arbitrary: i) (auto simp: plain_def algebra_simps)

lemma parse_int_plain: "parse_int x b = Inr i \<Longrightarrow> list_all plain x"
proof -
  assume x: "parse_int x b = Inr i"
  obtain neg ds where sd: "strip_sign x = (neg, ds)" by force
  with x obtain n where "parse_digits (2 ^ b - 1) 0 ds = Inr n"
    by (auto simp: parse_int_def split: if_splits sum.splits)
  then have "list_all plain ds" by (simp add: parse_digits_Inr plain_digits)
  with sd show ?thesis by (cases x) (auto simp: plain_def split: if_splits)
qed

lemma parse_mantissa_digits:
  assumes "sg \<in> {[], ''-'', ''+''}" "list_all is_digit ds" "ds \<noteq> []"
  shows "parse_mantissa (sg @ ds) = Inr (with_sign (sg = ''-'') (digits_val 0 ds))"
proof -
  obtain c cs where ds: "ds = c # cs" using assms(3) by (cases ds) auto
  with assms have "is_digit c" by simp
  then have "c \<noteq> CHR ''-''" "c \<noteq> CHR ''+''" by auto
  with assms ds have "strip_sign (sg @ ds) = (sg = ''-'', ds)" by auto
  then have "big_set_string (sg @ ds) = Some (with_sign (sg = ''-'') (digits_val 0 ds))"
    using assms by (simp add: big_set_string_Some)
  then show ?thesis by (simp add: mantissa_shortcut)
qed

definition mantissa_text :: "numeral \<Rightarrow> string" where
  "mantissa_text n = n_sign n @ n_int n @ (case n_frac n of None \<Rightarrow> [] | Some f \<Rightarrow> CHR ''.'' # f)"

definition point_index :: "numeral \<Rightarrow> int" where
  "point_index n = (case n_frac n of None \<Rightarrow> - 1 | Some f \<Rightarrow> int (length (n_sign n @ n_int n)))"

lemma sign_plain: "sg \<in> {[], ''-'', ''+''} \<Longrightarrow> list_all plain sg"
  by (auto simp: plain_def)

lemma scan_mantissa:
  assumes "numeral_ok n"
  shows "scan_points (mantissa_text n @ t) 0 (- 1) (- 1) =
     scan_points t (int (length (mantissa_text n))) (- 1) (point_index n)"
proof -
  have pl: "list_all plain (n_sign n @ n_int n)" "list_all plain (frac_digits n)"
    using assms sign_plain plain_digits by (auto simp: numeral_ok_def)
  show ?thesis
  proof (cases "n_frac n")
    case None
    with pl show ?thesis
      using scan_points_plain [of "n_sign n @ n_int n" t 0] by (simp add: mantissa_text_def point_index_def)
  next
    case (Some f)
    with pl(2) have f: "list_all plain f" by (simp add: frac_digits_def)
    have "scan_points (mantissa_text n @ t) 0 (- 1) (- 1)
        = scan_points (CHR ''.'' # f @ t) (int (length (n_sign n @ n_int n))) (- 1) (- 1)"
      using Some scan_points_plain [OF pl(1), of "CHR ''.'' # f @ t" 0]
      by (simp add: mantissa_text_def)
    with Some show ?thesis
      using scan_points_plain [OF f] by (simp add: mantissa_text_def point_index_def algebra_simps)
  qed
qed

lemma split_point_mantissa:
  "split_point (mantissa_text n) (point_index n) x =
     Inr (n_sign n @ n_int n @ frac_digits n, x - int (length (frac_digits n)))"
proof (cases "n_frac n")
  case None
  then show ?thesis by (simp add: split_point_def mantissa_text_def point_index_def frac_digits_def)
next
  case (Some f)
  define a where "a = n_sign n @ n_int n"
  have m: "mantissa_text n = a @ CHR ''.'' # f" "point_index n = int (length a)" "frac_digits n = f"
    using Some by (simp_all add: mantissa_text_def point_index_def frac_digits_def a_def)
  have "go_slice (a @ CHR ''.'' # f) 0 (int (length a)) = Some a"
    "go_slice (a @ CHR ''.'' # f) (int (length a) + 1) (int (length (a @ CHR ''.'' # f))) = Some f"
    by (simp_all add: go_slice_def nat_add_distrib)
  then show ?thesis by (auto simp: split_point_def m a_def)
qed

lemma split_exponent_text:
  assumes "parse_int x 32 = Inr i"
  shows "split_exponent (m @ c # x) (int (length m)) = Inr (m, i)"
proof -
  have "go_slice (m @ c # x) 0 (int (length m)) = Some m"
    "go_slice (m @ c # x) (int (length m) + 1) (int (length (m @ c # x))) = Some x"
    by (simp_all add: go_slice_def nat_add_distrib)
  with assms show ?thesis by (simp add: split_exponent_def)
qed

lemma parse_numeral:
  assumes "numeral_ok n"
  shows "NewFromString (numeral_text n) =
     Inr \<lparr>d_value = Some (numeral_coeff n), d_exp = numeral_exp n\<rparr>"
proof -
  have bounds: "- MaxAbsExponent \<le> numeral_exp n" "numeral_exp n \<le> MaxAbsExponent"
    using assms by (auto simp: numeral_ok_def)
  have coeff: "parse_mantissa (n_sign n @ n_int n @ frac_digits n) = Inr (numeral_coeff n)"
    using assms parse_mantissa_digits [of "n_sign n" "n_int n @ frac_digits n"]
    by (simp add: numeral_ok_def numeral_coeff_def)
  have nt: "numeral_text n = mantissa_text n @ (case n_expo n of None \<Rightarrow> [] | Some (c, x) \<Rightarrow> c # x)"
    by (simp add: numeral_text_def mantissa_text_def)
  show ?thesis
  proof (cases "n_expo n")
    case None
    with nt have t: "numeral_text n = mantissa_text n" by simp
    have "scan_points (mantissa_text n) 0 (- 1) (- 1) = Inr (- 1, point_index n)"
      using scan_mantissa [OF assms, of "[]"] by simp
    with bounds coeff None show ?thesis
      by (simp add: NewFromString_def t split_exponent_def split_point_mantissa numeral_exp_def
          MinInt32_def MaxInt32_def MaxAbsExponent_def)
  next
    case (Some cx)
    obtain c x where cx: "cx = (c, x)" by force
    with assms Some obtain i where c: "c = CHR ''e'' \<or> c = CHR ''E''" and x: "parse_int x 32 = Inr i"
      by (cases "parse_int x 32") (auto simp: numeral_ok_def)
    have t: "numeral_text n = mantissa_text n @ c # x" using nt Some cx by simp
    have "scan_points (mantissa_text n @ c # x) 0 (- 1) (- 1)
        = Inr (int (length (mantissa_text n)), point_index n)"
      using scan_mantissa [OF assms, of "c # x"] scan_points_plain [OF parse_int_plain [OF x], of "[]"] c
      by auto
    with bounds coeff Some cx x show ?thesis
      by (simp add: NewFromString_def t split_exponent_text split_point_mantissa numeral_exp_def
          MinInt32_def MaxInt32_def MaxAbsExponent_def)
  qed
qed

lemma split_lengths:
  "split_exponent s e = Inr (v, ex) \<Longrightarrow> length v \<le> length s"
  "split_point v p ex = Inr (t, ex') \<Longrightarrow> length t \<le> length v"
  by (auto simp: split_exponent_def split_point_def go_slice_def split: if_splits option.splits sum.splits num_error.splits)

lemma mantissa_length:
  assumes "parse_mantissa s = Inr v"
  shows "length (int_text \<bar>v\<bar>) \<le> length s"
proof -
  obtain neg ds where sd: "strip_sign s = (neg, ds)" by force
  with assms have v: "ds \<noteq> []" "list_all is_digit ds" "v = with_sign neg (digits_val 0 ds)"
    by (auto simp: mantissa_shortcut big_set_string_def split: if_splits)
  then have "\<bar>v\<bar> < 10 ^ length ds" using digits_val_bounds [of ds] by (simp add: with_sign_def)
  with v(1) have "length (nat_text \<bar>v\<bar>) \<le> length ds" by (simp add: length_nat_text_iff)
  with length_strip_sign [of s] sd show ?thesis by (simp add: int_text_nonneg)
qed

text \<open>The parser's decimals are within the machine bounds, for any text of less than two gigabytes.\<close>

lemma new_from_string_int32:
  assumes "NewFromString s = Inr d" "int (length s) \<le> MaxInt32 - MaxAbsExponent"
  shows "dec_int32_ok d"
proof -
  from assms(1) obtain eI pI v ex0 t ex n where
    p: "split_exponent s eI = Inr (v, ex0)" "split_point v pI ex0 = Inr (t, ex)"
      "parse_mantissa t = Inr n" "d = \<lparr>d_value = Some n, d_exp = ex\<rparr>" "- MaxAbsExponent \<le> ex" "ex \<le> MaxAbsExponent"
    by (auto simp: NewFromString_def split: sum.splits if_splits)
  from mantissa_length [OF p(3)] split_lengths(1) [OF p(1)] split_lengths(2) [OF p(2)] p(4-6) assms(2)
  show ?thesis
    by (simp add: dec_int32_ok_def getValue_def MaxAbsExponent_def MinInt32_def MaxInt32_def)
qed

lemma new_from_string_wf: "NewFromString s = Inr d \<Longrightarrow> dec_wf d"
  by (auto simp: NewFromString_def dec_wf_def split: sum.splits prod.splits if_splits)

section \<open>Parsing what was printed\<close>

lemma fraction_parts_spec:
  assumes "e < 0" "0 \<le> n" "fraction_parts (nat_text n) e = (ip, fp)"
  shows "list_all is_digit ip" "list_all is_digit fp" "ip \<noteq> []" "int (length fp) = - e"
    "digits_val 0 (ip @ fp) = n"
proof -
  have d: "list_all is_digit (nat_text n)" using assms(2) by (rule digits_nat_text)
  then have td: "list_all is_digit (take k (nat_text n))" "list_all is_digit (drop k (nat_text n))" for k
    by (auto simp: list_all_iff dest: in_set_takeD in_set_dropD)
  have rep: "list_all is_digit (replicate k (CHR ''0''))" for k by (simp add: list_all_iff)
  have zs: "digits_val 0 (''0'' @ replicate k (CHR ''0'') @ t) = digits_val 0 t" for k t
    by (simp add: digits_val_append)
  show "list_all is_digit ip" "list_all is_digit fp" "ip \<noteq> []" "int (length fp) = - e"
    "digits_val 0 (ip @ fp) = n"
    using assms d td rep zs [of _ "nat_text n"] digits_val_nat_text [OF assms(2)]
    by (auto simp: fraction_parts_def split: if_splits)
qed

text \<open>The numeral that is printed.\<close>

definition printed :: "decimal \<Rightarrow> numeral" where
  "printed d =
     (let v = getValue d; sg = (if v < 0 then ''-'' else []) in
      if 0 \<le> d_exp d then Numeral sg (nat_text \<bar>v * 10 ^ nat (d_exp d)\<bar>) None None
      else (case fraction_parts (nat_text \<bar>v\<bar>) (d_exp d) of (ip, fp) \<Rightarrow>
          Numeral sg ip (if trim_zeros fp = [] then None else Some (trim_zeros fp)) None))"

lemma decString_printed: "decString d = numeral_text (printed d)"
proof (cases "0 \<le> d_exp d")
  case True
  have "getValue d * 10 ^ nat (d_exp d) < 0 \<longleftrightarrow> getValue d < 0"
    by (simp add: mult_less_0_iff)
  with True show ?thesis
    by (simp add: decString_getValue [of d] decString_nonneg printed_def numeral_text_def int_text_def
        Let_def abs_if)
next
  case False
  then show ?thesis
    by (simp add: decString_getValue [of d] decString_neg printed_def numeral_text_def Let_def
        split: prod.split)
qed

lemma printed_ok:
  assumes "dec_wf d"
  shows "numeral_ok (printed d)"
    and "dec_rat \<lparr>d_value = Some (numeral_coeff (printed d)), d_exp = numeral_exp (printed d)\<rparr> = dec_rat d"
proof -
  let ?v = "getValue d" and ?e = "d_exp d"
  have "numeral_ok (printed d) \<and>
    dec_rat \<lparr>d_value = Some (numeral_coeff (printed d)), d_exp = numeral_exp (printed d)\<rparr> = dec_rat d"
  proof (cases "0 \<le> ?e")
    case True
    let ?i = "?v * 10 ^ nat ?e"
    have p: "printed d = Numeral (if ?v < 0 then ''-'' else []) (nat_text \<bar>?i\<bar>) None None"
      using True by (simp add: printed_def)
    have "numeral_ok (printed d)"
      by (simp add: p numeral_ok_def frac_digits_def txt_simps numeral_exp_def MaxAbsExponent_def)
    moreover have "numeral_coeff (printed d) = ?i" "numeral_exp (printed d) = 0"
      by (auto simp: p numeral_coeff_def frac_digits_def txt_simps with_sign_def numeral_exp_def
          abs_mult)
    ultimately show ?thesis
      using True by (simp add: dec_rat_def powi_nat)
  next
    case False
    then have e: "?e < 0" by simp
    obtain ip fp where fp: "fraction_parts (nat_text \<bar>?v\<bar>) ?e = (ip, fp)" by force
    note spec = fraction_parts_spec [OF e _ fp, OF abs_ge_zero]
    let ?f = "trim_zeros fp"
    have p: "printed d = Numeral (if ?v < 0 then ''-'' else []) ip (if ?f = [] then None else Some ?f) None"
      using False fp by (simp add: printed_def)
    obtain t where t: "fp = ?f @ replicate t (CHR ''0'')" using trim_zeros_split by blast
    then have fr: "frac_digits (printed d) = ?f" "int (length ?f) + int t = - ?e"
      using spec(4) by (auto simp: p frac_digits_def) (metis length_append length_replicate of_nat_add)
    have dig: "list_all is_digit ?f"
      using spec(2) t by (metis list_all_append)
    have val: "\<bar>?v\<bar> = digits_val 0 (ip @ ?f) * 10 ^ t"
      using spec(5) t digits_val_append_0 [of "ip @ ?f" "replicate t (CHR ''0'')"] by simp
    have ex: "numeral_exp (printed d) = - int (length ?f)"
      using fr by (simp add: numeral_exp_def p)
    have "numeral_ok (printed d)"
      using spec dig fr ex assms by (simp add: numeral_ok_def dec_wf_def MaxAbsExponent_def p)
    moreover have "?v = numeral_coeff (printed d) * 10 ^ t"
      using val fr(1) by (cases "?v < 0") (auto simp: numeral_coeff_def p with_sign_def)
    moreover have "(10::rat) ^ t * 10 powi ?e = 10 powi (- int (length ?f))"
      using fr(2) powi_shift [of ?e "- int (length ?f)"] by (simp add: nat_add_distrib)
        (metis add.commute add_diff_cancel_left' diff_minus_eq_add nat_int powi_shift)
    ultimately show ?thesis
      by (simp add: dec_rat_def ex mult.assoc)
  qed
  then show "numeral_ok (printed d)"
    "dec_rat \<lparr>d_value = Some (numeral_coeff (printed d)), d_exp = numeral_exp (printed d)\<rparr> = dec_rat d"
    by auto
qed

lemma numeral_text_hd: "numeral_ok n \<Longrightarrow> hd (numeral_text n) \<noteq> CHR 0x22"
  by (cases "n_int n"; cases "n_frac n")
    (auto simp: numeral_ok_def numeral_text_def frac_digits_def)

lemma print_parse:
  assumes "dec_wf d"
  shows "\<exists>d'. NewFromString (decString d) = Inr d' \<and> dec_Scan (dec_Value d) = Inr d'
      \<and> dec_wf d' \<and> dec_rat d' = dec_rat d"
proof -
  let ?d = "\<lparr>d_value = Some (numeral_coeff (printed d)), d_exp = numeral_exp (printed d)\<rparr>"
  have parse: "NewFromString (decString d) = Inr ?d"
    using printed_ok(1) [OF assms] parse_numeral by (simp add: decString_printed)
  have "hd (decString d) \<noteq> CHR 0x22"
    using numeral_text_hd [OF printed_ok(1) [OF assms]] by (simp add: decString_printed)
  then have "dec_Scan (dec_Value d) = NewFromString (decString d)"
    by (simp add: dec_Scan_def dec_Value_def unquoteIfQuoted_def)
  with parse printed_ok(2) [OF assms] new_from_string_wf [OF parse] show ?thesis by auto
qed

lemma decString_iff:
  assumes "dec_wf a" "dec_wf b"
  shows "decString a = decString b \<longleftrightarrow> dec_rat a = dec_rat b"
proof
  assume "decString a = decString b"
  with print_parse [OF assms(1)] print_parse [OF assms(2)]
  show "dec_rat a = dec_rat b" by auto
next
  assume "dec_rat a = dec_rat b"
  then show "decString a = decString b" by (rule dec_rat_eq_decString)
qed

section \<open>Properties\<close>

text \<open>
  C28: \<open>FitsNumeric(p, s)\<close>, which works on the text of the coefficient without rendering the
  number, answers exactly whether the number the decimal denotes can be stored in a column
  \<open>NUMERIC(p, s)\<close> without loss: it is a multiple of ten to the minus \<open>s\<close> and its absolute
  value is below ten to the \<open>p - s\<close>.
\<close>
theorem fits_numeric_iff:
  assumes "dec_int32_ok d" "0 < p" "0 \<le> s" "s \<le> p" "p \<le> MaxInt32"
  shows "FitsNumeric d p s \<longleftrightarrow>
     (\<exists>z::int. dec_rat d * 10 ^ nat s = of_int z) \<and> \<bar>dec_rat d\<bar> < 10 ^ nat (p - s)"
  using assms by (rule fits_numeric_exact)

theorem fits_numeric_iff_witness:
  "FitsNumeric \<lparr>d_value = Some 12550, d_exp = - 2\<rparr> 36 18
   \<and> \<not> FitsNumeric \<lparr>d_value = Some 1, d_exp = 18\<rparr> 36 18"
proof -
  let ?a = "\<lparr>d_value = Some 12550, d_exp = - 2\<rparr>" and ?b = "\<lparr>d_value = Some 1, d_exp = 18\<rparr>"
  have ok: "dec_int32_ok ?a" "dec_int32_ok ?b" by code_simp+
  have p: "(0::int) < 36" "(0::int) \<le> 18" "(18::int) \<le> 36" "36 \<le> MaxInt32"
    by (simp_all add: MaxInt32_def)
  have "dec_rat ?a * 10 ^ nat 18 = of_int 125500000000000000000" "\<bar>dec_rat ?a\<bar> < 10 ^ nat (36 - 18)"
    "\<not> \<bar>dec_rat ?b\<bar> < 10 ^ nat (36 - 18)"
    by (simp_all add: dec_rat_def power_int_def power_divide)
  then show ?thesis
    using fits_numeric_iff [OF ok(1) p] fits_numeric_iff [OF ok(2) p] by blast
qed

text \<open>
  Every numeral (sign, integer digits, point and fraction, exponent; each part optional
  as usual) whose scaled exponent is within the limit is accepted, and the decimal returned
  carries exactly the digits, the sign and the exponent written.
\<close>
lemma new_from_string_numeral:
  assumes "numeral_ok n"
  shows "NewFromString (numeral_text n) =
     Inr \<lparr>d_value = Some (numeral_coeff n), d_exp = numeral_exp n\<rparr>"
  using assms by (rule parse_numeral)

theorem new_from_string_numeral_witness:
  "NewFromString ''-12.50E+3'' = Inr \<lparr>d_value = Some (- 1250), d_exp = 1\<rparr>"
proof -
  have "numeral_ok (Numeral ''-'' ''12'' (Some ''50'') (Some (CHR ''E'', ''+3'')))"
    by code_simp
  from new_from_string_numeral [OF this] show ?thesis
    by (simp add: numeral_text_def numeral_coeff_def numeral_exp_def frac_digits_def with_sign_def
        digit_val_def parse_int_def is_digit_def)
qed

text \<open>
  Printing is canonical: two decimals print the same text exactly when they denote the
  same number (\<open>1.5\<close>, \<open>1.50\<close> and \<open>15e-1\<close> all print \<open>1.5\<close>).
\<close>
lemma print_canonical:
  assumes "dec_wf a" "dec_wf b"
  shows "decString a = decString b \<longleftrightarrow> dec_rat a = dec_rat b"
  using assms by (rule decString_iff)

theorem print_canonical_witness:
  "decString \<lparr>d_value = Some 150, d_exp = - 2\<rparr> = decString \<lparr>d_value = Some 15, d_exp = - 1\<rparr>"
proof -
  let ?a = "\<lparr>d_value = Some 150, d_exp = - 2\<rparr>" and ?b = "\<lparr>d_value = Some 15, d_exp = - 1\<rparr>"
  have "dec_wf ?a" "dec_wf ?b" by (simp_all add: dec_wf_def MaxAbsExponent_def)
  from print_canonical [OF this] show ?thesis
    by (simp add: dec_rat_def power_int_def power_divide)
qed

end
