(* ===== verification/Go_Text.thy ===== *)
theory Go_Text
  imports Prelude
begin

text \<open>
  What the services use of Go's \<open>strings\<close> and \<open>unicode/utf8\<close> on the bytes of a string:
  \<open>strings.TrimSpace\<close>, \<open>strings.ToLower\<close> (the table of non-ASCII letters is a parameter) and
  \<open>utf8.RuneCountInString\<close>; and the valid UTF-8 texts, which are those PostgreSQL accepts.
\<close>

section \<open>White space\<close>

text \<open>The encodings of the runes with \<open>unicode.IsSpace\<close>.\<close>

definition space_runes :: "string list" where
  "space_runes =
     [[CHR 0x20], [CHR 0x09], [CHR 0x0A], [CHR 0x0B], [CHR 0x0C], [CHR 0x0D],
      [CHR 0xC2, CHR 0x85], [CHR 0xC2, CHR 0xA0], [CHR 0xE1, CHR 0x9A, CHR 0x80],
      [CHR 0xE2, CHR 0x80, CHR 0x80], [CHR 0xE2, CHR 0x80, CHR 0x81], [CHR 0xE2, CHR 0x80, CHR 0x82],
      [CHR 0xE2, CHR 0x80, CHR 0x83], [CHR 0xE2, CHR 0x80, CHR 0x84], [CHR 0xE2, CHR 0x80, CHR 0x85],
      [CHR 0xE2, CHR 0x80, CHR 0x86], [CHR 0xE2, CHR 0x80, CHR 0x87], [CHR 0xE2, CHR 0x80, CHR 0x88],
      [CHR 0xE2, CHR 0x80, CHR 0x89], [CHR 0xE2, CHR 0x80, CHR 0x8A], [CHR 0xE2, CHR 0x80, CHR 0xA8],
      [CHR 0xE2, CHR 0x80, CHR 0xA9], [CHR 0xE2, CHR 0x80, CHR 0xAF], [CHR 0xE2, CHR 0x81, CHR 0x9F],
      [CHR 0xE3, CHR 0x80, CHR 0x80]]"

fun prefix_rest :: "string \<Rightarrow> string \<Rightarrow> string option" where
  "prefix_rest [] s = Some s"
| "prefix_rest (p # ps) [] = None"
| "prefix_rest (p # ps) (c # cs) = (if p = c then prefix_rest ps cs else None)"

fun first_rest :: "string list \<Rightarrow> string \<Rightarrow> string option" where
  "first_rest [] s = None"
| "first_rest (p # ps) s = (case prefix_rest p s of Some r \<Rightarrow> Some r | None \<Rightarrow> first_rest ps s)"

lemma prefix_rest_length: "prefix_rest p s = Some r \<Longrightarrow> length s = length p + length r"
  by (induction p s rule: prefix_rest.induct) (auto split: if_splits)

lemma first_rest_length:
  "first_rest ps s = Some r \<Longrightarrow> [] \<notin> set ps \<Longrightarrow> length r < length s"
  by (induction ps) (auto split: option.splits dest: prefix_rest_length)

function trim_with :: "string list \<Rightarrow> string \<Rightarrow> string" where
  "trim_with ps s =
     (if [] \<in> set ps then s else (case first_rest ps s of None \<Rightarrow> s | Some r \<Rightarrow> trim_with ps r))"
  by pat_completeness auto
termination
  by (relation "measure (\<lambda>(ps, s). length s)") (auto dest: first_rest_length)

declare trim_with.simps [simp del]

definition TrimSpace :: "string \<Rightarrow> string" where
  "TrimSpace s = rev (trim_with (map rev space_runes) (rev (trim_with space_runes s)))"

section \<open>Letters\<close>

definition ascii :: "char \<Rightarrow> bool" where
  "ascii c \<longleftrightarrow> (of_char c :: int) < 128"

definition lower_char :: "char \<Rightarrow> char" where
  "lower_char c = (let n = (of_char c :: int) in if 65 \<le> n \<and> n \<le> 90 then char_of (n + 32) else c)"

text \<open>\<open>unicode_lower\<close> stands for the mapping of strings with runes outside ASCII.\<close>

definition ToLower :: "(string \<Rightarrow> string) \<Rightarrow> string \<Rightarrow> string" where
  "ToLower unicode_lower s = (if list_all ascii s then map lower_char s else unicode_lower s)"

section \<open>Runes\<close>

definition byte_in :: "int \<Rightarrow> int \<Rightarrow> char \<Rightarrow> bool" where
  "byte_in lo hi c \<longleftrightarrow> lo \<le> of_char c \<and> of_char c \<le> hi"

text \<open>The bytes of the first rune: an invalid encoding is one byte long.\<close>

fun rune_len :: "string \<Rightarrow> nat" where
  "rune_len (a # b # c # d # _) =
     (if byte_in 0xC2 0xDF a \<and> byte_in 0x80 0xBF b then 2
      else if (byte_in 0xE0 0xE0 a \<and> byte_in 0xA0 0xBF b
          \<or> (byte_in 0xE1 0xEC a \<or> byte_in 0xEE 0xEF a) \<and> byte_in 0x80 0xBF b
          \<or> byte_in 0xED 0xED a \<and> byte_in 0x80 0x9F b) \<and> byte_in 0x80 0xBF c then 3
      else if (byte_in 0xF0 0xF0 a \<and> byte_in 0x90 0xBF b \<or> byte_in 0xF1 0xF3 a \<and> byte_in 0x80 0xBF b
          \<or> byte_in 0xF4 0xF4 a \<and> byte_in 0x80 0x8F b) \<and> byte_in 0x80 0xBF c \<and> byte_in 0x80 0xBF d then 4
      else 1)"
| "rune_len [a, b, c] =
     (if byte_in 0xC2 0xDF a \<and> byte_in 0x80 0xBF b then 2
      else if (byte_in 0xE0 0xE0 a \<and> byte_in 0xA0 0xBF b
          \<or> (byte_in 0xE1 0xEC a \<or> byte_in 0xEE 0xEF a) \<and> byte_in 0x80 0xBF b
          \<or> byte_in 0xED 0xED a \<and> byte_in 0x80 0x9F b) \<and> byte_in 0x80 0xBF c then 3
      else 1)"
| "rune_len [a, b] = (if byte_in 0xC2 0xDF a \<and> byte_in 0x80 0xBF b then 2 else 1)"
| "rune_len _ = 1"

lemma rune_len_pos: "0 < rune_len s"
  by (induction s rule: rune_len.induct) auto

function RuneCount :: "string \<Rightarrow> int" where
  "RuneCount s = (if s = [] then 0 else 1 + RuneCount (drop (rune_len s) s))"
  by pat_completeness auto
termination
  by (relation "measure length") (auto simp: rune_len_pos)

declare RuneCount.simps [simp del]

lemma rune_len_ascii: "ascii c \<Longrightarrow> rune_len (c # s) = 1"
  by (cases "c # s" rule: rune_len.cases) (auto simp: ascii_def byte_in_def)

lemma RuneCount_ascii: "list_all ascii s \<Longrightarrow> RuneCount s = int (length s)"
proof (induction s)
  case Nil
  then show ?case by (simp add: RuneCount.simps)
next
  case (Cons c s)
  then show ?case by (subst RuneCount.simps) (simp add: rune_len_ascii)
qed

lemma RuneCount_range: "0 \<le> RuneCount s \<and> RuneCount s \<le> int (length s)"
proof (induction s rule: RuneCount.induct)
  case (1 s)
  show ?case
  proof (cases "s = []")
    case False
    then have "0 < length s" by simp
    with rune_len_pos [of s] have "int (length s - rune_len s) + 1 \<le> int (length s)" by arith
    with 1 [OF False] False show ?thesis by (subst (1 2) RuneCount.simps) simp
  qed (simp add: RuneCount.simps)
qed

text \<open>A rune of one byte that is not ASCII is an invalid encoding.\<close>

function valid_utf8 :: "string \<Rightarrow> bool" where
  "valid_utf8 s =
     (if s = [] then True
      else if rune_len s = 1 \<and> \<not> ascii (hd s) then False
      else valid_utf8 (drop (rune_len s) s))"
  by pat_completeness auto
termination
  by (relation "measure length") (auto simp: rune_len_pos)

declare valid_utf8.simps [simp del]

lemma valid_utf8_ascii: "list_all ascii s \<Longrightarrow> valid_utf8 s"
proof (induction s)
  case (Cons c s)
  then show ?case by (subst valid_utf8.simps) (simp add: rune_len_ascii)
qed (simp add: valid_utf8.simps)

end
