(* ===== verification/Schema.thy ===== *)
theory Schema
  imports Domain Decimal_Props Go_Text
begin

text \<open>
  The database of the migrations (\<open>migrations/*.sql\<close>): the four tables as lists of rows, the
  column type \<open>NUMERIC(36, 18)\<close>, and the constraints a statement is checked against. A
  statement that breaks one fails with its SQLSTATE: \<open>22003\<close> numeric overflow, \<open>23505\<close>
  unique, \<open>23503\<close> foreign key, \<open>23514\<close> check, \<open>22001\<close> text too long, \<open>22021\<close> bytes no
  text may hold.
\<close>

section \<open>Rows and tables\<close>

record account_row =
  ar_id :: uuid
  ar_name :: string
  ar_email :: string
  ar_password_hash :: string
  ar_role :: string
  ar_balance :: rat

record tx_row =
  tr_id :: uuid
  tr_amount :: rat
  tr_sender :: uuid
  tr_receiver :: uuid
  tr_status :: string
  tr_created_at :: time

record token_row =
  rt_jti :: string
  rt_user :: uuid
  rt_family :: uuid
  rt_revoked :: bool
  rt_expires_at :: time
  rt_created_at :: time

record idem_row =
  ir_sender :: uuid
  ir_key :: string
  ir_fingerprint :: string
  ir_status :: string
  ir_tx :: "uuid option"
  ir_created_at :: time
  ir_updated_at :: time

record database =
  accounts :: "account_row list"
  transactions :: "tx_row list"
  tokens :: "token_row list"
  idempotency :: "idem_row list"

section \<open>NUMERIC(36, 18)\<close>

text \<open>
  Assigning a number to the column rounds it to 18 fractional digits, half away from zero,
  and fails when 18 integer digits do not hold the result.
\<close>

definition round_half_away :: "rat \<Rightarrow> int" where
  "round_half_away x = (if x < 0 then - \<lfloor>- x + 1 / 2\<rfloor> else \<lfloor>x + 1 / 2\<rfloor>)"

definition money_unit :: rat where
  "money_unit = 10 ^ 18"

definition numeric_36_18 :: "rat \<Rightarrow> (string, rat) result" where
  "numeric_36_18 x =
     (let r = round_half_away (x * money_unit)
      in if \<bar>r\<bar> \<ge> 10 ^ 36 then Inl ''22003'' else Inr (of_int r / money_unit))"

text \<open>The numbers the column holds exactly.\<close>

definition storable :: "rat \<Rightarrow> bool" where
  "storable x \<longleftrightarrow> numeric_36_18 x = Inr x"

lemma round_half_away_int [simp]: "round_half_away (of_int z) = z"
proof -
  have "\<lfloor>(of_int k :: rat) + 1 / 2\<rfloor> = k" for k by (simp add: floor_eq_iff)
  then show ?thesis by (simp add: round_half_away_def flip: of_int_minus)
qed

lemma money_unit_pos [simp]: "0 < money_unit" "money_unit \<noteq> 0"
  "0 \<le> money_unit" "\<bar>money_unit\<bar> = money_unit"
  by (simp_all add: money_unit_def)

lemma storable_iff:
  "storable x \<longleftrightarrow> (\<exists>z::int. x * money_unit = of_int z) \<and> \<bar>x\<bar> < 10 ^ 18"
proof
  assume "storable x"
  then have r: "\<bar>round_half_away (x * money_unit)\<bar> < 10 ^ 36"
    "x = of_int (round_half_away (x * money_unit)) / money_unit"
    by (auto simp: storable_def numeric_36_18_def Let_def split: if_splits)
  define z where "z = round_half_away (x * money_unit)"
  have x: "x = of_int z / money_unit" and z: "\<bar>z\<bar> < 10 ^ 36" using r by (simp_all add: z_def)
  have "\<bar>x\<bar> = of_int \<bar>z\<bar> / money_unit" using x by (simp add: abs_mult)
  also have "\<dots> < of_int (10 ^ 36) / money_unit"
    using z by (intro divide_strict_right_mono) (simp_all only: of_int_less_iff money_unit_pos)
  also have "\<dots> = 10 ^ 18" by (simp add: money_unit_def)
  finally have "\<bar>x\<bar> < 10 ^ 18" .
  moreover have "x * money_unit = of_int z" using x by simp
  ultimately show "(\<exists>z::int. x * money_unit = of_int z) \<and> \<bar>x\<bar> < 10 ^ 18" by blast
next
  assume "(\<exists>z::int. x * money_unit = of_int z) \<and> \<bar>x\<bar> < 10 ^ 18"
  then obtain z :: int where z: "x * money_unit = of_int z" and b: "\<bar>x\<bar> < 10 ^ 18" by blast
  have "of_int \<bar>z\<bar> = \<bar>x\<bar> * money_unit" using z by (simp add: abs_mult flip: z)
  also have "\<dots> < 10 ^ 18 * money_unit" using b by simp
  also have "\<dots> = of_int (10 ^ 36)" by (simp add: money_unit_def)
  finally have "\<bar>z\<bar> < 10 ^ 36" by (simp only: of_int_less_iff)
  moreover have "x = of_int z / money_unit" using z by (simp add: field_simps)
  ultimately show "storable x" by (simp add: storable_def numeric_36_18_def z)
qed

lemma numeric_storable: "numeric_36_18 x = Inr y \<Longrightarrow> storable y"
  by (auto simp: storable_def numeric_36_18_def Let_def split: if_splits)

lemma storable_add_integral:
  "storable a \<Longrightarrow> storable b \<Longrightarrow> \<bar>a + b\<bar> < 10 ^ 18 \<Longrightarrow> storable (a + b)"
  by (auto simp: storable_iff distrib_right) (metis of_int_add)

lemma storable_diff:
  assumes "storable a" "storable b" "0 \<le> b" "b \<le> a"
  shows "storable (a - b)"
proof -
  obtain z w :: int where "a * money_unit = of_int z" "b * money_unit = of_int w"
    using assms(1,2) by (auto simp: storable_iff)
  then have "(a - b) * money_unit = of_int (z - w)" by (simp add: left_diff_distrib)
  moreover have "\<bar>a - b\<bar> < 10 ^ 18" using assms by (simp add: storable_iff)
  ultimately show ?thesis unfolding storable_iff by blast
qed

lemma numeric_add_storable:
  assumes "storable a" "storable b" "0 \<le> a" "0 \<le> b"
  shows "numeric_36_18 (a + b) = (if a + b < 10 ^ 18 then Inr (a + b) else Inl ''22003'')"
proof (cases "a + b < 10 ^ 18")
  case True
  with assms have "storable (a + b)" by (intro storable_add_integral) auto
  with True show ?thesis by (simp add: storable_def)
next
  case False
  obtain z w :: int where zw: "a * money_unit = of_int z" "b * money_unit = of_int w"
    using assms(1,2) by (auto simp: storable_iff)
  then have s: "(a + b) * money_unit = of_int (z + w)" by (simp add: distrib_right)
  have "of_int (10 ^ 36) = 10 ^ 18 * money_unit" by (simp add: money_unit_def)
  also have "\<dots> \<le> (a + b) * money_unit" using False by (intro mult_right_mono) simp_all
  finally have "10 ^ 36 \<le> z + w" unfolding s by (simp only: of_int_le_iff)
  moreover have "round_half_away ((a + b) * money_unit) = z + w"
    unfolding s by (rule round_half_away_int)
  ultimately show ?thesis using False by (simp only: numeric_36_18_def Let_def) simp
qed

text \<open>
  What \<open>FitsNumeric\<close> checks before a transfer is exactly that the column holds the amount.
\<close>

lemma fits_numeric_storable:
  "dec_int32_ok d \<Longrightarrow> FitsNumeric d 36 18 \<longleftrightarrow> storable (dec_rat d)"
  using fits_numeric_exact [of d 36 18] by (simp add: storable_iff money_unit_def MaxInt32_def)

section \<open>TEXT\<close>

text \<open>
  A text argument is valid UTF-8 without the zero byte, or the statement fails with \<open>22021\<close>. Only
  the insert of an account can be refused so: the keys, statuses, fingerprints, token ids and the
  addresses looked up are checked or made by the program and are ASCII.
\<close>

definition pg_text :: "string \<Rightarrow> bool" where
  "pg_text s \<longleftrightarrow> CHR 0x00 \<notin> set s \<and> valid_utf8 s"

lemma pg_text_ascii:
  assumes "list_all (\<lambda>c. ascii c \<and> c \<noteq> CHR 0x00) s"
  shows "pg_text s"
proof -
  have "list_all ascii s" "CHR 0x00 \<notin> set s" using assms unfolding list_all_iff by blast+
  then show ?thesis unfolding pg_text_def by (intro conjI valid_utf8_ascii)
qed

section \<open>TIMESTAMPTZ\<close>

text \<open>The driver sends a time with the microseconds the column holds; the rest is cut off.\<close>

definition pg_time :: "time \<Rightarrow> time" where
  "pg_time t = t div 1000 * 1000"

section \<open>Statements over a table\<close>

text \<open>
  \<open>UPDATE t SET ... WHERE P\<close>: every row with \<open>P\<close> is replaced by \<open>f\<close> of it; the statement
  fails as a whole when one replacement fails; the number of rows is returned.
\<close>

fun update_rows ::
  "('r \<Rightarrow> bool) \<Rightarrow> ('r \<Rightarrow> (string, 'r) result) \<Rightarrow> 'r list \<Rightarrow> (string, 'r list \<times> nat) result" where
  "update_rows P f [] = Inr ([], 0)"
| "update_rows P f (r # rs) =
     (if P r then
        (case f r of Inl e \<Rightarrow> Inl e
         | Inr r' \<Rightarrow> (case update_rows P f rs of Inl e \<Rightarrow> Inl e
             | Inr (rs', n) \<Rightarrow> Inr (r' # rs', n + 1)))
      else (case update_rows P f rs of Inl e \<Rightarrow> Inl e | Inr (rs', n) \<Rightarrow> Inr (r # rs', n)))"

lemma update_rows_total:
  "update_rows P (\<lambda>r. Inr (g r)) t = Inr (map (\<lambda>r. if P r then g r else r) t, length (filter P t))"
  by (induction t) auto

lemma update_rows_none:
  "\<forall>r\<in>set t. \<not> P r \<Longrightarrow> update_rows P f t = Inr (t, 0)"
  by (induction t) auto

text \<open>At most one row has a given key: the update changes that row alone.\<close>

lemma update_rows_key:
  assumes "distinct (map k t)" "r \<in> set t" "P r" and key: "\<And>x. P x \<Longrightarrow> k x = k r"
  shows "update_rows P f t =
     (case f r of Inl e \<Rightarrow> Inl e | Inr r' \<Rightarrow> Inr (map (\<lambda>x. if k x = k r then r' else x) t, 1))"
  using assms(1-3)
proof (induction t)
  case Nil
  then show ?case by simp
next
  case (Cons y ys)
  show ?case
  proof (cases "y = r")
    case True
    with Cons.prems have n: "\<forall>x\<in>set ys. k x \<noteq> k r" by (auto simp: image_iff)
    with key have "\<forall>x\<in>set ys. \<not> P x" by blast
    then have "update_rows P f ys = Inr (ys, 0)" by (rule update_rows_none)
    moreover have "map (\<lambda>x. if k x = k r then r' else x) ys = ys" for r'
      using n by (intro map_idI) auto
    ultimately show ?thesis using True Cons.prems(3) by (simp split: sum.split)
  next
    case False
    with Cons.prems have ys: "distinct (map k ys)" "r \<in> set ys" and ne: "k y \<noteq> k r" by auto
    from ne key have "\<not> P y" by blast
    with ne Cons.IH [OF ys Cons.prems(3)] show ?thesis by (simp split: sum.split)
  qed
qed

text \<open>The row with a given key.\<close>

definition find_row :: "('r \<Rightarrow> bool) \<Rightarrow> 'r list \<Rightarrow> 'r option" where
  "find_row P t = List.find P t"

lemma find_row_Some: "find_row P t = Some r \<Longrightarrow> r \<in> set t \<and> P r"
  by (auto simp: find_row_def find_Some_iff)

lemma find_row_None: "find_row P t = None \<longleftrightarrow> (\<forall>r\<in>set t. \<not> P r)"
  by (auto simp: find_row_def find_None_iff)

lemma find_row_app_Some: "find_row P t = Some r \<Longrightarrow> find_row P (t @ u) = Some r"
  by (induction t) (auto simp: find_row_def split: if_splits)

lemma find_row_snoc: "find_row P t = None \<Longrightarrow> find_row P (t @ [x]) = (if P x then Some x else None)"
  by (induction t) (auto simp: find_row_def split: if_splits)

lemma find_row_unique:
  "distinct (map k t) \<Longrightarrow> r \<in> set t \<Longrightarrow> find_row (\<lambda>x. k x = k r) t = Some r"
proof (cases "find_row (\<lambda>x. k x = k r) t")
  case None
  moreover assume "r \<in> set t"
  ultimately show ?thesis by (auto simp: find_row_None)
next
  case (Some x)
  moreover assume "distinct (map k t)" "r \<in> set t"
  ultimately have "x = r" using find_row_Some [OF Some] distinct_map_unique [of k t x r] by blast
  with Some show ?thesis by simp
qed

end
