(* ===== verification/Redis_Store.thy ===== *)
theory Redis_Store
  imports Domain
begin

text \<open>
  The rate limiter's Lua script of \<open>internal/infrastructure/cache/redis.go\<close> and \<open>SETNX\<close> with
  a time to live, on a store of keys. A key holds a sorted set (a list of scores with their
  members, at most one entry per member) or a plain value, and may expire; an expired key is
  read as absent. \<open>srv\<close> is the server's clock in seconds, by which keys expire; \<open>now\<close> is the
  caller's clock in seconds, which the script receives as an argument.
\<close>

datatype redis_value = ZSet "(int \<times> string) list" | RString

record redis_entry =
  re_value :: redis_value
  re_expire :: "int option"

type_synonym redis = "string \<Rightarrow> redis_entry option"

definition alive :: "int \<Rightarrow> redis_entry \<Rightarrow> bool" where
  "alive srv e \<longleftrightarrow> (case re_expire e of None \<Rightarrow> True | Some x \<Rightarrow> srv < x)"

definition redis_get :: "int \<Rightarrow> redis \<Rightarrow> string \<Rightarrow> redis_entry option" where
  "redis_get srv rd key =
     (case rd key of None \<Rightarrow> None | Some e \<Rightarrow> if alive srv e then Some e else None)"

text \<open>The members of a sorted set; \<open>None\<close> when the key holds another type.\<close>

definition zset_of :: "redis_entry option \<Rightarrow> (int \<times> string) list option" where
  "zset_of e = (case e of None \<Rightarrow> Some []
     | Some x \<Rightarrow> (case re_value x of ZSet z \<Rightarrow> Some z | RString \<Rightarrow> None))"

definition zremrangebyscore :: "int \<Rightarrow> (int \<times> string) list \<Rightarrow> (int \<times> string) list" where
  "zremrangebyscore hi z = filter (\<lambda>(score, m). \<not> score \<le> hi) z"

definition zadd :: "int \<Rightarrow> string \<Rightarrow> (int \<times> string) list \<Rightarrow> (int \<times> string) list" where
  "zadd score m z = filter (\<lambda>(s, x). x \<noteq> m) z @ [(score, m)]"

text \<open>A sorted set with no member is no key.\<close>

definition put_zset :: "redis \<Rightarrow> string \<Rightarrow> (int \<times> string) list \<Rightarrow> int option \<Rightarrow> redis" where
  "put_zset rd key z ex = rd(key := if z = [] then None else Some \<lparr>re_value = ZSet z, re_expire = ex\<rparr>)"

definition rateLimitScript ::
  "int \<Rightarrow> string \<Rightarrow> int \<Rightarrow> int \<Rightarrow> int \<Rightarrow> string \<Rightarrow> redis \<Rightarrow> (error, int) result \<times> redis" where
  "rateLimitScript srv key now window limit request_id rd =
     (let e = redis_get srv rd key; min_time = now - window in
      case zset_of e of
        None \<Rightarrow> (Inl (Plain ''WRONGTYPE''), rd)
      | Some z0 \<Rightarrow>
          (let z = zremrangebyscore min_time z0;
               ex = (case e of None \<Rightarrow> None | Some x \<Rightarrow> re_expire x);
               rd1 = put_zset rd key z ex;
               current = int (length z)
           in if current \<ge> limit then (Inr 0, rd1)
              else (Inr 1, put_zset rd1 key (zadd now request_id z) (Some (srv + (window + 10))))))"

definition setnx :: "int \<Rightarrow> string \<Rightarrow> int \<Rightarrow> redis \<Rightarrow> bool \<times> redis" where
  "setnx srv key ttl rd =
     (case redis_get srv rd key of
        Some _ \<Rightarrow> (False, rd)
      | None \<Rightarrow> (True, rd(key := Some \<lparr>re_value = RString, re_expire = Some (srv + ttl)\<rparr>)))"

end
