(* ===== verification/World.thy ===== *)
theory World
  imports Schema Redis_Store
begin

text \<open>
  The state the services work on, and what lies outside the program. \<open>world\<close> holds the
  committed database, the open SQL transaction (a working copy of the tables, the time
  PostgreSQL's \<open>now()\<close> answers in it and whether a statement of it failed), the Redis store
  and a counter of external calls. \<open>env\<close> is the environment: what the n-th external call
  meets (a fault, a lost or an ambiguous commit, the clock, a fresh UUID, the end of the
  context) and the library functions the program calls but does not contain. Every theorem
  about the services is quantified over all environments, so over all fault schedules.

  The model runs one request at a time: transactions of other requests are taken to happen
  before or after the transaction at hand. A record type with an extension slot lets a
  caller add its own local variables to the state.
\<close>

datatype commit_outcome =
    CommitOk
  | CommitLost error       \<comment> \<open>an error, and the transaction was rolled back\<close>
  | CommitUnknown error    \<comment> \<open>an error reached the client, but the server had committed\<close>

record txn =
  t_db :: database
  t_now :: time
  t_aborted :: bool

record world =
  w_db :: database
  w_tx :: "txn option"
  w_redis :: redis
  w_tick :: nat

record env =
  e_fault :: "nat \<Rightarrow> error option"
  e_redis_fault :: "nat \<Rightarrow> string option"  \<comment> \<open>an error of the Redis client\<close>
  e_commit :: "nat \<Rightarrow> commit_outcome"
  e_uuid :: "nat \<Rightarrow> (error, uuid) result"
  e_clock :: "nat \<Rightarrow> time"          \<comment> \<open>\<open>time.Now()\<close>, in nanoseconds\<close>
  e_pg_now :: "nat \<Rightarrow> time"         \<comment> \<open>\<open>now()\<close> of a transaction begun at this call\<close>
  e_redis_now :: "nat \<Rightarrow> int"       \<comment> \<open>the Redis server's clock, in seconds\<close>
  e_done :: "nat \<Rightarrow> bool"           \<comment> \<open>the context ends before the timer fires\<close>
  e_uuid_text :: "uuid \<Rightarrow> string"   \<comment> \<open>\<open>uuid.UUID.String()\<close>\<close>
  e_pg_lower :: "string \<Rightarrow> string"  \<comment> \<open>PostgreSQL's \<open>LOWER\<close>\<close>
  e_uuid_parse :: "string \<Rightarrow> uuid option"  \<comment> \<open>\<open>uuid.Parse\<close>, \<open>UnmarshalText\<close>\<close>
  e_unicode_lower :: "string \<Rightarrow> string"  \<comment> \<open>\<open>strings.ToLower\<close> outside ASCII\<close>
  e_bcrypt_hash :: "nat \<Rightarrow> string \<Rightarrow> (error, string) result"
  e_bcrypt_compare :: "string \<Rightarrow> string \<Rightarrow> bool"
  e_jwt_sign :: "string \<Rightarrow> jwt_claims \<Rightarrow> (string, string) result"
  e_jwt_parse :: "string \<Rightarrow> string \<Rightarrow> time \<Rightarrow> string \<Rightarrow> (jwt_error, jwt_claims) result"

type_synonym ('z, 'a) io = "('z world_scheme, error, 'a) go"

definition tick :: "'z world_scheme \<Rightarrow> 'z world_scheme" where
  "tick w = w\<lparr>w_tick := Suc (w_tick w)\<rparr>"

section \<open>SQL transactions\<close>

text \<open>
  \<open>NewTX\<close> (\<open>BeginTx\<close>, READ COMMITTED), a statement, \<open>Commit\<close>, \<open>Rollback\<close>. After a failed
  statement PostgreSQL refuses every further statement of the transaction (\<open>25P02\<close>), and
  its commit is a rollback that the driver reports as an error.
\<close>

definition NewTX :: "env \<Rightarrow> ('z, unit) io" where
  "NewTX env w =
     (case e_fault env (w_tick w) of
        Some e \<Rightarrow> (Inl (Wrapped ''tx begin'' e), tick w)
      | None \<Rightarrow> (Inr (), (tick w)\<lparr>w_tx :=
            Some \<lparr>t_db = w_db w, t_now = e_pg_now env (w_tick w), t_aborted = False\<rparr>\<rparr>))"

definition sql :: "env \<Rightarrow> (txn \<Rightarrow> (string, 'a \<times> database) result) \<Rightarrow> ('z, 'a) io" where
  "sql env stmt w =
     (case w_tx w of
        None \<Rightarrow> (Inl TxDone, tick w)
      | Some t \<Rightarrow>
          if t_aborted t then (Inl (PgError ''25P02''), tick w)
          else (case e_fault env (w_tick w) of
              Some e \<Rightarrow> (Inl e, (tick w)\<lparr>w_tx := Some (t\<lparr>t_aborted := True\<rparr>)\<rparr>)
            | None \<Rightarrow>
                (case stmt t of
                   Inl c \<Rightarrow> (Inl (PgError c), (tick w)\<lparr>w_tx := Some (t\<lparr>t_aborted := True\<rparr>)\<rparr>)
                 | Inr (a, d) \<Rightarrow> (Inr a, (tick w)\<lparr>w_tx := Some (t\<lparr>t_db := d\<rparr>)\<rparr>))))"

definition Commit :: "env \<Rightarrow> ('z, unit) io" where
  "Commit env w =
     (case w_tx w of
        None \<Rightarrow> (Inl TxDone, tick w)
      | Some t \<Rightarrow>
          if t_aborted t then (Inl (Plain ''commit unexpectedly resulted in rollback''), (tick w)\<lparr>w_tx := None\<rparr>)
          else (case e_commit env (w_tick w) of
              CommitOk \<Rightarrow> (Inr (), (tick w)\<lparr>w_db := t_db t, w_tx := None\<rparr>)
            | CommitLost e \<Rightarrow> (Inl e, (tick w)\<lparr>w_tx := None\<rparr>)
            | CommitUnknown e \<Rightarrow> (Inl e, (tick w)\<lparr>w_db := t_db t, w_tx := None\<rparr>)))"

definition Rollback :: "'z world_scheme \<Rightarrow> 'z world_scheme" where
  "Rollback w = w\<lparr>w_tx := None\<rparr>"

text \<open>\<open>uow, err := NewTX(ctx); if err ...; defer uow.Rollback(); body\<close>.\<close>

definition with_tx :: "env \<Rightarrow> (error \<Rightarrow> error) \<Rightarrow> ('z, 'a) io \<Rightarrow> ('z, 'a) io" where
  "with_tx env wrap body w =
     (case NewTX env w of
        (Inl e, w1) \<Rightarrow> (Inl (wrap e), w1)
      | (Inr _, w1) \<Rightarrow> (case body w1 of (r, w2) \<Rightarrow> (r, Rollback w2)))"

section \<open>Other external calls\<close>

definition new_uuid :: "env \<Rightarrow> ('z world_scheme \<Rightarrow> (error, uuid) result \<times> 'z world_scheme)" where
  "new_uuid env w = (e_uuid env (w_tick w), tick w)"

definition now_nano :: "env \<Rightarrow> ('z world_scheme \<Rightarrow> time \<times> 'z world_scheme)" where
  "now_nano env w = (e_clock env (w_tick w), tick w)"

definition time_unix :: "time \<Rightarrow> int" where
  "time_unix t = t div 1000000000"

text \<open>
  What the code relies on in the \<open>uuid\<close> package: different ids have different texts, none with
  a NUL byte.
\<close>

definition uuid_text_ok :: "env \<Rightarrow> bool" where
  "uuid_text_ok env \<longleftrightarrow> inj (e_uuid_text env) \<and> (\<forall>u. CHR 0x00 \<notin> set (e_uuid_text env u))"

section \<open>What the pieces leave alone\<close>

text \<open>
  \<open>same_db\<close>: the committed tables are untouched. \<open>same_redis\<close>: the Redis store is untouched.
  Both are closed under composition, so \<open>inv_intros\<close> lifts them from the pieces.
\<close>

definition same_db :: "'z world_scheme \<Rightarrow> 'z world_scheme \<Rightarrow> bool" where
  "same_db w w' \<longleftrightarrow> w_db w' = w_db w"

definition same_redis :: "'z world_scheme \<Rightarrow> 'z world_scheme \<Rightarrow> bool" where
  "same_redis w w' \<longleftrightarrow> w_redis w' = w_redis w"

lemma same_refl_trans [inv_intros]:
  "reflp same_db" "transp same_db" "reflp same_redis" "transp same_redis"
  by (auto simp: same_db_def same_redis_def reflp_def transp_def)

lemma tick_simps [simp]:
  "w_db (tick w) = w_db w" "w_tx (tick w) = w_tx w" "w_redis (tick w) = w_redis w"
  "w_tick (tick w) = Suc (w_tick w)" "world.more (tick w) = world.more w"
  by (simp_all add: tick_def)

lemma Rollback_simps [simp]:
  "w_db (Rollback w) = w_db w" "w_tx (Rollback w) = None" "w_redis (Rollback w) = w_redis w"
  "w_tick (Rollback w) = w_tick w" "world.more (Rollback w) = world.more w"
  by (simp_all add: Rollback_def)

lemma stays_sql [inv_intros]: "stays same_db (sql env stmt)" "stays same_redis (sql env stmt)"
  by (auto intro!: staysI simp: sql_def same_db_def same_redis_def split: option.split sum.split)

lemma stays_NewTX [inv_intros]: "stays same_db (NewTX env)" "stays same_redis (NewTX env)"
  by (auto intro!: staysI simp: NewTX_def same_db_def same_redis_def split: option.split)

lemma stays_Commit [inv_intros]: "stays same_redis (Commit env)"
  by (auto intro!: staysI simp: Commit_def same_redis_def split: option.split commit_outcome.split)

lemma stays_new_uuid [inv_intros]: "stays same_db (new_uuid env)" "stays same_redis (new_uuid env)"
  by (auto intro!: staysI simp: new_uuid_def same_db_def same_redis_def)

lemma stays_with_tx [inv_intros]:
  fixes body :: "('z, 'a) io" and R :: "'z world_scheme \<Rightarrow> 'z world_scheme \<Rightarrow> bool"
  assumes "stays R body" "transp R" "\<And>w. R w (snd (NewTX env w))" "\<And>w. R w (Rollback w)"
  shows "stays R (with_tx env wrap body)"
proof (rule staysI)
  fix w :: "'z world_scheme"
  obtain r w1 where n: "NewTX env w = (r, w1)" by force
  with assms(3) [of w] have r1: "R w w1" by simp
  show "R w (snd (with_tx env wrap body w))"
  proof (cases r)
    case (Inl e)
    with n r1 show ?thesis by (simp add: with_tx_def)
  next
    case (Inr u)
    obtain q w2 where b: "body w1 = (q, w2)" by force
    with assms(1) have "R w1 w2" by (auto dest: staysD)
    with r1 assms(2,4) have "R w (Rollback w2)" by (meson transpD)
    with n Inr b show ?thesis by (simp add: with_tx_def)
  qed
qed

lemma sql_Inr:
  "sql env stmt w = (Inr a, w') \<longleftrightarrow>
     (\<exists>t d. w_tx w = Some t \<and> \<not> t_aborted t \<and> e_fault env (w_tick w) = None
        \<and> stmt t = Inr (a, d) \<and> w' = (tick w)\<lparr>w_tx := Some (t\<lparr>t_db := d\<rparr>)\<rparr>)"
  by (auto simp: sql_def split: option.splits sum.splits if_splits)

end
