(* ===== verification/Storage.thy ===== *)
theory Storage
  imports World
begin

text \<open>
  Package \<open>internal/infrastructure/storage\<close>: the repositories over an open SQL transaction
  (\<open>storage.go\<close>) and the query builder of the history (\<open>helper.go\<close>). Every method is the
  statement it sends, with the WHERE clause, the columns and the constraints of the tables it
  touches, followed by the code's reading of the outcome. A decimal argument reaches
  PostgreSQL as the text \<open>Value()\<close> prints, which denotes \<open>dec_rat\<close> of it
  (\<open>print_parse\<close>); a \<open>NUMERIC(36, 18)\<close> column comes back as text with 18
  fractional digits. \<open>RowsAffected\<close> of the pgx driver returns no error.
\<close>

section \<open>Reading rows\<close>

definition numeric_out :: "rat \<Rightarrow> string" where
  "numeric_out x =
     (let u = round_half_away (x * money_unit) in
      case fraction_parts (nat_text \<bar>u\<bar>) (- 18) of (ip, fp) \<Rightarrow>
        (if u < 0 then ''-'' else []) @ ip @ ''.'' @ fp)"

definition scan_numeric :: "rat \<Rightarrow> (error, decimal) result" where
  "scan_numeric x =
     (case dec_Scan (DriverString (numeric_out x)) of Inl e \<Rightarrow> Inl (DecErr e) | Inr d \<Rightarrow> Inr d)"

definition scan_account :: "account_row \<Rightarrow> (error, account) result" where
  "scan_account r =
     (case scan_numeric (ar_balance r) of Inl e \<Rightarrow> Inl e
      | Inr d \<Rightarrow> Inr \<lparr>ac_ID = ar_id r, ac_Name = ar_name r, ac_Email = ar_email r, ac_Balance = d,
          ac_PasswordHash = ar_password_hash r, ac_Role = ar_role r\<rparr>)"

definition scan_transaction :: "tx_row \<Rightarrow> (error, transaction) result" where
  "scan_transaction r =
     (case scan_numeric (tr_amount r) of Inl e \<Rightarrow> Inl e
      | Inr d \<Rightarrow> Inr \<lparr>tx_ID = tr_id r, tx_Amount = d, tx_Sender_id = tr_sender r,
          tx_Receiver_id = tr_receiver r, tx_Status = tr_status r, tx_Created_at = tr_created_at r\<rparr>)"

definition liftR :: "(error, 'a) result \<Rightarrow> ('z, 'a) io" where
  "liftR r w = (r, w)"

section \<open>Accounts\<close>

definition insert_account :: "env \<Rightarrow> account \<Rightarrow> txn \<Rightarrow> (string, unit \<times> database) result" where
  "insert_account env ac t =
     (let d = t_db t in
      if \<not> list_all pg_text [ac_Name ac, ac_Email ac, ac_PasswordHash ac, ac_Role ac] then Inl ''22021''
      else case numeric_36_18 (dec_rat (ac_Balance ac)) of
        Inl c \<Rightarrow> Inl c
      | Inr b \<Rightarrow>
          if b < 0 then Inl ''23514''
          else if \<exists>r\<in>set (accounts d). ar_id r = ac_ID ac \<or> ar_email r = ac_Email ac
              \<or> e_pg_lower env (ar_email r) = e_pg_lower env (ac_Email ac) then Inl ''23505''
          else Inr ((), d\<lparr>accounts := accounts d @
            [\<lparr>ar_id = ac_ID ac, ar_name = ac_Name ac, ar_email = ac_Email ac,
              ar_password_hash = ac_PasswordHash ac, ar_role = ac_Role ac, ar_balance = b\<rparr>]\<rparr>))"

definition acc_Create :: "env \<Rightarrow> account \<Rightarrow> ('z, unit) io" where
  "acc_Create env ac =
     mapErr (\<lambda>e. if errors_as_pg e = Some ''23505'' then Sentinel ErrAccountAlreadyExist
                 else Wrapped ''create account'' e)
       (sql env (insert_account env ac))"

definition row_error :: "string \<Rightarrow> domain_error \<Rightarrow> error \<Rightarrow> error" where
  "row_error m target e = (if errors_is e NoRows then Sentinel target else Wrapped m e)"

definition select_row ::
  "env \<Rightarrow> (database \<Rightarrow> 'r option) \<Rightarrow> ('r \<Rightarrow> (error, 'a) result) \<Rightarrow> ('z, 'a) io" where
  "select_row env q scan =
     bindE (sql env (\<lambda>t. Inr (q (t_db t), t_db t)))
       (\<lambda>r. case r of None \<Rightarrow> failE NoRows | Some x \<Rightarrow> liftR (scan x))"

definition acc_GetById :: "env \<Rightarrow> uuid \<Rightarrow> ('z, account) io" where
  "acc_GetById env i =
     mapErr (row_error ''get account by id'' ErrAccountNotFound)
       (select_row env (\<lambda>d. find_row (\<lambda>r. ar_id r = i) (accounts d)) scan_account)"

definition acc_GetByEmail :: "env \<Rightarrow> string \<Rightarrow> ('z, account) io" where
  "acc_GetByEmail env email =
     mapErr (row_error ''get account by email'' ErrAccountNotFound)
       (select_row env
          (\<lambda>d. find_row (\<lambda>r. e_pg_lower env (ar_email r) = e_pg_lower env email) (accounts d))
          scan_account)"

text \<open>\<open>SET balance = x\<close>: the column's rounding and overflow, then its check.\<close>

definition set_balance :: "rat \<Rightarrow> account_row \<Rightarrow> (string, account_row) result" where
  "set_balance x r =
     (case numeric_36_18 x of Inl c \<Rightarrow> Inl c
      | Inr b \<Rightarrow> if b < 0 then Inl ''23514'' else Inr (r\<lparr>ar_balance := b\<rparr>))"

definition update_accounts ::
  "(account_row \<Rightarrow> bool) \<Rightarrow> (account_row \<Rightarrow> (string, account_row) result) \<Rightarrow>
     txn \<Rightarrow> (string, nat \<times> database) result" where
  "update_accounts P f t =
     (case update_rows P f (accounts (t_db t)) of Inl c \<Rightarrow> Inl c
      | Inr (rs, n) \<Rightarrow> Inr (n, (t_db t)\<lparr>accounts := rs\<rparr>))"

definition acc_Sub :: "env \<Rightarrow> uuid \<Rightarrow> decimal \<Rightarrow> ('z, unit) io" where
  "acc_Sub env sender_id amount =
     bindE (mapErr (Wrapped ''sub from balance'')
         (sql env (update_accounts (\<lambda>r. ar_id r = sender_id \<and> ar_balance r \<ge> dec_rat amount)
            (\<lambda>r. set_balance (ar_balance r - dec_rat amount) r))))
       (\<lambda>rows. if rows = 0 then failE (Sentinel ErrInsufficientFunds) else returnE ())"

definition acc_Add :: "env \<Rightarrow> uuid \<Rightarrow> decimal \<Rightarrow> ('z, unit) io" where
  "acc_Add env receiver_id amount =
     bindE (mapErr (Wrapped ''add to balance'')
         (sql env (update_accounts (\<lambda>r. ar_id r = receiver_id)
            (\<lambda>r. set_balance (ar_balance r + dec_rat amount) r))))
       (\<lambda>rows. if rows = 0 then failE (Sentinel ErrReceiverAccountNotFound) else returnE ())"

text \<open>
  \<open>SELECT id ... WHERE id IN (a, b) ORDER BY id FOR UPDATE\<close>: the rows are locked in the order
  of their ids. The locks themselves keep other transactions out and change no table.
\<close>

definition locked_ids :: "uuid \<Rightarrow> uuid \<Rightarrow> database \<Rightarrow> uuid list" where
  "locked_ids a b d = sort (filter (\<lambda>i. i = a \<or> i = b) (map ar_id (accounts d)))"

definition acc_LockForTransfer :: "env \<Rightarrow> uuid \<Rightarrow> uuid \<Rightarrow> ('z, unit) io" where
  "acc_LockForTransfer env firstID secondID =
     bindE (mapErr (Wrapped ''lock transfer accounts'')
         (sql env (\<lambda>t. Inr (locked_ids firstID secondID (t_db t), t_db t))))
       (\<lambda>ids. returnE ())"

section \<open>Transactions\<close>

definition account_exists :: "database \<Rightarrow> uuid \<Rightarrow> bool" where
  "account_exists d i \<longleftrightarrow> (\<exists>r\<in>set (accounts d). ar_id r = i)"

definition insert_transaction ::
  "transaction \<Rightarrow> txn \<Rightarrow> (string, (string \<times> time) \<times> database) result" where
  "insert_transaction x t =
     (let d = t_db t in
      case numeric_36_18 (dec_rat (tx_Amount x)) of
        Inl c \<Rightarrow> Inl c
      | Inr a \<Rightarrow>
          if \<not> (a > 0) \<or> tx_Sender_id x = tx_Receiver_id x then Inl ''23514''
          else if \<exists>r\<in>set (transactions d). tr_id r = tx_ID x then Inl ''23505''
          else if \<not> account_exists d (tx_Sender_id x) \<or> \<not> account_exists d (tx_Receiver_id x)
          then Inl ''23503''
          else Inr ((StatusPending, t_now t), d\<lparr>transactions := transactions d @
            [\<lparr>tr_id = tx_ID x, tr_amount = a, tr_sender = tx_Sender_id x, tr_receiver = tx_Receiver_id x,
              tr_status = StatusPending, tr_created_at = t_now t\<rparr>]\<rparr>))"

text \<open>The row's status and time are scanned back into the caller's transaction.\<close>

definition tx_Transaction :: "env \<Rightarrow> transaction \<Rightarrow> ('z, transaction) io" where
  "tx_Transaction env x =
     bindE (mapErr (Wrapped ''create transaction'') (sql env (insert_transaction x)))
       (\<lambda>(st, c). returnE (x\<lparr>tx_Status := st, tx_Created_at := c\<rparr>))"

definition status_allowed :: "string \<Rightarrow> bool" where
  "status_allowed s \<longleftrightarrow> s = StatusPending \<or> s = StatusCompleted \<or> s = StatusFailed"

definition update_status ::
  "uuid \<Rightarrow> string \<Rightarrow> txn \<Rightarrow> (string, (string \<times> time) option \<times> database) result" where
  "update_status i st t =
     (case update_rows (\<lambda>r. tr_id r = i)
         (\<lambda>r. if status_allowed st then Inr (r\<lparr>tr_status := st\<rparr>) else Inl ''23514'')
         (transactions (t_db t)) of
        Inl c \<Rightarrow> Inl c
      | Inr (rs, n) \<Rightarrow>
          Inr (map_option (\<lambda>r. (tr_status r, tr_created_at r)) (find_row (\<lambda>r. tr_id r = i) rs),
               (t_db t)\<lparr>transactions := rs\<rparr>))"

definition tx_UpdateStatus :: "env \<Rightarrow> transaction \<Rightarrow> TransactionStatus \<Rightarrow> ('z, transaction) io" where
  "tx_UpdateStatus env x st =
     mapErr (Wrapped ''update transaction status'')
       (bindE (sql env (update_status (tx_ID x) st))
          (\<lambda>r. case r of None \<Rightarrow> failE NoRows
             | Some (s, c) \<Rightarrow> returnE (x\<lparr>tx_Status := s, tx_Created_at := c\<rparr>)))"

definition tx_GetByID :: "env \<Rightarrow> uuid \<Rightarrow> ('z, transaction) io" where
  "tx_GetByID env i =
     mapErr (Wrapped ''get transaction by id'')
       (select_row env (\<lambda>d. find_row (\<lambda>r. tr_id r = i) (transactions d)) scan_transaction)"

definition tx_TotalTransactions :: "env \<Rightarrow> uuid \<Rightarrow> ('z, int) io" where
  "tx_TotalTransactions env userID =
     sql env (\<lambda>t. Inr (int (length (filter (\<lambda>r. tr_receiver r = userID \<or> tr_sender r = userID)
       (transactions (t_db t)))), t_db t))"

section \<open>Idempotency records\<close>

text \<open>\<open>VARCHAR(128)\<close> refuses a longer text; \<open>CHAR(64)\<close> also pads a shorter one with blanks.\<close>

definition pad64 :: "string \<Rightarrow> string" where
  "pad64 s = s @ replicate (64 - length s) (CHR '' '')"

definition insert_idempotency ::
  "transfer_idempotency \<Rightarrow> txn \<Rightarrow> (string, (string \<times> time \<times> time) option \<times> database) result" where
  "insert_idempotency rec t =
     (let d = t_db t in
      if length (ti_Key rec) > 128 \<or> length (ti_RequestFingerprint rec) > 64 then Inl ''22001''
      else if \<exists>r\<in>set (idempotency d). ir_sender r = ti_SenderID rec \<and> ir_key r = ti_Key rec
      then Inr (None, d)
      else if \<not> account_exists d (ti_SenderID rec) then Inl ''23503''
      else Inr (Some (''processing'', t_now t, t_now t), d\<lparr>idempotency := idempotency d @
        [\<lparr>ir_sender = ti_SenderID rec, ir_key = ti_Key rec,
          ir_fingerprint = pad64 (ti_RequestFingerprint rec), ir_status = ''processing'',
          ir_tx = None, ir_created_at = t_now t, ir_updated_at = t_now t\<rparr>]\<rparr>))"

definition tx_TryCreateIdempotency :: "env \<Rightarrow> transfer_idempotency \<Rightarrow> ('z, bool) io" where
  "tx_TryCreateIdempotency env rec =
     catchE
       (bindE (sql env (insert_idempotency rec))
          (\<lambda>r. case r of None \<Rightarrow> failE NoRows | Some _ \<Rightarrow> returnE True))
       (\<lambda>e. if errors_is e NoRows then returnE False
            else failE (Wrapped ''create idempotency record'' e))"

definition scan_idempotency :: "idem_row \<Rightarrow> (error, transfer_idempotency) result" where
  "scan_idempotency r = Inr \<lparr>ti_SenderID = ir_sender r, ti_Key = ir_key r,
     ti_RequestFingerprint = ir_fingerprint r, ti_Status = ir_status r, ti_TransactionID = ir_tx r,
     ti_CreatedAt = ir_created_at r, ti_UpdatedAt = ir_updated_at r\<rparr>"

definition tx_GetIdempotency :: "env \<Rightarrow> uuid \<Rightarrow> string \<Rightarrow> ('z, transfer_idempotency) io" where
  "tx_GetIdempotency env senderID key =
     mapErr (Wrapped ''get idempotency record'')
       (select_row env
          (\<lambda>d. find_row (\<lambda>r. ir_sender r = senderID \<and> ir_key r = key) (idempotency d))
          scan_idempotency)"

text \<open>
  The completed row is checked against the unique index on the transaction id, the foreign
  key to the transactions and the check that ties the status to the transaction id.
\<close>

definition complete_row ::
  "uuid \<Rightarrow> time \<Rightarrow> database \<Rightarrow> idem_row \<Rightarrow> (string, idem_row) result" where
  "complete_row transactionID now d r =
     (if \<exists>x\<in>set (idempotency d). ir_tx x = Some transactionID \<and> x \<noteq> r then Inl ''23505''
      else if \<not> (\<exists>x\<in>set (transactions d). tr_id x = transactionID) then Inl ''23503''
      else Inr (r\<lparr>ir_status := ''completed'', ir_tx := Some transactionID, ir_updated_at := now\<rparr>))"

definition complete_idempotency ::
  "uuid \<Rightarrow> string \<Rightarrow> uuid \<Rightarrow> txn \<Rightarrow> (string, nat \<times> database) result" where
  "complete_idempotency senderID key transactionID t =
     (case update_rows (\<lambda>r. ir_sender r = senderID \<and> ir_key r = key \<and> ir_status r = ''processing'')
         (complete_row transactionID (t_now t) (t_db t)) (idempotency (t_db t)) of
        Inl c \<Rightarrow> Inl c
      | Inr (rs, n) \<Rightarrow> Inr (n, (t_db t)\<lparr>idempotency := rs\<rparr>))"

definition tx_CompleteIdempotency :: "env \<Rightarrow> uuid \<Rightarrow> string \<Rightarrow> uuid \<Rightarrow> ('z, unit) io" where
  "tx_CompleteIdempotency env senderID key transactionID =
     bindE (mapErr (Wrapped ''complete idempotency record'')
         (sql env (complete_idempotency senderID key transactionID)))
       (\<lambda>rows. if rows \<noteq> 1 then failE (Plain ''idempotency record not found or completed'')
               else returnE ())"

section \<open>Refresh tokens\<close>

definition insert_token ::
  "string \<Rightarrow> uuid \<Rightarrow> uuid \<Rightarrow> time \<Rightarrow> txn \<Rightarrow> (string, nat \<times> database) result" where
  "insert_token jti userID familyID expiresAt t =
     (let d = t_db t in
      if \<exists>r\<in>set (tokens d). rt_jti r = jti then Inl ''23505''
      else if \<not> account_exists d userID then Inl ''23503''
      else Inr (1, d\<lparr>tokens := tokens d @ [\<lparr>rt_jti = jti, rt_user = userID, rt_family = familyID,
         rt_revoked = False, rt_expires_at = pg_time expiresAt, rt_created_at = t_now t\<rparr>]\<rparr>))"

definition tok_SaveRefreshToken :: "env \<Rightarrow> string \<Rightarrow> uuid \<Rightarrow> uuid \<Rightarrow> time \<Rightarrow> ('z, unit) io" where
  "tok_SaveRefreshToken env jti userID familyID expiresAt =
     bindE (mapErr (\<lambda>e. Sentinel ErrSaveRefreshToken)
         (sql env (insert_token jti userID familyID expiresAt)))
       (\<lambda>rows. if rows = 0 then failE (Sentinel ErrSaveRefreshToken) else returnE ())"

record refresh_session =
  rs_UserID :: uuid
  rs_FamilyID :: uuid
  rs_Revoked :: bool
  rs_ExpiresAt :: time

definition scan_session :: "token_row \<Rightarrow> (error, refresh_session) result" where
  "scan_session r = Inr \<lparr>rs_UserID = rt_user r, rs_FamilyID = rt_family r, rs_Revoked = rt_revoked r,
     rs_ExpiresAt = rt_expires_at r\<rparr>"

definition tok_GetRefreshToken :: "env \<Rightarrow> string \<Rightarrow> ('z, refresh_session) io" where
  "tok_GetRefreshToken env jti =
     mapErr (row_error ''get refresh token'' ErrRefreshTokenNotFound)
       (select_row env (\<lambda>d. find_row (\<lambda>r. rt_jti r = jti) (tokens d)) scan_session)"

text \<open>\<open>UPDATE refresh_token SET revoked = true WHERE P AND revoked = false\<close>.\<close>

definition revoke_tokens :: "(token_row \<Rightarrow> bool) \<Rightarrow> txn \<Rightarrow> (string, nat \<times> database) result" where
  "revoke_tokens P t =
     (case update_rows (\<lambda>r. P r \<and> rt_revoked r = False) (\<lambda>r. Inr (r\<lparr>rt_revoked := True\<rparr>))
         (tokens (t_db t)) of
        Inl c \<Rightarrow> Inl c
      | Inr (rs, n) \<Rightarrow> Inr (n, (t_db t)\<lparr>tokens := rs\<rparr>))"

definition tok_RevokeRefreshToken :: "env \<Rightarrow> string \<Rightarrow> ('z, unit) io" where
  "tok_RevokeRefreshToken env jti =
     bindE (mapErr (Wrapped ''revoke refresh token'')
         (sql env (revoke_tokens (\<lambda>r. rt_jti r = jti))))
       (\<lambda>rows. if rows = 0 then failE (Sentinel ErrRefreshTokenNotFound) else returnE ())"

definition tok_RevokeAllUserTokens :: "env \<Rightarrow> uuid \<Rightarrow> ('z, unit) io" where
  "tok_RevokeAllUserTokens env userID =
     bindE (mapErr (Wrapped ''revoke all tokens'')
         (sql env (revoke_tokens (\<lambda>r. rt_user r = userID))))
       (\<lambda>rows. if rows = 0 then failE (Sentinel ErrUserNotFound) else returnE ())"

definition tok_RevokeTokenFamily :: "env \<Rightarrow> uuid \<Rightarrow> ('z, unit) io" where
  "tok_RevokeTokenFamily env familyID =
     bindE (mapErr (Wrapped ''revoke token family'')
         (sql env (revoke_tokens (\<lambda>r. rt_family r = familyID))))
       (\<lambda>rows. returnE ())"

section \<open>What the repositories leave alone\<close>

lemma stays_liftR [inv_intros]: "reflp R \<Longrightarrow> stays R (liftR r)"
  by (simp add: stays_def liftR_def reflp_def)

lemmas repo_defs = acc_Create_def acc_GetById_def acc_GetByEmail_def acc_Sub_def acc_Add_def
  acc_LockForTransfer_def tx_Transaction_def tx_UpdateStatus_def tx_GetByID_def
  tx_TotalTransactions_def tx_TryCreateIdempotency_def tx_GetIdempotency_def
  tx_CompleteIdempotency_def tok_SaveRefreshToken_def tok_GetRefreshToken_def
  tok_RevokeRefreshToken_def tok_RevokeAllUserTokens_def tok_RevokeTokenFamily_def select_row_def

lemma stays_split [inv_intros]:
  "(\<And>a b. stays R (f a b)) \<Longrightarrow> stays R (case p of (a, b) \<Rightarrow> f a b)"
  by (cases p) simp

lemma stays_option [inv_intros]:
  "stays R f \<Longrightarrow> (\<And>x. stays R (g x)) \<Longrightarrow> stays R (case r of None \<Rightarrow> f | Some x \<Rightarrow> g x)"
  by (cases r) simp_all

end
