(* ===== verification/Ledger.thy ===== *)
theory Ledger
  imports Storage
begin

text \<open>
  The tables as a ledger: the integrity invariant the migrations and the code maintain
  together, the balances as a partial function of the account id, the effect of one transfer
  on the tables (\<open>apply_transfer\<close>, the specification of \<open>transferAttempt\<close>) and what each SQL
  statement of a transfer does under the invariant.
\<close>

section \<open>The integrity of the tables\<close>

definition accounts_ok :: "database \<Rightarrow> bool" where
  "accounts_ok d \<longleftrightarrow> distinct (map ar_id (accounts d)) \<and> distinct (map ar_email (accounts d))
     \<and> (\<forall>r\<in>set (accounts d). storable (ar_balance r) \<and> 0 \<le> ar_balance r)"

definition tx_row_ok :: "database \<Rightarrow> tx_row \<Rightarrow> bool" where
  "tx_row_ok d r \<longleftrightarrow> storable (tr_amount r) \<and> 0 < tr_amount r \<and> tr_sender r \<noteq> tr_receiver r
     \<and> account_exists d (tr_sender r) \<and> account_exists d (tr_receiver r)
     \<and> status_allowed (tr_status r)"

definition transactions_ok :: "database \<Rightarrow> bool" where
  "transactions_ok d \<longleftrightarrow>
     distinct (map tr_id (transactions d)) \<and> (\<forall>r\<in>set (transactions d). tx_row_ok d r)"

definition tokens_ok :: "database \<Rightarrow> bool" where
  "tokens_ok d \<longleftrightarrow>
     distinct (map rt_jti (tokens d)) \<and> (\<forall>r\<in>set (tokens d). account_exists d (rt_user r))"

definition idem_key :: "idem_row \<Rightarrow> uuid \<times> string" where
  "idem_key r = (ir_sender r, ir_key r)"

text \<open>
  Outside an open transaction every idempotency record is completed and names a completed
  transaction of its sender, which no other record names.
\<close>

definition idem_row_ok :: "database \<Rightarrow> idem_row \<Rightarrow> bool" where
  "idem_row_ok d r \<longleftrightarrow> account_exists d (ir_sender r) \<and> ir_status r = ''completed''
     \<and> (case ir_tx r of None \<Rightarrow> False
        | Some i \<Rightarrow> \<exists>x\<in>set (transactions d). tr_id x = i \<and> tr_sender x = ir_sender r
            \<and> tr_status x = StatusCompleted)"

definition idempotency_ok :: "database \<Rightarrow> bool" where
  "idempotency_ok d \<longleftrightarrow> distinct (map idem_key (idempotency d)) \<and> distinct (map ir_tx (idempotency d))
     \<and> (\<forall>r\<in>set (idempotency d). idem_row_ok d r)"

definition db_inv :: "database \<Rightarrow> bool" where
  "db_inv d \<longleftrightarrow> accounts_ok d \<and> transactions_ok d \<and> tokens_ok d \<and> idempotency_ok d"

section \<open>Balances\<close>

definition balance_of :: "database \<Rightarrow> uuid \<Rightarrow> rat option" where
  "balance_of d i = map_option ar_balance (find_row (\<lambda>r. ar_id r = i) (accounts d))"

definition total_balance :: "database \<Rightarrow> rat" where
  "total_balance d = sum_list (map ar_balance (accounts d))"

definition credits :: "database \<Rightarrow> uuid \<Rightarrow> rat" where
  "credits d i = sum_list (map tr_amount
     (filter (\<lambda>r. tr_receiver r = i \<and> tr_status r = StatusCompleted) (transactions d)))"

definition debits :: "database \<Rightarrow> uuid \<Rightarrow> rat" where
  "debits d i = sum_list (map tr_amount
     (filter (\<lambda>r. tr_sender r = i \<and> tr_status r = StatusCompleted) (transactions d)))"

definition change_balance :: "uuid \<Rightarrow> rat \<Rightarrow> database \<Rightarrow> database" where
  "change_balance i x d = d\<lparr>accounts :=
     map (\<lambda>r. if ar_id r = i then r\<lparr>ar_balance := ar_balance r + x\<rparr> else r) (accounts d)\<rparr>"

lemma change_balance_tables [simp]:
  "transactions (change_balance i x d) = transactions d"
  "tokens (change_balance i x d) = tokens d"
  "idempotency (change_balance i x d) = idempotency d"
  by (simp_all add: change_balance_def)

lemma change_balance_keys [simp]:
  "map ar_id (accounts (change_balance i x d)) = map ar_id (accounts d)"
  "map ar_email (accounts (change_balance i x d)) = map ar_email (accounts d)"
  by (simp_all add: change_balance_def)

lemma account_exists_ids: "account_exists d i \<longleftrightarrow> i \<in> set (map ar_id (accounts d))"
  by (auto simp: account_exists_def)

lemma account_exists_change [simp]:
  "account_exists (change_balance i x d) j = account_exists d j"
  by (simp only: account_exists_ids change_balance_keys)

lemma find_map_row:
  "(\<And>r. P (f r) = P r) \<Longrightarrow> find_row P (map f t) = map_option f (find_row P t)"
  by (induction t) (auto simp: find_row_def)

lemma balance_change:
  "balance_of (change_balance i x d) j =
     (if j = i then map_option (\<lambda>b. b + x) (balance_of d j) else balance_of d j)"
proof -
  have "balance_of (change_balance i x d) j = map_option (ar_balance \<circ>
      (\<lambda>r. if ar_id r = i then r\<lparr>ar_balance := ar_balance r + x\<rparr> else r))
      (find_row (\<lambda>r. ar_id r = j) (accounts d))"
    by (simp add: balance_of_def change_balance_def find_map_row option.map_comp)
  then show ?thesis
    by (cases "find_row (\<lambda>r. ar_id r = j) (accounts d)")
      (auto simp: balance_of_def dest: find_row_Some)
qed

lemma balance_of_row:
  "accounts_ok d \<Longrightarrow> r \<in> set (accounts d) \<Longrightarrow> balance_of d (ar_id r) = Some (ar_balance r)"
  by (simp add: balance_of_def accounts_ok_def find_row_unique)

lemma balance_of_Some: "balance_of d i = Some b \<Longrightarrow> \<exists>r\<in>set (accounts d). ar_id r = i \<and> ar_balance r = b"
  by (auto simp: balance_of_def dest: find_row_Some)

lemma balance_of_None: "balance_of d i = None \<longleftrightarrow> \<not> account_exists d i"
  by (auto simp: balance_of_def find_row_None account_exists_def)

lemma balance_range: "accounts_ok d \<Longrightarrow> balance_of d i = Some b \<Longrightarrow> storable b \<and> 0 \<le> b"
  by (auto dest!: balance_of_Some simp: accounts_ok_def)

lemma total_change:
  assumes "accounts_ok d" "account_exists d i"
  shows "total_balance (change_balance i x d) = total_balance d + x"
proof -
  from assms(2) obtain r where r: "r \<in> set (accounts d)" "ar_id r = i"
    by (auto simp: account_exists_def)
  from sum_list_update_one [of ar_id "accounts d" r ar_balance "\<lambda>r. r\<lparr>ar_balance := ar_balance r + x\<rparr>"] r assms(1)
  show ?thesis by (simp add: total_balance_def change_balance_def accounts_ok_def)
qed

lemma accounts_ok_change:
  assumes "accounts_ok d" "\<And>b. balance_of d i = Some b \<Longrightarrow> storable (b + x) \<and> 0 \<le> b + x"
  shows "accounts_ok (change_balance i x d)"
proof -
  have "storable (ar_balance r) \<and> 0 \<le> ar_balance r" if "r \<in> set (accounts (change_balance i x d))" for r
  proof -
    from that obtain s where s: "s \<in> set (accounts d)"
      "r = (if ar_id s = i then s\<lparr>ar_balance := ar_balance s + x\<rparr> else s)"
      by (auto simp: change_balance_def)
    show ?thesis
    proof (cases "ar_id s = i")
      case True
      with s(1) assms(1) have "balance_of d i = Some (ar_balance s)" using balance_of_row by blast
      with assms(2) s(2) True show ?thesis by simp
    next
      case False
      with s assms(1) show ?thesis by (simp add: accounts_ok_def)
    qed
  qed
  with assms(1) show ?thesis unfolding accounts_ok_def change_balance_keys by blast
qed

section \<open>The statements on the balances\<close>

lemma set_balance_in:
  "storable x \<Longrightarrow> 0 \<le> x \<Longrightarrow> set_balance x r = Inr (r\<lparr>ar_balance := x\<rparr>)"
  by (simp add: set_balance_def storable_def)

lemma replace_is_change:
  assumes "accounts_ok d" "r \<in> set (accounts d)"
  shows "map (\<lambda>s. if ar_id s = ar_id r then r\<lparr>ar_balance := ar_balance r + x\<rparr> else s) (accounts d)
       = accounts (change_balance (ar_id r) x d)"
  using assms by (auto simp: change_balance_def accounts_ok_def dest: distinct_map_unique)

lemma update_accounts_one:
  assumes "accounts_ok d" "r \<in> set (accounts d)" "P r" "\<And>s. P s \<Longrightarrow> ar_id s = ar_id r"
    and f: "f r = Inr (r\<lparr>ar_balance := ar_balance r + x\<rparr>)"
  shows "update_accounts P f (t\<lparr>t_db := d\<rparr>) = Inr (1, change_balance (ar_id r) x d)"
proof -
  from assms(1) have dist: "distinct (map ar_id (accounts d))" by (simp add: accounts_ok_def)
  have "update_rows P f (accounts d) = (case f r of Inl e \<Rightarrow> Inl e
      | Inr r' \<Rightarrow> Inr (map (\<lambda>x. if ar_id x = ar_id r then r' else x) (accounts d), 1))"
    using dist assms(2,3) by (rule update_rows_key) (rule assms(4))
  then have "update_rows P f (accounts d) = Inr (accounts (change_balance (ar_id r) x d), 1)"
    by (simp add: f replace_is_change [OF assms(1,2)])
  then show ?thesis by (simp add: update_accounts_def change_balance_def)
qed

text \<open>
  \<open>Sub\<close>: the guard in the WHERE clause makes the row count 1 exactly when the account holds
  the amount, and then the new balance is in range. \<open>Add\<close>: fails only when the sum needs a
  nineteenth integer digit.
\<close>

lemma sub_statement:
  assumes "accounts_ok d" "storable a" "0 \<le> a"
  shows "update_accounts (\<lambda>r. ar_id r = i \<and> ar_balance r \<ge> a) (\<lambda>r. set_balance (ar_balance r - a) r)
           (t\<lparr>t_db := d\<rparr>)
       = (case balance_of d i of
            Some b \<Rightarrow> if b \<ge> a then Inr (1, change_balance i (- a) d) else Inr (0, d)
          | None \<Rightarrow> Inr (0, d))"
proof (cases "\<exists>r\<in>set (accounts d). ar_id r = i \<and> ar_balance r \<ge> a")
  case True
  then obtain r where r: "r \<in> set (accounts d)" "ar_id r = i" "ar_balance r \<ge> a" by blast
  with assms have "storable (ar_balance r - a)" by (intro storable_diff) (auto simp: accounts_ok_def)
  with r update_accounts_one [of d r "\<lambda>r. ar_id r = i \<and> ar_balance r \<ge> a" "\<lambda>r. set_balance (ar_balance r - a) r" "- a" t]
  show ?thesis using assms(1) balance_of_row [OF assms(1) r(1)] by (simp add: set_balance_in)
next
  case False
  then have "update_rows (\<lambda>r. ar_id r = i \<and> ar_balance r \<ge> a) f (accounts d) = Inr (accounts d, 0)" for f
    by (intro update_rows_none) blast
  moreover have "case balance_of d i of Some b \<Rightarrow> \<not> b \<ge> a | None \<Rightarrow> True"
    using False by (auto split: option.split dest!: balance_of_Some)
  ultimately show ?thesis by (auto simp: update_accounts_def split: option.splits)
qed

lemma add_statement:
  assumes "accounts_ok d" "storable a" "0 \<le> a"
  shows "update_accounts (\<lambda>r. ar_id r = i) (\<lambda>r. set_balance (ar_balance r + a) r) (t\<lparr>t_db := d\<rparr>)
       = (case balance_of d i of
            Some b \<Rightarrow> if b + a < 10 ^ 18 then Inr (1, change_balance i a d) else Inl ''22003''
          | None \<Rightarrow> Inr (0, d))"
proof (cases "\<exists>r\<in>set (accounts d). ar_id r = i")
  case True
  then obtain r where r: "r \<in> set (accounts d)" "ar_id r = i" by blast
  have b: "balance_of d i = Some (ar_balance r)" using balance_of_row [OF assms(1) r(1)] r(2) by simp
  have rb: "storable (ar_balance r)" "0 \<le> ar_balance r" using r(1) assms(1) by (auto simp: accounts_ok_def)
  from assms(1) have dist: "distinct (map ar_id (accounts d))" by (simp add: accounts_ok_def)
  note n = numeric_add_storable [OF rb(1) assms(2) rb(2) assms(3)]
  show ?thesis
  proof (cases "ar_balance r + a < 10 ^ 18")
    case True
    with n rb assms(3) have "set_balance (ar_balance r + a) r = Inr (r\<lparr>ar_balance := ar_balance r + a\<rparr>)"
      by (simp add: set_balance_def)
    with r True b update_accounts_one [of d r "\<lambda>r. ar_id r = i" "\<lambda>r. set_balance (ar_balance r + a) r" a t]
    show ?thesis using assms(1) by simp
  next
    case False
    with n have "set_balance (ar_balance r + a) r = Inl ''22003''" by (simp add: set_balance_def)
    then have "update_rows (\<lambda>r. ar_id r = i) (\<lambda>r. set_balance (ar_balance r + a) r) (accounts d) = Inl ''22003''"
      using update_rows_key [OF dist r(1)] r(2) by simp
    with False b show ?thesis by (simp add: update_accounts_def)
  qed
next
  case False
  then have "update_rows (\<lambda>r. ar_id r = i) f (accounts d) = Inr (accounts d, 0)" for f
    by (intro update_rows_none) blast
  moreover have "balance_of d i = None" using False by (simp add: balance_of_None account_exists_def)
  ultimately show ?thesis by (simp add: update_accounts_def)
qed

end
