(* ===== verification/Cache.thy ===== *)
theory Cache
  imports World
begin

text \<open>
  Package \<open>internal/infrastructure/cache\<close>: the client's side of the rate limiter and of the
  duplicate check (\<open>redis.go\<close>). A call to the server may fail with a fault of the
  environment; the script itself is \<open>rateLimitScript\<close> of \<open>Redis_Store\<close>.
\<close>

record redis_limits =
  rateLimitMin :: int
  rateLimitHour :: int
  rateLimitDay :: int

definition redis_call ::
  "env \<Rightarrow> (int \<Rightarrow> redis \<Rightarrow> (error, 'a) result \<times> redis) \<Rightarrow> ('z, 'a) io" where
  "redis_call env f w =
     (case e_redis_fault env (w_tick w) of
        Some m \<Rightarrow> (Inl (Plain m), tick w)
      | None \<Rightarrow> (case f (e_redis_now env (w_tick w)) (w_redis w) of
            (r, rd) \<Rightarrow> (r, (tick w)\<lparr>w_redis := rd\<rparr>)))"

definition rate_key :: "string \<Rightarrow> string \<Rightarrow> string" where
  "rate_key ident suffix = ''ratelimit:'' @ ident @ '':'' @ suffix"

text \<open>\<open>window\<close> is the duration in seconds; the clock is read twice, as in the code.\<close>

definition checkWindow :: "env \<Rightarrow> string \<Rightarrow> int \<Rightarrow> int \<Rightarrow> string \<Rightarrow> ('z, unit) io" where
  "checkWindow env ident limit window suffix w =
     (let key = rate_key ident suffix in
      case now_nano env w of (t1, w1) \<Rightarrow>
      case now_nano env w1 of (t2, w2) \<Rightarrow>
        (let now = time_unix t1; requestID = int_text now @ ''-'' @ int_text t2 in
         bindE (mapErr (Wrapped ''lua script'')
             (redis_call env (\<lambda>srv. rateLimitScript srv key now window limit requestID)))
           (\<lambda>allowed. if allowed = 0 then failE (Sentinel ErrRateLimited) else returnE ()) w2))"

definition CheckRateLimit :: "env \<Rightarrow> redis_limits \<Rightarrow> string \<Rightarrow> ('z, unit) io" where
  "CheckRateLimit env cfg ident =
     bindE (checkWindow env ident (rateLimitMin cfg) 60 ''min'') (\<lambda>_.
     bindE (checkWindow env ident (rateLimitHour cfg) 3600 ''hour'') (\<lambda>_.
     bindE (checkWindow env ident (rateLimitDay cfg) 86400 ''day'') (\<lambda>_.
     returnE ())))"

definition IdempotencyCheck :: "env \<Rightarrow> string \<Rightarrow> int \<Rightarrow> ('z, unit) io" where
  "IdempotencyCheck env key ttl =
     bindE (redis_call env (\<lambda>srv rd. (case setnx srv key ttl rd of (b, rd') \<Rightarrow> (Inr b, rd'))))
       (\<lambda>ok. if \<not> ok then failE (Sentinel ErrDuplicateRequest) else returnE ())"

section \<open>What the cache leaves alone\<close>

definition same_sql :: "'z world_scheme \<Rightarrow> 'z world_scheme \<Rightarrow> bool" where
  "same_sql w w' \<longleftrightarrow> w_db w' = w_db w \<and> w_tx w' = w_tx w"

lemma same_sql_refl_trans [inv_intros]: "reflp same_sql" "transp same_sql"
  by (auto simp: same_sql_def reflp_def transp_def)

lemma stays_redis_call [inv_intros]: "stays same_sql (redis_call env f)"
  by (auto intro!: staysI simp: redis_call_def same_sql_def split: option.split prod.split)

lemma stays_now_nano: "same_sql w (snd (now_nano env w))"
  by (simp add: now_nano_def same_sql_def)

lemma stays_checkWindow [inv_intros]: "stays same_sql (checkWindow env ident limit window suffix)"
proof (rule staysI)
  fix w :: "'z world_scheme"
  let ?body = "\<lambda>now requestID. bindE (mapErr (Wrapped ''lua script'') (redis_call env
      (\<lambda>srv. rateLimitScript srv (rate_key ident suffix) now window limit requestID)))
    (\<lambda>allowed. if allowed = 0 then failE (Sentinel ErrRateLimited) else returnE ())
      :: ('z, unit) io"
  have "stays same_sql (?body now requestID)" for now requestID
    by (intro inv_intros)
  then have "same_sql (tick (tick w)) (snd (?body now requestID (tick (tick w))))" for now requestID
    by (simp add: stays_def)
  then show "same_sql w (snd (checkWindow env ident limit window suffix w))"
    by (simp add: checkWindow_def now_nano_def Let_def same_sql_def)
qed

lemma stays_CheckRateLimit [inv_intros]: "stays same_sql (CheckRateLimit env cfg ident)"
  unfolding CheckRateLimit_def by (intro inv_intros)

lemma stays_IdempotencyCheck [inv_intros]: "stays same_sql (IdempotencyCheck env key ttl)"
  unfolding IdempotencyCheck_def by (intro inv_intros)

section \<open>A fresh limiter\<close>

lemma rate_key_inj: "rate_key i s = rate_key i s' \<longleftrightarrow> s = s'"
  by (simp add: rate_key_def)

text \<open>A window no call has been recorded in admits the next one, if its limit is positive.\<close>

lemma checkWindow_fresh:
  assumes "\<And>n. e_redis_fault env n = None" "w_redis w (rate_key i suffix) = None" "0 < limit"
  shows "\<exists>e w'. checkWindow env i limit window suffix w = (Inr (), w')
    \<and> w_redis w' = (w_redis w)(rate_key i suffix := Some e)"
  using assms
  by (simp add: checkWindow_def now_nano_def bindE_def mapErr_def redis_call_def Let_def rateLimitScript_def
    redis_get_def zset_of_def put_zset_def zremrangebyscore_def zadd_def) blast

lemma CheckRateLimit_fresh:
  fixes w :: "'z world_scheme"
  assumes "\<And>n. e_redis_fault env n = None" "\<And>s. w_redis w (rate_key i s) = None"
    "0 < rateLimitMin cfg" "0 < rateLimitHour cfg" "0 < rateLimitDay cfg"
  shows "fst (CheckRateLimit env cfg i w) = Inr ()"
proof -
  from checkWindow_fresh [OF assms(1,2,3), of 60 "''min''"] obtain e1 w1 where
    1: "checkWindow env i (rateLimitMin cfg) 60 ''min'' w = (Inr (), w1)"
       "w_redis w1 = (w_redis w)(rate_key i ''min'' := Some e1)" by blast
  have "w_redis w1 (rate_key i ''hour'') = None" using 1(2) assms(2) by (simp add: rate_key_inj)
  from checkWindow_fresh [OF assms(1) this assms(4), of 3600] obtain e2 w2 where
    2: "checkWindow env i (rateLimitHour cfg) 3600 ''hour'' w1 = (Inr (), w2)"
       "w_redis w2 = (w_redis w1)(rate_key i ''hour'' := Some e2)" by blast
  have "w_redis w2 (rate_key i ''day'') = None" using 1(2) 2(2) assms(2) by (simp add: rate_key_inj)
  from checkWindow_fresh [OF assms(1) this assms(5), of 86400] obtain w3 where
    "checkWindow env i (rateLimitDay cfg) 86400 ''day'' w2 = (Inr (), w3)" by blast
  with 1(1) 2(1) show ?thesis by (simp add: CheckRateLimit_def bindE_def)
qed

end
