(* ===== verification/Sha256.thy ===== *)
theory Sha256
  imports Prelude
begin

text \<open>
  \<open>crypto/sha256\<close> and \<open>encoding/hex\<close> of the Go standard library, as the services use them
  (\<open>sha256.Sum256\<close>, \<open>hex.EncodeToString\<close>): the function of FIPS 180-4, its 32-bit words as
  integers kept below \<open>2 ^ 32\<close> by \<open>low32\<close>. It is executable; what the proofs need of it is that the digest has 32 bytes and its
  hexadecimal text 64 characters. That two given payloads do not collide is a hypothesis of
  the theorems that need it, never an axiom about the function.
\<close>

unbundle bit_operations_syntax

type_synonym word32 = int  \<comment> \<open>between 0 and \<open>2 ^ 32\<close>\<close>

definition low32 :: "int \<Rightarrow> word32" where
  "low32 x = (x AND 0xFFFFFFFF)"

text \<open>The round constants and the initial hash value, in decimal.\<close>

definition sha_K :: "word32 list" where
  "sha_K = [
   1116352408, 1899447441, 3049323471, 3921009573, 961987163, 1508970993, 2453635748, 2870763221,
   3624381080, 310598401, 607225278, 1426881987, 1925078388, 2162078206, 2614888103, 3248222580,
   3835390401, 4022224774, 264347078, 604807628, 770255983, 1249150122, 1555081692, 1996064986,
   2554220882, 2821834349, 2952996808, 3210313671, 3336571891, 3584528711, 113926993, 338241895,
   666307205, 773529912, 1294757372, 1396182291, 1695183700, 1986661051, 2177026350, 2456956037,
   2730485921, 2820302411, 3259730800, 3345764771, 3516065817, 3600352804, 4094571909, 275423344,
   430227734, 506948616, 659060556, 883997877, 958139571, 1322822218, 1537002063, 1747873779,
   1955562222, 2024104815, 2227730452, 2361852424, 2428436474, 2756734187, 3204031479, 3329325298]"

definition sha_init :: "word32 list" where
  "sha_init = [1779033703, 3144134277, 1013904242, 2773480762, 1359893119, 2600822924, 528734635, 1541459225]"

definition rotr :: "nat \<Rightarrow> word32 \<Rightarrow> word32" where
  "rotr n x = (drop_bit n x OR low32 (push_bit (32 - n) x))"

text \<open>The message is padded with one bit, zeros and its length in bits to whole blocks.\<close>

definition be_bytes :: "nat \<Rightarrow> int \<Rightarrow> int list" where
  "be_bytes n x = map (\<lambda>i. (x div 256 ^ (n - 1 - i)) mod 256) [0..<n]"

definition sha_pad :: "string \<Rightarrow> int list" where
  "sha_pad s = (let n = length s in
     map of_char s @ [128] @ replicate ((119 - n mod 64) mod 64) 0 @ be_bytes 8 (8 * int n))"

fun be_words :: "int list \<Rightarrow> word32 list" where
  "be_words (a # b # c # d # bs) = (((a * 256 + b) * 256 + c) * 256 + d) # be_words bs"
| "be_words _ = []"

text \<open>The message schedule, newest word first, extended by one word a step.\<close>

definition sha_next :: "word32 list \<Rightarrow> word32" where
  "sha_next ws =
     (let x15 = ws ! 14; x2 = ws ! 1;
          s0 = rotr 7 x15 XOR rotr 18 x15 XOR drop_bit 3 x15;
          s1 = rotr 17 x2 XOR rotr 19 x2 XOR drop_bit 10 x2
      in low32 (ws ! 15 + s0 + ws ! 6 + s1))"

fun sha_extend :: "nat \<Rightarrow> word32 list \<Rightarrow> word32 list" where
  "sha_extend 0 ws = ws"
| "sha_extend (Suc n) ws = sha_extend n (sha_next ws # ws)"

definition sha_schedule :: "word32 list \<Rightarrow> word32 list" where
  "sha_schedule block = rev (sha_extend 48 (rev block))"

text \<open>One round on the eight working variables.\<close>

fun sha_round :: "word32 \<Rightarrow> word32 \<Rightarrow> word32 list \<Rightarrow> word32 list" where
  "sha_round k w [a, b, c, d, e, f, g, h] =
     (let s1 = rotr 6 e XOR rotr 11 e XOR rotr 25 e;
          ch = (e AND f) XOR ((0xFFFFFFFF XOR e) AND g);
          t1 = low32 (h + s1 + ch + k + w);
          s0 = rotr 2 a XOR rotr 13 a XOR rotr 22 a;
          maj = (a AND b) XOR (a AND c) XOR (b AND c);
          t2 = low32 (s0 + maj)
      in [low32 (t1 + t2), a, b, c, low32 (d + t1), e, f, g])"
| "sha_round k w vs = vs"

definition sha_block :: "word32 list \<Rightarrow> word32 list \<Rightarrow> word32 list" where
  "sha_block hs block =
     map2 (\<lambda>x y. low32 (x + y)) hs (fold (\<lambda>(k, w). sha_round k w) (zip sha_K (sha_schedule block)) hs)"

function sha_blocks :: "word32 list \<Rightarrow> word32 list \<Rightarrow> word32 list" where
  "sha_blocks hs ws = (if ws = [] then hs else sha_blocks (sha_block hs (take 16 ws)) (drop 16 ws))"
  by pat_completeness auto
termination by (relation "measure (\<lambda>(hs, ws). length ws)") auto

declare sha_blocks.simps [simp del]

definition word_bytes :: "word32 \<Rightarrow> string" where
  "word_bytes w = map char_of (be_bytes 4 w)"

definition sha256_Sum256 :: "string \<Rightarrow> string" where
  "sha256_Sum256 s = concat (map word_bytes (sha_blocks sha_init (be_words (sha_pad s))))"

section \<open>The length of the digest\<close>

lemma length_sha_round [simp]: "length (sha_round k w vs) = length vs"
  by (induction k w vs rule: sha_round.induct) (simp_all add: Let_def)

lemma length_sha_fold: "length (fold (\<lambda>(k, w). sha_round k w) xs hs) = length hs"
  by (induction xs arbitrary: hs) (auto simp: split_beta)

lemma length_sha_blocks: "length (sha_blocks hs ws) = length hs"
proof (induction hs ws rule: sha_blocks.induct)
  case (1 hs ws)
  then show ?case
    by (subst sha_blocks.simps) (simp add: sha_block_def length_sha_fold)
qed

lemma length_word_bytes: "length (word_bytes w) = 4"
  by (simp add: word_bytes_def be_bytes_def)

lemma length_Sum256: "length (sha256_Sum256 s) = 32"
  by (simp add: sha256_Sum256_def length_concat comp_def length_word_bytes sum_list_triv
    length_sha_blocks sha_init_def)

section \<open>Hexadecimal text\<close>

definition hex_digit :: "int \<Rightarrow> char" where
  "hex_digit n = (if n < 10 then char_of (48 + n) else char_of (87 + n))"

definition hex_byte :: "char \<Rightarrow> string" where
  "hex_byte c = [hex_digit (of_char c div 16), hex_digit (of_char c mod 16)]"

definition hex_EncodeToString :: "string \<Rightarrow> string" where
  "hex_EncodeToString s = concat (map hex_byte s)"

lemma of_hex_digit:
  "0 \<le> k \<Longrightarrow> k < 16 \<Longrightarrow> (of_char (hex_digit k) :: int) = (if k < 10 then 48 + k else 87 + k)"
  by (simp add: hex_digit_def)

lemma hex_digit_inj:
  assumes "0 \<le> m" "m < 16" "0 \<le> n" "n < 16" "hex_digit m = hex_digit n"
  shows "m = n"
proof -
  from assms have "(if m < 10 then 48 + m else 87 + m) = (if n < 10 then 48 + n else 87 + n)"
    by (metis of_hex_digit)
  with assms show ?thesis by (auto split: if_splits)
qed

lemma of_char_range: "0 \<le> (of_char c :: int)" "(of_char c :: int) < 256"
proof -
  have "(of_char c :: int) = of_char c mod 256" by simp
  then show "0 \<le> (of_char c :: int)" "(of_char c :: int) < 256"
    by (metis pos_mod_sign pos_mod_bound zero_less_numeral)+
qed

lemma hex_byte_inj:
  assumes "hex_byte c = hex_byte d"
  shows "c = d"
proof -
  have r: "0 \<le> (of_char x :: int) div 16" "(of_char x :: int) div 16 < 16" for x
    using of_char_range [of x] by (simp_all add: div_int_pos_iff)
  from assms have "(of_char c :: int) div 16 = of_char d div 16" "(of_char c :: int) mod 16 = of_char d mod 16"
    by (auto simp: hex_byte_def intro!: hex_digit_inj r)
  then have "(of_char c :: int) = of_char d" by (metis div_mult_mod_eq)
  then show ?thesis by simp
qed

lemma hex_inj: "hex_EncodeToString s = hex_EncodeToString t \<longleftrightarrow> s = t"
proof
  show "hex_EncodeToString s = hex_EncodeToString t \<Longrightarrow> s = t"
  proof (induction s arbitrary: t)
    case Nil
    then show ?case by (cases t) (simp_all add: hex_EncodeToString_def hex_byte_def)
  next
    case (Cons c s)
    then obtain d u where t: "t = d # u"
      by (cases t) (simp_all add: hex_EncodeToString_def hex_byte_def)
    with Cons.prems have "hex_byte c = hex_byte d" "hex_EncodeToString s = hex_EncodeToString u"
      by (simp_all add: hex_EncodeToString_def hex_byte_def)
    with Cons.IH t show ?case by (auto dest: hex_byte_inj)
  qed
qed simp

lemma length_hex: "length (hex_EncodeToString s) = 2 * length s"
  by (induction s) (simp_all add: hex_EncodeToString_def hex_byte_def)

text \<open>The test vector of the standard.\<close>

lemma sha256_abc: "hex_EncodeToString (sha256_Sum256 ''abc'')
    = ''ba7816bf8f01cfea414140de5dae2223b00361a396177a9cb410ff61f20015ad''"
  by code_simp

end
