(* ===== verification/Transfers.thy ===== *)
theory Transfers
  imports Storage Cache Sha256
begin

text \<open>
  Package \<open>internal/usecase\<close>, \<open>transactions.go\<close>: the transfer of money. \<open>transferAttempt\<close> is
  one SQL transaction (lock, idempotency key, rate limit, balances, row, commit), \<open>Transfer\<close>
  the validation and the retry loop around it. The flag \<open>rateLimitChecked\<close>, which the code
  passes by pointer, is a field that extends the state for the length of one call. Logging is
  left out; a delay is a call that either ends the context or lets the timer fire.
\<close>

definition transferOperationVersion :: string where
  "transferOperationVersion = ''transfer:v1''"

definition transferMaxAttempts :: int where "transferMaxAttempts = 3"
definition moneyPrecision :: int where "moneyPrecision = 36"
definition moneyScale :: int where "moneyScale = 18"

record transferCommand =
  c_SenderID :: uuid
  c_ReceiverID :: uuid
  c_Key :: string
  c_Amount :: decimal
  c_RequestFingerprint :: string

record transfer_world = world +
  rateLimitChecked :: bool

section \<open>The fingerprint of a request\<close>

definition transferPayload :: "env \<Rightarrow> transferCommand \<Rightarrow> string" where
  "transferPayload env cmd =
     transferOperationVersion @ [CHR 0x00] @ e_uuid_text env (c_SenderID cmd) @ [CHR 0x00] @
     e_uuid_text env (c_ReceiverID cmd) @ [CHR 0x00] @ decString (c_Amount cmd)"

definition transferFingerprint :: "env \<Rightarrow> transferCommand \<Rightarrow> string" where
  "transferFingerprint env cmd = hex_EncodeToString (sha256_Sum256 (transferPayload env cmd))"

section \<open>One attempt\<close>

definition isRetryablePostgresError :: "error \<Rightarrow> bool" where
  "isRetryablePostgresError err =
     (case errors_as_pg err of None \<Rightarrow> False
      | Some code \<Rightarrow> code = ''40001'' \<or> code = ''40P01'')"

definition resolveIdempotency :: "env \<Rightarrow> transferCommand \<Rightarrow> ('z, uuid option) io" where
  "resolveIdempotency env cmd =
     (let record = \<lparr>ti_SenderID = c_SenderID cmd, ti_Key = c_Key cmd,
            ti_RequestFingerprint = c_RequestFingerprint cmd, ti_Status = [],
            ti_TransactionID = None, ti_CreatedAt = zero_time, ti_UpdatedAt = zero_time\<rparr>
      in bindE (tx_TryCreateIdempotency env record) (\<lambda>created.
         if created then returnE None
         else bindE (tx_GetIdempotency env (c_SenderID cmd) (c_Key cmd)) (\<lambda>existing.
           if ti_RequestFingerprint existing \<noteq> c_RequestFingerprint cmd
           then failE (Sentinel ErrIdempotencyConflict)
           else if ti_Status existing \<noteq> IdempotencyStatusCompleted
                   \<or> ti_TransactionID existing = None
           then failE (Sentinel ErrIdempotencyInProgress)
           else returnE (ti_TransactionID existing))))"

definition executeTransfer :: "env \<Rightarrow> transferCommand \<Rightarrow> ('z, transaction) io" where
  "executeTransfer env cmd =
     bindE (acc_Sub env (c_SenderID cmd) (c_Amount cmd)) (\<lambda>_.
     bindE (acc_Add env (c_ReceiverID cmd) (c_Amount cmd)) (\<lambda>_.
     bindE (bindE (\<lambda>w. case new_uuid env w of (g, w') \<Rightarrow> (Inr g, w'))
              (\<lambda>gen. liftR (NewTransaction gen (c_Amount cmd) (c_SenderID cmd) (c_ReceiverID cmd))))
       (\<lambda>tx.
     bindE (tx_Transaction env tx) (\<lambda>tx.
     bindE (tx_UpdateStatus env tx StatusCompleted) (\<lambda>tx.
     returnE tx)))))"

definition checkRateOnce :: "env \<Rightarrow> redis_limits \<Rightarrow> transferCommand \<Rightarrow> (transfer_world, error, unit) go" where
  "checkRateOnce env cfg cmd w =
     (if \<not> rateLimitChecked w then
        bindE (CheckRateLimit env cfg (e_uuid_text env (c_SenderID cmd)))
          (\<lambda>_ w'. (Inr (), w'\<lparr>rateLimitChecked := True\<rparr>)) w
      else (Inr (), w))"

definition transferAttempt ::
  "env \<Rightarrow> redis_limits \<Rightarrow> transferCommand \<Rightarrow> (transfer_world, error, string) go" where
  "transferAttempt env cfg cmd =
     with_tx env (\<lambda>e. e)
       (if c_SenderID cmd = c_ReceiverID cmd then failE (Sentinel ErrSameAccount)
        else bindE (acc_LockForTransfer env (c_SenderID cmd) (c_ReceiverID cmd)) (\<lambda>_.
             bindE (resolveIdempotency env cmd) (\<lambda>replayID.
               case replayID of
                 Some i \<Rightarrow> returnE (e_uuid_text env i)
               | None \<Rightarrow>
                   bindE (checkRateOnce env cfg cmd) (\<lambda>_.
                   bindE (executeTransfer env cmd) (\<lambda>tx.
                   bindE (tx_CompleteIdempotency env (c_SenderID cmd) (c_Key cmd) (tx_ID tx)) (\<lambda>_.
                   bindE (Commit env) (\<lambda>_.
                   returnE (e_uuid_text env (tx_ID tx)))))))))"

section \<open>The retry loop\<close>

function transferLoop ::
  "env \<Rightarrow> redis_limits \<Rightarrow> transferCommand \<Rightarrow> int \<Rightarrow> (transfer_world, error, string) go" where
  "transferLoop env cfg cmd attempt w =
     (if attempt \<le> transferMaxAttempts then
        (case transferAttempt env cfg cmd w of
           (Inr transactionID, w1) \<Rightarrow> (Inr transactionID, w1)
         | (Inl err, w1) \<Rightarrow>
             if \<not> isRetryablePostgresError err \<or> attempt = transferMaxAttempts then (Inl err, w1)
             else if e_done env (w_tick w1) then (Inl Ctx, tick w1)
             else transferLoop env cfg cmd (attempt + 1) (tick w1))
      else (Inl (Plain ''transfer retry loop exhausted''), w))"
  by pat_completeness auto
termination
  by (relation "measure (\<lambda>(env, cfg, cmd, attempt, w). nat (transferMaxAttempts + 1 - attempt))")
    (auto simp: transferMaxAttempts_def)

declare transferLoop.simps [simp del]

definition enter_transfer :: "world \<Rightarrow> transfer_world" where
  "enter_transfer w = \<lparr>w_db = w_db w, w_tx = w_tx w, w_redis = w_redis w, w_tick = w_tick w,
     rateLimitChecked = False\<rparr>"

definition leave_transfer :: "transfer_world \<Rightarrow> world" where
  "leave_transfer w = \<lparr>w_db = w_db w, w_tx = w_tx w, w_redis = w_redis w, w_tick = w_tick w\<rparr>"

definition transferCommandOf :: "env \<Rightarrow> uuid \<Rightarrow> uuid \<Rightarrow> string \<Rightarrow> decimal \<Rightarrow> transferCommand" where
  "transferCommandOf env sender_id receiver_id key amount =
     (let command = \<lparr>c_SenderID = sender_id, c_ReceiverID = receiver_id, c_Key = key,
            c_Amount = amount, c_RequestFingerprint = []\<rparr>
      in command\<lparr>c_RequestFingerprint := transferFingerprint env command\<rparr>)"

definition Transfer ::
  "env \<Rightarrow> redis_limits \<Rightarrow> uuid \<Rightarrow> uuid \<Rightarrow> string \<Rightarrow> decimal \<Rightarrow> (world, error, string) go" where
  "Transfer env cfg sender_id receiver_id key amount w =
     (case ValidateIdempotencyKey key of
        Some err \<Rightarrow> (Inl err, w)
      | None \<Rightarrow>
          if \<not> IsPositive amount \<or> \<not> FitsNumeric amount moneyPrecision moneyScale
          then (Inl (Sentinel ErrInvalidAmount), w)
          else (case transferLoop env cfg (transferCommandOf env sender_id receiver_id key amount) 1
                       (enter_transfer w) of
                  (r, w') \<Rightarrow> (r, leave_transfer w')))"

end
