(* ===== verification/Transfer_Spec.thy ===== *)
theory Transfer_Spec
  imports Ledger Transfers
begin

text \<open>
  What one committed transfer does to the tables, and that the invariant survives it:
  \<open>apply_transfer\<close> is the abstract specification that \<open>Transfer_Props\<close> proves
  \<open>transferAttempt\<close> and \<open>Transfer\<close> to implement.
\<close>

abbreviation amt :: "transferCommand \<Rightarrow> rat" where
  "amt cmd \<equiv> dec_rat (c_Amount cmd)"

definition command_ok :: "transferCommand \<Rightarrow> bool" where
  "command_ok cmd \<longleftrightarrow> storable (amt cmd) \<and> 0 < amt cmd \<and> length (c_RequestFingerprint cmd) = 64"

definition find_idem :: "database \<Rightarrow> uuid \<Rightarrow> string \<Rightarrow> idem_row option" where
  "find_idem d s k = find_row (\<lambda>r. ir_sender r = s \<and> ir_key r = k) (idempotency d)"

definition transfer_row :: "transferCommand \<Rightarrow> uuid \<Rightarrow> time \<Rightarrow> string \<Rightarrow> tx_row" where
  "transfer_row cmd i now st = \<lparr>tr_id = i, tr_amount = amt cmd, tr_sender = c_SenderID cmd,
     tr_receiver = c_ReceiverID cmd, tr_status = st, tr_created_at = now\<rparr>"

definition transfer_record :: "transferCommand \<Rightarrow> time \<Rightarrow> string \<Rightarrow> uuid option \<Rightarrow> idem_row" where
  "transfer_record cmd now st i = \<lparr>ir_sender = c_SenderID cmd, ir_key = c_Key cmd,
     ir_fingerprint = c_RequestFingerprint cmd, ir_status = st, ir_tx = i,
     ir_created_at = now, ir_updated_at = now\<rparr>"

definition move_money :: "uuid \<Rightarrow> uuid \<Rightarrow> rat \<Rightarrow> database \<Rightarrow> database" where
  "move_money s r a d = change_balance r a (change_balance s (- a) d)"

definition apply_transfer :: "transferCommand \<Rightarrow> uuid \<Rightarrow> time \<Rightarrow> database \<Rightarrow> database" where
  "apply_transfer cmd i now d =
     (move_money (c_SenderID cmd) (c_ReceiverID cmd) (amt cmd) d)
       \<lparr>transactions := transactions d @ [transfer_row cmd i now StatusCompleted],
        idempotency := idempotency d @ [transfer_record cmd now ''completed'' (Some i)]\<rparr>"

text \<open>When the tables admit the transfer under the fresh transaction id \<open>i\<close>.\<close>

definition transfer_enabled :: "transferCommand \<Rightarrow> uuid \<Rightarrow> database \<Rightarrow> bool" where
  "transfer_enabled cmd i d \<longleftrightarrow>
     c_SenderID cmd \<noteq> c_ReceiverID cmd \<and> length (c_Key cmd) \<le> 128
     \<and> find_idem d (c_SenderID cmd) (c_Key cmd) = None
     \<and> (case balance_of d (c_SenderID cmd) of None \<Rightarrow> False | Some b \<Rightarrow> amt cmd \<le> b)
     \<and> (case balance_of d (c_ReceiverID cmd) of None \<Rightarrow> False | Some b \<Rightarrow> b + amt cmd < 10 ^ 18)
     \<and> i \<notin> set (map tr_id (transactions d))"

section \<open>The statements of a transfer, in their order\<close>

definition db_reserved :: "transferCommand \<Rightarrow> time \<Rightarrow> database \<Rightarrow> database" where
  "db_reserved cmd now d =
     d\<lparr>idempotency := idempotency d @ [transfer_record cmd now ''processing'' None]\<rparr>"

definition db_booked :: "transferCommand \<Rightarrow> uuid \<Rightarrow> time \<Rightarrow> string \<Rightarrow> database \<Rightarrow> database" where
  "db_booked cmd i now st d = d\<lparr>transactions := transactions d @ [transfer_row cmd i now st]\<rparr>"

lemma find_idem_None:
  "find_idem d s k = None \<longleftrightarrow> (\<forall>r\<in>set (idempotency d). \<not> (ir_sender r = s \<and> ir_key r = k))"
  by (simp add: find_idem_def find_row_None)

lemma reserve_statement:
  assumes "command_ok cmd" "length (c_Key cmd) \<le> 128" "ti_SenderID rec = c_SenderID cmd"
    "ti_Key rec = c_Key cmd" "ti_RequestFingerprint rec = c_RequestFingerprint cmd"
  shows "insert_idempotency rec t =
     (if find_idem (t_db t) (c_SenderID cmd) (c_Key cmd) \<noteq> None then Inr (None, t_db t)
      else if \<not> account_exists (t_db t) (c_SenderID cmd) then Inl ''23503''
      else Inr (Some (''processing'', t_now t, t_now t), db_reserved cmd (t_now t) (t_db t)))"
proof -
  have "(find_idem (t_db t) (c_SenderID cmd) (c_Key cmd) \<noteq> None) =
    (\<exists>r\<in>set (idempotency (t_db t)). ir_sender r = c_SenderID cmd \<and> ir_key r = c_Key cmd)"
    by (auto simp: find_idem_None)
  then show ?thesis
    using assms by (simp add: insert_idempotency_def Let_def command_ok_def db_reserved_def
      transfer_record_def pad64_def)
qed

lemma book_statement:
  assumes "command_ok cmd" "tx_ID x = i" "tx_Amount x = c_Amount cmd"
    "tx_Sender_id x = c_SenderID cmd" "tx_Receiver_id x = c_ReceiverID cmd"
    "c_SenderID cmd \<noteq> c_ReceiverID cmd"
    "account_exists (t_db t) (c_SenderID cmd)" "account_exists (t_db t) (c_ReceiverID cmd)"
  shows "insert_transaction x t =
     (if i \<in> set (map tr_id (transactions (t_db t))) then Inl ''23505''
      else Inr ((StatusPending, t_now t), db_booked cmd i (t_now t) StatusPending (t_db t)))"
proof -
  have "numeric_36_18 (amt cmd) = Inr (amt cmd)" "0 < amt cmd"
    using assms(1) by (simp_all add: command_ok_def storable_def)
  moreover have "(\<exists>r\<in>set (transactions (t_db t)). tr_id r = i) \<longleftrightarrow> i \<in> set (map tr_id (transactions (t_db t)))"
    by auto
  ultimately show ?thesis
    using assms by (simp add: insert_transaction_def Let_def db_booked_def transfer_row_def)
qed

lemma update_rows_app:
  "\<forall>r\<in>set t. \<not> P r \<Longrightarrow> update_rows P f (t @ u) =
     (case update_rows P f u of Inl e \<Rightarrow> Inl e | Inr (rs, n) \<Rightarrow> Inr (t @ rs, n))"
  by (induction t) (auto split: sum.split)

lemma find_row_app: "\<forall>r\<in>set t. \<not> P r \<Longrightarrow> find_row P (t @ u) = find_row P u"
  by (induction t) (auto simp: find_row_def)

lemma complete_statement_status:
  assumes "i \<notin> set (map tr_id (transactions d))" "t_db t = db_booked cmd i now StatusPending d"
  shows "update_status i StatusCompleted t =
    Inr (Some (StatusCompleted, now), db_booked cmd i now StatusCompleted d)"
proof -
  from assms(1) have n: "\<forall>r\<in>set (transactions d). \<not> tr_id r = i" by auto
  show ?thesis
    using update_rows_app [OF n] find_row_app [OF n] assms(2)
    by (simp add: update_status_def db_booked_def transfer_row_def status_allowed_def find_row_def)
qed

lemma complete_statement_record:
  assumes "find_idem d (c_SenderID cmd) (c_Key cmd) = None"
    and "idempotency (t_db t) = idempotency d @ [transfer_record cmd now ''processing'' None]"
    and "\<forall>x\<in>set (idempotency d). ir_tx x \<noteq> Some i" "\<exists>x\<in>set (transactions (t_db t)). tr_id x = i"
    and "t_now t = now"
  shows "complete_idempotency (c_SenderID cmd) (c_Key cmd) i t =
    Inr (1, (t_db t)\<lparr>idempotency := idempotency d @ [transfer_record cmd now ''completed'' (Some i)]\<rparr>)"
proof -
  let ?P = "\<lambda>r. ir_sender r = c_SenderID cmd \<and> ir_key r = c_Key cmd \<and> ir_status r = ''processing''"
  have n: "\<forall>r\<in>set (idempotency d). \<not> ?P r" using assms(1) by (auto simp: find_idem_None)
  have "complete_row i now (t_db t) (transfer_record cmd now ''processing'' None)
      = Inr (transfer_record cmd now ''completed'' (Some i))"
    using assms(2-4) by (auto simp: complete_row_def transfer_record_def)
  then show ?thesis
    using update_rows_app [OF n] assms(2,5)
    by (simp add: complete_idempotency_def) (simp add: transfer_record_def)
qed

section \<open>The invariant survives a transfer\<close>

lemma account_exists_balance: "account_exists d i \<longleftrightarrow> balance_of d i \<noteq> None"
  by (simp add: balance_of_None)

lemma account_exists_move [simp]: "account_exists (move_money s r a d) j = account_exists d j"
  by (simp add: move_money_def)

lemma apply_transfer_accounts [simp]:
  "accounts (apply_transfer cmd i now d) =
     accounts (move_money (c_SenderID cmd) (c_ReceiverID cmd) (amt cmd) d)"
  "tokens (apply_transfer cmd i now d) = tokens d"
  by (simp_all add: apply_transfer_def move_money_def)

lemma account_exists_apply [simp]:
  "account_exists (apply_transfer cmd i now d) j = account_exists d j"
proof -
  have "account_exists (apply_transfer cmd i now d) j = account_exists (move_money (c_SenderID cmd) (c_ReceiverID cmd) (amt cmd) d) j"
    by (simp only: account_exists_def apply_transfer_accounts)
  then show ?thesis by (simp add: move_money_def)
qed

lemma balance_of_apply:
  "balance_of (apply_transfer cmd i now d) j =
     balance_of (move_money (c_SenderID cmd) (c_ReceiverID cmd) (amt cmd) d) j"
  by (simp only: balance_of_def apply_transfer_accounts)

text \<open>The balances after the transfer: the sender's less, the receiver's more, no other changed.\<close>

lemma balance_after:
  assumes "c_SenderID cmd \<noteq> c_ReceiverID cmd"
  shows "balance_of (apply_transfer cmd i now d) j =
     (if j = c_SenderID cmd then map_option (\<lambda>b. b - amt cmd) (balance_of d j)
      else if j = c_ReceiverID cmd then map_option (\<lambda>b. b + amt cmd) (balance_of d j)
      else balance_of d j)"
  using assms by (simp add: balance_of_apply move_money_def balance_change)

lemma accounts_ok_debit:
  assumes "accounts_ok d" "command_ok cmd" "balance_of d s = Some b" "amt cmd \<le> b"
  shows "accounts_ok (change_balance s (- amt cmd) d)"
  using assms balance_range [OF assms(1,3)] storable_diff [of b "amt cmd"]
  by (intro accounts_ok_change) (auto simp: command_ok_def)

lemma accounts_ok_credit:
  assumes "accounts_ok d" "command_ok cmd" "balance_of d r = Some b" "b + amt cmd < 10 ^ 18"
  shows "accounts_ok (change_balance r (amt cmd) d)"
  using assms balance_range [OF assms(1,3)] storable_add_integral [of b "amt cmd"]
  by (intro accounts_ok_change) (auto simp: command_ok_def)

lemma enabledE:
  assumes "transfer_enabled cmd i d"
  obtains bs br where "balance_of d (c_SenderID cmd) = Some bs" "amt cmd \<le> bs"
    "balance_of d (c_ReceiverID cmd) = Some br" "br + amt cmd < 10 ^ 18"
    "c_SenderID cmd \<noteq> c_ReceiverID cmd" "i \<notin> set (map tr_id (transactions d))"
    "find_idem d (c_SenderID cmd) (c_Key cmd) = None" "length (c_Key cmd) \<le> 128"
  using assms unfolding transfer_enabled_def by (auto split: option.splits)

lemma accounts_ok_move:
  assumes "accounts_ok d" "command_ok cmd" "transfer_enabled cmd i d"
  shows "accounts_ok (move_money (c_SenderID cmd) (c_ReceiverID cmd) (amt cmd) d)"
proof -
  from assms(3) obtain bs br where e: "balance_of d (c_SenderID cmd) = Some bs" "amt cmd \<le> bs"
    "balance_of d (c_ReceiverID cmd) = Some br" "br + amt cmd < 10 ^ 18" "c_SenderID cmd \<noteq> c_ReceiverID cmd"
    by (rule enabledE)
  have "accounts_ok (change_balance (c_SenderID cmd) (- amt cmd) d)"
    using assms(1,2) e(1,2) by (rule accounts_ok_debit)
  moreover have "balance_of (change_balance (c_SenderID cmd) (- amt cmd) d) (c_ReceiverID cmd) = Some br"
    using e by (simp add: balance_change)
  ultimately show ?thesis
    unfolding move_money_def using assms(2) e(4) by (intro accounts_ok_credit)
qed

lemma idem_names_tx:
  assumes "db_inv d" "r \<in> set (idempotency d)"
  shows "\<exists>i. ir_tx r = Some i \<and> i \<in> set (map tr_id (transactions d)) \<and> ir_status r = ''completed''"
proof -
  from assms have "idem_row_ok d r" by (simp add: db_inv_def idempotency_ok_def)
  then show ?thesis by (auto simp: idem_row_ok_def split: option.splits)
qed

lemma db_inv_apply:
  assumes "db_inv d" "command_ok cmd" "transfer_enabled cmd i d"
  shows "db_inv (apply_transfer cmd i now d)"
proof -
  let ?d = "apply_transfer cmd i now d"
  from assms(3) obtain bs br where e: "balance_of d (c_SenderID cmd) = Some bs"
    "balance_of d (c_ReceiverID cmd) = Some br" "c_SenderID cmd \<noteq> c_ReceiverID cmd"
    "i \<notin> set (map tr_id (transactions d))" "find_idem d (c_SenderID cmd) (c_Key cmd) = None"
    by (rule enabledE)
  have ex: "account_exists d (c_SenderID cmd)" "account_exists d (c_ReceiverID cmd)"
    using e by (simp_all add: account_exists_balance)
  have t: "transactions ?d = transactions d @ [transfer_row cmd i now StatusCompleted]"
    and k: "idempotency ?d = idempotency d @ [transfer_record cmd now ''completed'' (Some i)]"
    by (simp_all add: apply_transfer_def)
  have acc: "accounts_ok ?d"
    using accounts_ok_move [OF _ assms(2,3)] assms(1)
    unfolding db_inv_def accounts_ok_def apply_transfer_accounts by blast
  have "tx_row_ok ?d r = tx_row_ok d r" for r by (simp add: tx_row_ok_def)
  moreover have "tx_row_ok d (transfer_row cmd i now StatusCompleted)"
    using ex e(3) assms(2) by (simp add: tx_row_ok_def transfer_row_def command_ok_def status_allowed_def)
  ultimately have txs: "transactions_ok ?d"
    using assms(1) e(4) unfolding db_inv_def transactions_ok_def t by (auto simp: transfer_row_def)
  have toks: "tokens_ok ?d" using assms(1) by (simp add: db_inv_def tokens_ok_def)
  have "idem_row_ok ?d r" if "idem_row_ok d r" for r
    using that unfolding idem_row_ok_def t by (auto split: option.splits)
  moreover have "idem_row_ok ?d (transfer_record cmd now ''completed'' (Some i))"
    using ex unfolding idem_row_ok_def t by (simp add: transfer_record_def transfer_row_def)
  moreover have "idem_key (transfer_record cmd now ''completed'' (Some i)) \<notin> idem_key ` set (idempotency d)"
    using e(5) by (auto simp: idem_key_def transfer_record_def find_idem_None)
  moreover have "ir_tx r \<noteq> Some i" if "r \<in> set (idempotency d)" for r
    using idem_names_tx [OF assms(1) that] e(4) by auto
  then have "Some i \<notin> ir_tx ` set (idempotency d)" by (metis imageE)
  ultimately have "idempotency_ok ?d"
    using assms(1) unfolding db_inv_def idempotency_ok_def k by (auto simp: transfer_record_def)
  with acc txs toks show ?thesis by (simp add: db_inv_def)
qed

end
