(* ===== verification/Transfer_Refine.thy ===== *)
theory Transfer_Refine
  imports Transfer_Spec
begin

text \<open>
  The refinement of \<open>transferAttempt\<close> and \<open>Transfer\<close>: every run of the code, whatever the
  environment does, is a step of the abstract ledger \<open>ledger_step\<close>. The proofs invert the
  sequence of statements one operation at a time (\<open>on_tx\<close> is the state between two of them).
\<close>

section \<open>The abstract ledger\<close>

inductive ledger_step ::
  "env \<Rightarrow> transferCommand \<Rightarrow> database \<Rightarrow> (error, string) result \<Rightarrow> database \<Rightarrow> bool"
  for env cmd where
  rejected: "ledger_step env cmd d (Inl e) d"
| replayed: "c_SenderID cmd \<noteq> c_ReceiverID cmd
     \<Longrightarrow> find_idem d (c_SenderID cmd) (c_Key cmd) = Some row
     \<Longrightarrow> ir_fingerprint row = c_RequestFingerprint cmd \<Longrightarrow> ir_tx row = Some i
     \<Longrightarrow> ledger_step env cmd d (Inr (e_uuid_text env i)) d"
| applied: "transfer_enabled cmd i d
     \<Longrightarrow> ledger_step env cmd d (Inr (e_uuid_text env i)) (apply_transfer cmd i now d)"
| unacknowledged: "transfer_enabled cmd i d \<Longrightarrow> e_commit env n = CommitUnknown e'
     \<Longrightarrow> ledger_step env cmd d (Inl e) (apply_transfer cmd i now d)"

inductive_cases ledger_stepE: "ledger_step env cmd d r d'"
inductive_cases ledger_step_errorE: "ledger_step env cmd d (Inl e) d'"
inductive_cases ledger_step_okE: "ledger_step env cmd d (Inr t) d'"

section \<open>Inside the transaction\<close>

definition on_tx :: "'z world_scheme \<Rightarrow> database \<Rightarrow> time \<Rightarrow> bool" where
  "on_tx w d now \<longleftrightarrow> w_tx w = Some \<lparr>t_db = d, t_now = now, t_aborted = False\<rparr>"

lemma sql_on:
  assumes "sql env stmt w = (Inr a, w')" "on_tx w d now"
  obtains d' where "stmt \<lparr>t_db = d, t_now = now, t_aborted = False\<rparr> = Inr (a, d')" "on_tx w' d' now"
  using assms by (auto simp: sql_Inr on_tx_def)

lemma on_tx_same_sql: "same_sql w w' \<Longrightarrow> on_tx w d now \<Longrightarrow> on_tx w' d now"
  by (simp add: same_sql_def on_tx_def)

lemma NewTX_on:
  assumes "NewTX env w = (Inr u, w')"
  shows "on_tx w' (w_db w) (e_pg_now env (w_tick w)) \<and> w_db w' = w_db w"
  using assms by (auto simp: NewTX_def on_tx_def split: option.splits)

lemma acc_Sub_on:
  assumes "acc_Sub env i x w = (Inr u, w')" "on_tx w d now"
    "accounts_ok d" "storable (dec_rat x)" "0 \<le> dec_rat x"
  obtains b where "balance_of d i = Some b" "dec_rat x \<le> b" "on_tx w' (change_balance i (- dec_rat x) d) now"
proof -
  from assms(1) obtain n where
    s: "sql env (update_accounts (\<lambda>r. ar_id r = i \<and> ar_balance r \<ge> dec_rat x)
          (\<lambda>r. set_balance (ar_balance r - dec_rat x) r)) w = (Inr n, w')" and n: "n \<noteq> 0"
    by (auto simp: acc_Sub_def elim!: bindE_InrE split: if_splits)
  from s assms(2) obtain d' where "update_accounts (\<lambda>r. ar_id r = i \<and> ar_balance r \<ge> dec_rat x)
      (\<lambda>r. set_balance (ar_balance r - dec_rat x) r) \<lparr>t_db = d, t_now = now, t_aborted = False\<rparr> = Inr (n, d')"
    and on: "on_tx w' d' now" by (rule sql_on)
  with sub_statement [OF assms(3-5), of i "\<lparr>t_db = d, t_now = now, t_aborted = False\<rparr>"] n
  have "\<exists>b. balance_of d i = Some b \<and> dec_rat x \<le> b \<and> d' = change_balance i (- dec_rat x) d"
    by (auto split: option.splits if_splits)
  with that on show ?thesis by blast
qed

lemma acc_Add_on:
  assumes "acc_Add env i x w = (Inr u, w')" "on_tx w d now"
    "accounts_ok d" "storable (dec_rat x)" "0 \<le> dec_rat x"
  obtains b where "balance_of d i = Some b" "b + dec_rat x < 10 ^ 18" "on_tx w' (change_balance i (dec_rat x) d) now"
proof -
  from assms(1) obtain n where
    s: "sql env (update_accounts (\<lambda>r. ar_id r = i)
          (\<lambda>r. set_balance (ar_balance r + dec_rat x) r)) w = (Inr n, w')" and n: "n \<noteq> 0"
    by (auto simp: acc_Add_def elim!: bindE_InrE split: if_splits)
  from s assms(2) obtain d' where "update_accounts (\<lambda>r. ar_id r = i)
      (\<lambda>r. set_balance (ar_balance r + dec_rat x) r) \<lparr>t_db = d, t_now = now, t_aborted = False\<rparr> = Inr (n, d')"
    and on: "on_tx w' d' now" by (rule sql_on)
  with add_statement [OF assms(3-5), of i "\<lparr>t_db = d, t_now = now, t_aborted = False\<rparr>"] n
  have "\<exists>b. balance_of d i = Some b \<and> b + dec_rat x < 10 ^ 18 \<and> d' = change_balance i (dec_rat x) d"
    by (auto split: option.splits if_splits)
  with that on show ?thesis by blast
qed

lemma acc_LockForTransfer_on:
  "acc_LockForTransfer env i j w = (Inr u, w') \<Longrightarrow> on_tx w d now \<Longrightarrow> on_tx w' d now"
  by (auto simp: acc_LockForTransfer_def elim!: bindE_InrE sql_on)

lemma tx_Transaction_on:
  assumes "tx_Transaction env x w = (Inr y, w')" "on_tx w d now" "command_ok cmd" "tx_ID x = i"
    "tx_Amount x = c_Amount cmd" "tx_Sender_id x = c_SenderID cmd" "tx_Receiver_id x = c_ReceiverID cmd"
    "c_SenderID cmd \<noteq> c_ReceiverID cmd"
    "account_exists d (c_SenderID cmd)" "account_exists d (c_ReceiverID cmd)"
  shows "i \<notin> set (map tr_id (transactions d)) \<and> tx_ID y = i \<and> on_tx w' (db_booked cmd i now StatusPending d) now"
proof -
  from assms(1) obtain st c where s: "sql env (insert_transaction x) w = (Inr (st, c), w')" and y: "tx_ID y = tx_ID x"
    by (auto simp: tx_Transaction_def elim!: bindE_InrE)
  from s assms(2) obtain d' where
    "insert_transaction x \<lparr>t_db = d, t_now = now, t_aborted = False\<rparr> = Inr ((st, c), d')"
    and "on_tx w' d' now" by (rule sql_on)
  with book_statement [of cmd x i "\<lparr>t_db = d, t_now = now, t_aborted = False\<rparr>"] assms(3-10) y
  show ?thesis by (auto split: if_splits)
qed

lemma tx_UpdateStatus_on:
  assumes "tx_UpdateStatus env x StatusCompleted w = (Inr y, w')" "tx_ID x = i"
    "on_tx w (db_booked cmd i now StatusPending d) now" "i \<notin> set (map tr_id (transactions d))"
  shows "tx_ID y = i \<and> on_tx w' (db_booked cmd i now StatusCompleted d) now"
proof -
  from assms(1) obtain p where s: "sql env (update_status (tx_ID x) StatusCompleted) w = (Inr (Some p), w')"
    and y: "tx_ID y = tx_ID x"
    by (auto simp: tx_UpdateStatus_def elim!: bindE_InrE split: option.splits)
  from s assms(3) obtain d' where "update_status (tx_ID x) StatusCompleted
      \<lparr>t_db = db_booked cmd i now StatusPending d, t_now = now, t_aborted = False\<rparr> = Inr (Some p, d')"
    and "on_tx w' d' now" by (rule sql_on)
  with complete_statement_status [OF assms(4)] assms(2) y show ?thesis by auto
qed

lemma tx_CompleteIdempotency_on:
  assumes "tx_CompleteIdempotency env (c_SenderID cmd) (c_Key cmd) i w = (Inr u, w')" "on_tx w d1 now"
    "find_idem d (c_SenderID cmd) (c_Key cmd) = None"
    "idempotency d1 = idempotency d @ [transfer_record cmd now ''processing'' None]"
    "\<forall>x\<in>set (idempotency d). ir_tx x \<noteq> Some i" "\<exists>x\<in>set (transactions d1). tr_id x = i"
  shows "on_tx w' (d1\<lparr>idempotency := idempotency d @ [transfer_record cmd now ''completed'' (Some i)]\<rparr>) now"
proof -
  from assms(1) obtain n where
    "sql env (complete_idempotency (c_SenderID cmd) (c_Key cmd) i) w = (Inr n, w')"
    by (auto simp: tx_CompleteIdempotency_def elim!: bindE_InrE split: if_splits)
  from this assms(2) obtain d' where
    "complete_idempotency (c_SenderID cmd) (c_Key cmd) i \<lparr>t_db = d1, t_now = now, t_aborted = False\<rparr> = Inr (n, d')"
    and "on_tx w' d' now" by (rule sql_on)
  with complete_statement_record [of d cmd "\<lparr>t_db = d1, t_now = now, t_aborted = False\<rparr>" now i] assms(3-6)
  show ?thesis by simp
qed

lemma tx_TryCreate_on:
  assumes "tx_TryCreateIdempotency env rec w = (Inr created, w')" "on_tx w d now" "command_ok cmd"
    "length (c_Key cmd) \<le> 128" "ti_SenderID rec = c_SenderID cmd" "ti_Key rec = c_Key cmd"
    "ti_RequestFingerprint rec = c_RequestFingerprint cmd" "created"
  shows "find_idem d (c_SenderID cmd) (c_Key cmd) = None \<and> account_exists d (c_SenderID cmd)
     \<and> on_tx w' (db_reserved cmd now d) now"
proof -
  from assms(1,8) obtain p where "sql env (insert_idempotency rec) w = (Inr (Some p), w')"
    by (auto simp: tx_TryCreateIdempotency_def catchE_def bindE_def
      split: prod.splits sum.splits option.splits if_splits)
  from this assms(2) obtain d' where
    "insert_idempotency rec \<lparr>t_db = d, t_now = now, t_aborted = False\<rparr> = Inr (Some p, d')"
    and "on_tx w' d' now" by (rule sql_on)
  with reserve_statement [OF assms(3-7), of "\<lparr>t_db = d, t_now = now, t_aborted = False\<rparr>"]
  show ?thesis by (auto split: if_splits)
qed

lemma tx_TryCreate_exists:
  assumes "tx_TryCreateIdempotency env rec w = (Inr False, w')" "on_tx w d now"
  shows "on_tx w' d now \<or> w_tx w' = Some \<lparr>t_db = d, t_now = now, t_aborted = True\<rparr>"
proof -
  from assms(1) consider "sql env (insert_idempotency rec) w = (Inr None, w')"
    | e where "sql env (insert_idempotency rec) w = (Inl e, w')"
    by (auto simp: tx_TryCreateIdempotency_def catchE_def bindE_def
      split: prod.splits sum.splits option.splits if_splits)
  then show ?thesis
  proof cases
    case 1
    then obtain d' where "insert_idempotency rec \<lparr>t_db = d, t_now = now, t_aborted = False\<rparr> = Inr (None, d')"
      and "on_tx w' d' now" using assms(2) by (rule sql_on)
    then show ?thesis by (auto simp: insert_idempotency_def Let_def split: if_splits)
  next
    case 2
    with assms(2) show ?thesis
      by (auto simp: sql_def on_tx_def split: option.splits sum.splits prod.splits)
  qed
qed

lemma tx_GetIdempotency_on:
  assumes "tx_GetIdempotency env s k w = (Inr x, w')" "on_tx w d now \<or> (\<exists>t. w_tx w = Some t \<and> t_aborted t)"
  obtains row where "find_idem d s k = Some row" "ti_RequestFingerprint x = ir_fingerprint row"
    "ti_TransactionID x = ir_tx row"
proof -
  from assms(1) obtain row w1 where
    s: "sql env (\<lambda>t. Inr (find_row (\<lambda>r. ir_sender r = s \<and> ir_key r = k) (idempotency (t_db t)), t_db t)) w = (Inr (Some row), w1)"
    and x: "scan_idempotency row = Inr x"
    by (auto simp: tx_GetIdempotency_def select_row_def liftR_def elim!: bindE_InrE split: option.splits)
  from s assms(2) have "on_tx w d now" by (auto simp: sql_Inr)
  with s have "find_idem d s k = Some row" by (auto simp: find_idem_def elim!: sql_on)
  with that x show ?thesis by (auto simp: scan_idempotency_def)
qed

lemma resolve_new:
  assumes "resolveIdempotency env cmd w = (Inr None, w')" "on_tx w d now" "command_ok cmd"
    "length (c_Key cmd) \<le> 128"
  shows "find_idem d (c_SenderID cmd) (c_Key cmd) = None \<and> account_exists d (c_SenderID cmd)
     \<and> on_tx w' (db_reserved cmd now d) now"
proof -
  from assms(1) obtain rec created where
    "tx_TryCreateIdempotency env rec w = (Inr created, w')" "created"
    "ti_SenderID rec = c_SenderID cmd" "ti_Key rec = c_Key cmd"
    "ti_RequestFingerprint rec = c_RequestFingerprint cmd"
    by (fastforce simp: resolveIdempotency_def Let_def elim!: bindE_InrE split: if_splits)
  with assms(2-4) show ?thesis by (metis tx_TryCreate_on)
qed

lemma resolve_replay:
  assumes "resolveIdempotency env cmd w = (Inr (Some i), w')" "on_tx w d now"
  obtains row where "find_idem d (c_SenderID cmd) (c_Key cmd) = Some row"
    "ir_fingerprint row = c_RequestFingerprint cmd" "ir_tx row = Some i"
proof -
  from assms(1) obtain rec w1 x where t: "tx_TryCreateIdempotency env rec w = (Inr False, w1)"
    and g: "tx_GetIdempotency env (c_SenderID cmd) (c_Key cmd) w1 = (Inr x, w')"
    and x: "ti_RequestFingerprint x = c_RequestFingerprint cmd" "ti_TransactionID x = Some i"
    by (fastforce simp: resolveIdempotency_def Let_def elim!: bindE_InrE split: if_splits)
  from tx_TryCreate_exists [OF t assms(2)]
  have "on_tx w1 d now \<or> (\<exists>t. w_tx w1 = Some t \<and> t_aborted t)" by auto
  with g that x show ?thesis by (auto elim!: tx_GetIdempotency_on)
qed

lemma executeTransfer_on:
  assumes "executeTransfer env cmd w = (Inr tx, w')" "on_tx w d now" "accounts_ok d" "command_ok cmd"
    "c_SenderID cmd \<noteq> c_ReceiverID cmd"
  obtains bs br where "balance_of d (c_SenderID cmd) = Some bs" "amt cmd \<le> bs"
    "balance_of d (c_ReceiverID cmd) = Some br" "br + amt cmd < 10 ^ 18"
    "tx_ID tx \<notin> set (map tr_id (transactions d))"
    "on_tx w' (db_booked cmd (tx_ID tx) now StatusCompleted
       (move_money (c_SenderID cmd) (c_ReceiverID cmd) (amt cmd) d)) now"
proof -
  from assms(4) have a: "storable (amt cmd)" "0 \<le> amt cmd" by (simp_all add: command_ok_def)
  from assms(1) obtain u1 w1 u2 w2 w3 x y w4 where
    s1: "acc_Sub env (c_SenderID cmd) (c_Amount cmd) w = (Inr u1, w1)" and
    s2: "acc_Add env (c_ReceiverID cmd) (c_Amount cmd) w1 = (Inr u2, w2)" and
    s3: "w3 = tick w2" and
    x: "NewTransaction (e_uuid env (w_tick w2)) (c_Amount cmd) (c_SenderID cmd) (c_ReceiverID cmd) = Inr x" and
    s4: "tx_Transaction env x w3 = (Inr y, w4)" and
    s5: "tx_UpdateStatus env y StatusCompleted w4 = (Inr tx, w')"
    by (auto simp: executeTransfer_def new_uuid_def liftR_def elim!: bindE_InrE)
  obtain bs where bs: "balance_of d (c_SenderID cmd) = Some bs" "amt cmd \<le> bs"
    and o1: "on_tx w1 (change_balance (c_SenderID cmd) (- amt cmd) d) now"
    using acc_Sub_on [OF s1 assms(2,3) a] by blast
  have ok1: "accounts_ok (change_balance (c_SenderID cmd) (- amt cmd) d)"
    using assms(3,4) bs by (rule accounts_ok_debit)
  obtain br where br: "balance_of d (c_ReceiverID cmd) = Some br" "br + amt cmd < 10 ^ 18"
    and o2: "on_tx w2 (move_money (c_SenderID cmd) (c_ReceiverID cmd) (amt cmd) d) now"
    using acc_Add_on [OF s2 o1 ok1 a] assms(5) by (auto simp: balance_change move_money_def)
  have o3: "on_tx w3 (move_money (c_SenderID cmd) (c_ReceiverID cmd) (amt cmd) d) now"
    using o2 by (simp add: s3 on_tx_def)
  have xs: "tx_Amount x = c_Amount cmd" "tx_Sender_id x = c_SenderID cmd"
    "tx_Receiver_id x = c_ReceiverID cmd"
    using x by (auto simp: NewTransaction_def split: sum.splits)
  have "account_exists d (c_SenderID cmd)" "account_exists d (c_ReceiverID cmd)"
    using bs br by (simp_all add: account_exists_balance)
  then have ex: "account_exists (move_money (c_SenderID cmd) (c_ReceiverID cmd) (amt cmd) d) (c_SenderID cmd)"
    "account_exists (move_money (c_SenderID cmd) (c_ReceiverID cmd) (amt cmd) d) (c_ReceiverID cmd)"
    by (simp_all add: move_money_def)
  have t4: "tx_ID x \<notin> set (map tr_id (transactions d))" "tx_ID y = tx_ID x"
    and o4: "on_tx w4 (db_booked cmd (tx_ID x) now StatusPending
      (move_money (c_SenderID cmd) (c_ReceiverID cmd) (amt cmd) d)) now"
    using tx_Transaction_on [OF s4 o3 assms(4) refl xs assms(5) ex]
    by (simp_all add: move_money_def)
  have "tx_ID tx = tx_ID x \<and> on_tx w' (db_booked cmd (tx_ID x) now StatusCompleted
      (move_money (c_SenderID cmd) (c_ReceiverID cmd) (amt cmd) d)) now"
    using tx_UpdateStatus_on [OF s5 t4(2) o4] t4(1) by (simp add: move_money_def)
  with that bs br t4 show ?thesis by simp
qed

section \<open>An attempt is a step of the ledger\<close>

lemma same_db_refl_trans [inv_intros]: "reflp same_db" "transp same_db"
  by (simp_all add: same_refl_trans)

lemma same_sql_db: "stays same_sql f \<Longrightarrow> stays same_db f"
  by (auto simp: stays_def same_sql_def same_db_def)

lemma stays_repo [inv_intros]:
  "stays same_db (acc_LockForTransfer env i j)" "stays same_db (resolveIdempotency env cmd)"
  "stays same_db (executeTransfer env cmd)" "stays same_db (tx_CompleteIdempotency env i k j)"
  unfolding resolveIdempotency_def executeTransfer_def repo_defs Let_def new_uuid_def
  by (intro inv_intros | simp add: stays_def same_db_def)+

lemma stays_checkRateOnce [inv_intros]: "stays same_db (checkRateOnce env cfg cmd)"
proof -
  have "stays same_db (bindE (CheckRateLimit env cfg k) (\<lambda>_ w'. (Inr (), w'\<lparr>rateLimitChecked := True\<rparr>)))" for k
    by (rule stays_bindE) (simp_all add: inv_intros same_sql_db, simp add: stays_def same_db_def)
  then show ?thesis by (auto simp: stays_def checkRateOnce_def same_db_def)
qed

lemma checkRateOnce_on:
  assumes "checkRateOnce env cfg cmd w = (Inr u, w')" "on_tx w d now"
  shows "on_tx w' d now"
  using assms staysD [OF stays_CheckRateLimit] on_tx_same_sql
  by (fastforce simp: checkRateOnce_def on_tx_def elim!: bindE_InrE split: if_splits)

text \<open>Everything an attempt does before its commit: a replayed id, or the id of the booked transfer.\<close>

definition transferWork ::
  "env \<Rightarrow> redis_limits \<Rightarrow> transferCommand \<Rightarrow> (transfer_world, error, uuid + uuid) go" where
  "transferWork env cfg cmd =
     bindE (acc_LockForTransfer env (c_SenderID cmd) (c_ReceiverID cmd)) (\<lambda>_.
     bindE (resolveIdempotency env cmd) (\<lambda>replayID.
       case replayID of
         Some i \<Rightarrow> returnE (Inl i)
       | None \<Rightarrow>
           bindE (checkRateOnce env cfg cmd) (\<lambda>_.
           bindE (executeTransfer env cmd) (\<lambda>tx.
           bindE (tx_CompleteIdempotency env (c_SenderID cmd) (c_Key cmd) (tx_ID tx)) (\<lambda>_.
           returnE (Inr (tx_ID tx)))))))"

lemma transferAttempt_work:
  "transferAttempt env cfg cmd = with_tx env (\<lambda>e. e)
     (if c_SenderID cmd = c_ReceiverID cmd then failE (Sentinel ErrSameAccount)
      else bindE (transferWork env cfg cmd) (\<lambda>x. case x of
          Inl i \<Rightarrow> returnE (e_uuid_text env i)
        | Inr i \<Rightarrow> bindE (Commit env) (\<lambda>_. returnE (e_uuid_text env i))))"
  unfolding transferAttempt_def transferWork_def
  by (intro arg_cong [where f = "with_tx env (\<lambda>e. e)"] ext)
    (auto simp: bindE_def split: prod.split sum.split option.split)

lemma stays_transferWork [inv_intros]: "stays same_db (transferWork env cfg cmd)"
  unfolding transferWork_def by (intro inv_intros)

lemma transferWork_replay:
  assumes "transferWork env cfg cmd w = (Inr (Inl i), w')" "on_tx w d now"
  obtains row where "find_idem d (c_SenderID cmd) (c_Key cmd) = Some row"
    "ir_fingerprint row = c_RequestFingerprint cmd" "ir_tx row = Some i"
proof -
  from assms(1) obtain w1 where "acc_LockForTransfer env (c_SenderID cmd) (c_ReceiverID cmd) w = (Inr (), w1)"
    and s: "resolveIdempotency env cmd w1 = (Inr (Some i), w')"
    by (auto simp: transferWork_def elim!: bindE_InrE split: option.splits)
  then have "on_tx w1 d now" using assms(2) by (auto dest: acc_LockForTransfer_on)
  with s show ?thesis using that by (rule resolve_replay)
qed

lemma transferWork_books:
  assumes "transferWork env cfg cmd w = (Inr (Inr i), w')" "on_tx w d now" "db_inv d" "command_ok cmd"
    "length (c_Key cmd) \<le> 128" "c_SenderID cmd \<noteq> c_ReceiverID cmd"
  shows "transfer_enabled cmd i d \<and> on_tx w' (apply_transfer cmd i now d) now"
proof -
  from assms(1) obtain w1 w2 w3 w4 tx u where
    s1: "acc_LockForTransfer env (c_SenderID cmd) (c_ReceiverID cmd) w = (Inr (), w1)" and
    s2: "resolveIdempotency env cmd w1 = (Inr None, w2)" and
    s3: "checkRateOnce env cfg cmd w2 = (Inr (), w3)" and
    s4: "executeTransfer env cmd w3 = (Inr tx, w4)" and i: "i = tx_ID tx" and
    s5: "tx_CompleteIdempotency env (c_SenderID cmd) (c_Key cmd) i w4 = (Inr u, w')"
    by (auto simp: transferWork_def elim!: bindE_InrE split: option.splits)
  have o1: "on_tx w1 d now" using s1 assms(2) by (rule acc_LockForTransfer_on)
  from resolve_new [OF s2 o1 assms(4,5)] have
    free: "find_idem d (c_SenderID cmd) (c_Key cmd) = None" and o2: "on_tx w2 (db_reserved cmd now d) now"
    by auto
  have o3: "on_tx w3 (db_reserved cmd now d) now" using s3 o2 by (rule checkRateOnce_on)
  have bal: "balance_of (db_reserved cmd now d) j = balance_of d j" for j
    by (simp add: balance_of_def db_reserved_def)
  have "accounts_ok (db_reserved cmd now d)"
    using assms(3) by (simp add: db_inv_def accounts_ok_def db_reserved_def)
  from executeTransfer_on [OF s4 o3 this assms(4,6)] obtain bs br where
    b: "balance_of d (c_SenderID cmd) = Some bs" "amt cmd \<le> bs"
      "balance_of d (c_ReceiverID cmd) = Some br" "br + amt cmd < 10 ^ 18" and
    fresh: "i \<notin> set (map tr_id (transactions d))" and
    o4: "on_tx w4 (db_booked cmd i now StatusCompleted
      (move_money (c_SenderID cmd) (c_ReceiverID cmd) (amt cmd) (db_reserved cmd now d))) now"
    unfolding bal i by (auto simp: db_reserved_def)
  have "\<forall>x\<in>set (idempotency d). ir_tx x \<noteq> Some i"
    using idem_names_tx [OF assms(3)] fresh by fastforce
  from tx_CompleteIdempotency_on [OF s5 o4 free _ this]
  have "on_tx w' (apply_transfer cmd i now d) now"
    by (simp add: db_booked_def move_money_def db_reserved_def apply_transfer_def change_balance_def transfer_row_def)
  then show ?thesis using b free fresh assms(5,6) by (simp add: transfer_enabled_def)
qed

lemma Commit_cases:
  assumes "Commit env w = (r, w')" "on_tx w d now"
  shows "(w_db w' = d \<and> (r = Inr () \<or> (\<exists>e. r = Inl e \<and> e_commit env (w_tick w) = CommitUnknown e)))
     \<or> (w_db w' = w_db w \<and> (\<exists>e. r = Inl e \<and> e_commit env (w_tick w) = CommitLost e))"
  using assms by (auto simp: Commit_def on_tx_def split: commit_outcome.splits)

lemma attempt_is_ledger_step:
  assumes "transferAttempt env cfg cmd w = (r, w')" "db_inv (w_db w)" "command_ok cmd"
    "length (c_Key cmd) \<le> 128"
  shows "ledger_step env cmd (w_db w) r (w_db w')"
proof (cases "\<exists>u w1. NewTX env w = (Inr u, w1) \<and> c_SenderID cmd \<noteq> c_ReceiverID cmd")
  case False
  then obtain e where "r = Inl e" "w_db w' = w_db w"
    using assms(1) staysD [OF stays_NewTX(1)]
    by (fastforce simp: transferAttempt_def with_tx_def same_db_def split: prod.splits sum.splits)
  then show ?thesis by (simp add: ledger_step.rejected)
next
  case True
  then obtain u w1 where n: "NewTX env w = (Inr u, w1)" and ne: "c_SenderID cmd \<noteq> c_ReceiverID cmd" by blast
  define now where "now = e_pg_now env (w_tick w)"
  have o1: "on_tx w1 (w_db w) now" and d1: "w_db w1 = w_db w"
    using NewTX_on [OF n] by (simp_all add: now_def)
  obtain q w2 where t: "transferWork env cfg cmd w1 = (q, w2)" by force
  have d2: "w_db w2 = w_db w" using staysD [OF stays_transferWork t] d1 by (simp add: same_db_def)
  show ?thesis
  proof (cases q)
    case (Inl e)
    then show ?thesis using assms(1) n ne t d2
      by (auto simp: transferAttempt_work with_tx_def intro: ledger_step.rejected)
  next
    case (Inr x)
    show ?thesis
    proof (cases x)
      case replay: (Inl i)
      from t Inr this have "transferWork env cfg cmd w1 = (Inr (Inl i), w2)" by simp
      then obtain row where "find_idem (w_db w) (c_SenderID cmd) (c_Key cmd) = Some row"
        "ir_fingerprint row = c_RequestFingerprint cmd" "ir_tx row = Some i"
        using o1 by (rule transferWork_replay)
      then show ?thesis using assms(1) n ne t d2 Inr replay
        by (auto simp: transferAttempt_work with_tx_def intro: ledger_step.replayed)
    next
      case booked: (Inr i)
      from t Inr this have "transferWork env cfg cmd w1 = (Inr (Inr i), w2)" by simp
      from transferWork_books [OF this o1 assms(2-4) ne]
      have en: "transfer_enabled cmd i (w_db w)" and o2: "on_tx w2 (apply_transfer cmd i now (w_db w)) now"
        by auto
      obtain c w3 where c: "Commit env w2 = (c, w3)" by force
      then have r: "w_db w' = w_db w3" "r = (case c of Inl e \<Rightarrow> Inl e | Inr _ \<Rightarrow> Inr (e_uuid_text env i))"
        using assms(1) n ne t Inr booked
        by (auto simp: transferAttempt_work with_tx_def bindE_def split: sum.splits)
      from Commit_cases [OF c o2] show ?thesis
        by (auto simp: r d2 intro: ledger_step.rejected ledger_step.applied [OF en]
            ledger_step.unacknowledged [OF en])
    qed
  qed
qed

section \<open>The retry loop is a step of the ledger\<close>

lemma find_idem_app_new:
  "find_idem d s k = None \<Longrightarrow> find_idem (apply_transfer cmd i now d) s k =
     (if c_SenderID cmd = s \<and> c_Key cmd = k then Some (transfer_record cmd now ''completed'' (Some i)) else None)"
  by (simp add: find_idem_def apply_transfer_def find_row_snoc) (simp add: transfer_record_def)

lemma ledger_step_inv:
  "ledger_step env cmd d r d' \<Longrightarrow> db_inv d \<Longrightarrow> command_ok cmd \<Longrightarrow> db_inv d'"
  by (erule ledger_stepE) (auto intro: db_inv_apply)

text \<open>
  An attempt that failed is absorbed by the next one: if the first had committed without the
  client knowing, the second finds the completed key and replays its id.
\<close>

lemma ledger_step_retry:
  assumes "ledger_step env cmd d (Inl e) d1" "ledger_step env cmd d1 r d2"
  shows "ledger_step env cmd d r d2"
proof -
  from assms(1) consider "d1 = d"
    | i now n e' where "d1 = apply_transfer cmd i now d" "transfer_enabled cmd i d"
        "e_commit env n = CommitUnknown e'"
    by (rule ledger_step_errorE) blast+
  then show ?thesis
  proof cases
    case 1
    with assms(2) show ?thesis by simp
  next
    case u: 2
    then have f: "find_idem d1 (c_SenderID cmd) (c_Key cmd)
        = Some (transfer_record cmd now ''completed'' (Some i))"
      by (simp add: find_idem_app_new transfer_enabled_def)
    from assms(2) show ?thesis
    proof (rule ledger_stepE)
      fix e
      assume "r = Inl e" "d2 = d1"
      with u show ?thesis by (auto intro: ledger_step.unacknowledged)
    next
      fix row j
      assume "r = Inr (e_uuid_text env j)" "d2 = d1" "ir_tx row = Some j"
        "find_idem d1 (c_SenderID cmd) (c_Key cmd) = Some row"
      with f u show ?thesis by (auto simp: transfer_record_def intro: ledger_step.applied)
    qed (use f in \<open>auto simp: transfer_enabled_def\<close>)
  qed
qed

lemma transferLoop_is_ledger_step:
  "transferLoop env cfg cmd attempt w = (r, w') \<Longrightarrow> db_inv (w_db w) \<Longrightarrow> command_ok cmd
     \<Longrightarrow> length (c_Key cmd) \<le> 128 \<Longrightarrow> ledger_step env cmd (w_db w) r (w_db w')"
proof (induction env cfg cmd attempt w rule: transferLoop.induct)
  case (1 env cfg cmd attempt w)
  obtain q w1 where a: "transferAttempt env cfg cmd w = (q, w1)" by force
  have st: "ledger_step env cmd (w_db w) q (w_db w1)"
    using a 1(3-5) by (rule attempt_is_ledger_step)
  show ?case
  proof (cases "attempt \<le> transferMaxAttempts")
    case False
    with 1(2) show ?thesis by (auto simp: transferLoop.simps [of _ _ _ attempt] intro: ledger_step.rejected)
  next
    case in_loop: True
    show ?thesis
    proof (cases q)
      case (Inr t)
      with 1(2) a st in_loop show ?thesis by (simp add: transferLoop.simps [of _ _ _ attempt])
    next
      case (Inl e)
      consider "\<not> isRetryablePostgresError e \<or> attempt = transferMaxAttempts"
        | "isRetryablePostgresError e" "attempt \<noteq> transferMaxAttempts" "e_done env (w_tick w1)"
        | "isRetryablePostgresError e" "attempt \<noteq> transferMaxAttempts" "\<not> e_done env (w_tick w1)"
        by blast
      then show ?thesis
      proof cases
        case 1
        with \<open>transferLoop env cfg cmd attempt w = (r, w')\<close> a st in_loop Inl show ?thesis
          by (simp add: transferLoop.simps [of _ _ _ attempt])
      next
        case 2
        then have "r = Inl Ctx" "w_db w' = w_db w1"
          using \<open>transferLoop env cfg cmd attempt w = (r, w')\<close> a in_loop Inl
          by (auto simp: transferLoop.simps [of _ _ _ attempt])
        with ledger_step_retry [OF st [unfolded Inl] ledger_step.rejected] show ?thesis by simp
      next
        case 3
        then have l: "transferLoop env cfg cmd (attempt + 1) (tick w1) = (r, w')"
          using \<open>transferLoop env cfg cmd attempt w = (r, w')\<close> a in_loop Inl
          by (simp add: transferLoop.simps [of _ _ _ attempt])
        have "db_inv (w_db (tick w1))" using ledger_step_inv [OF st 1(3,4)] by simp
        from 1(1) [OF in_loop a [symmetric] Inl _ 3(3) l this 1(4,5)] 3(1,2)
        have "ledger_step env cmd (w_db w1) r (w_db w')" by simp
        with st Inl show ?thesis by (auto intro: ledger_step_retry)
      qed
    qed
  qed
qed

section \<open>Transfer is a step of the ledger\<close>

lemma command_of_simps [simp]:
  "c_SenderID (transferCommandOf env s r k a) = s" "c_ReceiverID (transferCommandOf env s r k a) = r"
  "c_Key (transferCommandOf env s r k a) = k" "c_Amount (transferCommandOf env s r k a) = a"
  by (simp_all add: transferCommandOf_def Let_def)

lemma fingerprint_length [simp]: "length (transferFingerprint env cmd) = 64"
  by (simp add: transferFingerprint_def length_hex length_Sum256)

lemma enter_leave [simp]:
  "w_db (enter_transfer w) = w_db w" "w_db (leave_transfer tw) = w_db tw"
  "w_redis (enter_transfer w) = w_redis w" "w_redis (leave_transfer tw) = w_redis tw"
  "w_tick (enter_transfer w) = w_tick w" "w_tick (leave_transfer tw) = w_tick tw"
  "rateLimitChecked (enter_transfer w) = False"
  by (simp_all add: enter_transfer_def leave_transfer_def)

lemma validated_command_ok:
  assumes "IsPositive a" "FitsNumeric a moneyPrecision moneyScale" "dec_int32_ok a"
  shows "command_ok (transferCommandOf env s r k a)"
  using assms fits_numeric_storable [OF assms(3)]
  by (simp add: command_ok_def IsPositive_iff transferCommandOf_def Let_def moneyPrecision_def moneyScale_def)

text \<open>The two ways through \<open>Transfer\<close>: refused before any external call, or the retry loop.\<close>

lemma Transfer_cases:
  assumes "Transfer env cfg s r k a w = (res, w')" "dec_int32_ok a"
  obtains (refused) e where "res = Inl (Sentinel e)" "w' = w"
    "e \<in> {ErrIdempotencyKeyRequired, ErrInvalidIdempotencyKey, ErrInvalidAmount}"
  | (run) tw where "transferLoop env cfg (transferCommandOf env s r k a) 1 (enter_transfer w) = (res, tw)"
      "w' = leave_transfer tw" "command_ok (transferCommandOf env s r k a)" "length k \<le> 128"
      "ValidateIdempotencyKey k = None"
proof (cases "ValidateIdempotencyKey k")
  case (Some e)
  with assms(1) show ?thesis
    by (auto simp: Transfer_def ValidateIdempotencyKey_def intro: refused split: if_splits)
next
  case None
  show ?thesis
  proof (cases "IsPositive a \<and> FitsNumeric a moneyPrecision moneyScale")
    case True
    obtain q tw where l: "transferLoop env cfg (transferCommandOf env s r k a) 1 (enter_transfer w) = (q, tw)"
      by force
    with assms(1) None True have "res = q" "w' = leave_transfer tw" by (simp_all add: Transfer_def)
    with l None True assms(2) show ?thesis
      by (intro run) (auto intro: validated_command_ok simp: valid_key_iff)
  next
    case False
    with assms(1) None show ?thesis by (auto simp: Transfer_def intro: refused)
  qed
qed

lemma Transfer_is_ledger_step:
  assumes "Transfer env cfg s r k a w = (res, w')" "db_inv (w_db w)" "dec_int32_ok a"
  shows "ledger_step env (transferCommandOf env s r k a) (w_db w) res (w_db w')"
  using assms(1,3)
proof (cases rule: Transfer_cases)
  case (refused e)
  then show ?thesis by (simp add: ledger_step.rejected)
next
  case (run tw)
  with transferLoop_is_ledger_step [OF run(1)] assms(2) show ?thesis by simp
qed

lemma Transfer_command_ok:
  assumes "Transfer env cfg s r k a w = (res, w')" "dec_int32_ok a" "w_db w' \<noteq> w_db w \<or> isl res = False"
  shows "command_ok (transferCommandOf env s r k a)"
  using assms(1,2) by (cases rule: Transfer_cases) (use assms(3) in auto)

lemma Transfer_keeps_inv:
  assumes "Transfer env cfg s r k a w = (res, w')" "db_inv (w_db w)" "dec_int32_ok a"
  shows "db_inv (w_db w')"
proof (cases "w_db w' = w_db w")
  case False
  with Transfer_command_ok [OF assms(1,3)] ledger_step_inv [OF Transfer_is_ledger_step [OF assms] assms(2)]
  show ?thesis by simp
qed (use assms in simp)

end
