(* ===== verification/Transfer_Calm.thy ===== *)
theory Transfer_Calm
  imports Transfer_Refine
begin

text \<open>
  Transfers when the infrastructure works: no statement meets a fault and commits succeed.
  Every operation is then a function of the tables, and \<open>Transfer\<close> is the decision table
  \<open>transfer_verdict\<close>, each refusal included.
\<close>

definition calm :: "env \<Rightarrow> bool" where
  "calm env \<longleftrightarrow> (\<forall>n. e_fault env n = None \<and> e_redis_fault env n = None \<and> e_commit env n = CommitOk)"

definition put_tx :: "database \<Rightarrow> time \<Rightarrow> 'z world_scheme \<Rightarrow> 'z world_scheme" where
  "put_tx d now w = (tick w)\<lparr>w_tx := Some \<lparr>t_db = d, t_now = now, t_aborted = False\<rparr>\<rparr>"

definition fail_tx :: "database \<Rightarrow> time \<Rightarrow> 'z world_scheme \<Rightarrow> 'z world_scheme" where
  "fail_tx d now w = (tick w)\<lparr>w_tx := Some \<lparr>t_db = d, t_now = now, t_aborted = True\<rparr>\<rparr>"

lemma put_tx_simps [simp]:
  "on_tx (put_tx d now w) d now" "w_db (put_tx d now w) = w_db w" "w_db (fail_tx d now w) = w_db w"
  "w_redis (put_tx d now w) = w_redis w" "w_redis (fail_tx d now w) = w_redis w"
  "w_tick (put_tx d now w) = Suc (w_tick w)"
  by (simp_all add: put_tx_def fail_tx_def on_tx_def)

lemma sql_calm:
  assumes "calm env" "on_tx w d now"
  shows "sql env stmt w =
     (case stmt \<lparr>t_db = d, t_now = now, t_aborted = False\<rparr> of
        Inl c \<Rightarrow> (Inl (PgError c), fail_tx d now w)
      | Inr (a, d') \<Rightarrow> (Inr a, put_tx d' now w))"
  using assms by (simp add: sql_def calm_def on_tx_def fail_tx_def put_tx_def split: sum.split prod.split)

lemma NewTX_calm: "calm env \<Longrightarrow> NewTX env w = (Inr (), put_tx (w_db w) (e_pg_now env (w_tick w)) w)"
  by (simp add: NewTX_def calm_def put_tx_def)

lemma Commit_calm:
  "calm env \<Longrightarrow> on_tx w d now \<Longrightarrow> Commit env w = (Inr (), (tick w)\<lparr>w_db := d, w_tx := None\<rparr>)"
  by (simp add: Commit_def calm_def on_tx_def)

lemma bindE_cases:
  "bindE f g s = (case f s of (Inl e, s') \<Rightarrow> (Inl e, s') | (Inr x, s') \<Rightarrow> g x s')"
  by (simp add: bindE_def)

lemma acc_LockForTransfer_calm:
  "calm env \<Longrightarrow> on_tx w d now \<Longrightarrow> acc_LockForTransfer env i j w = (Inr (), put_tx d now w)"
  by (simp add: acc_LockForTransfer_def bindE_def mapErr_def sql_calm)

lemma acc_Sub_calm:
  assumes "calm env" "on_tx w d now" "accounts_ok d" "storable (dec_rat x)" "0 \<le> dec_rat x"
  shows "acc_Sub env i x w =
     (case balance_of d i of
        Some b \<Rightarrow> if dec_rat x \<le> b then (Inr (), put_tx (change_balance i (- dec_rat x) d) now w)
                  else (Inl (Sentinel ErrInsufficientFunds), put_tx d now w)
      | None \<Rightarrow> (Inl (Sentinel ErrInsufficientFunds), put_tx d now w))"
  using sub_statement [OF assms(3-5), of i "\<lparr>t_db = d, t_now = now, t_aborted = False\<rparr>"]
  by (simp add: acc_Sub_def bindE_def mapErr_def sql_calm [OF assms(1,2)] split: option.split)

lemma acc_Add_calm:
  assumes "calm env" "on_tx w d now" "accounts_ok d" "storable (dec_rat x)" "0 \<le> dec_rat x"
  shows "acc_Add env i x w =
     (case balance_of d i of
        Some b \<Rightarrow> if b + dec_rat x < 10 ^ 18 then (Inr (), put_tx (change_balance i (dec_rat x) d) now w)
                  else (Inl (Wrapped ''add to balance'' (PgError ''22003'')), fail_tx d now w)
      | None \<Rightarrow> (Inl (Sentinel ErrReceiverAccountNotFound), put_tx d now w))"
  using add_statement [OF assms(3-5), of i "\<lparr>t_db = d, t_now = now, t_aborted = False\<rparr>"]
  by (simp add: acc_Add_def bindE_def mapErr_def sql_calm [OF assms(1,2)] split: option.split)

lemma resolve_calm:
  assumes "calm env" "on_tx w d now" "command_ok cmd" "length (c_Key cmd) \<le> 128" "db_inv d"
  shows "resolveIdempotency env cmd w =
     (case find_idem d (c_SenderID cmd) (c_Key cmd) of
        Some row \<Rightarrow> if ir_fingerprint row \<noteq> c_RequestFingerprint cmd
            then (Inl (Sentinel ErrIdempotencyConflict), put_tx d now (put_tx d now w))
            else (Inr (ir_tx row), put_tx d now (put_tx d now w))
      | None \<Rightarrow> if account_exists d (c_SenderID cmd)
            then (Inr None, put_tx (db_reserved cmd now d) now w)
            else (Inl (Wrapped ''create idempotency record'' (PgError ''23503'')), fail_tx d now w))"
proof -
  let ?rec = "\<lparr>ti_SenderID = c_SenderID cmd, ti_Key = c_Key cmd,
    ti_RequestFingerprint = c_RequestFingerprint cmd, ti_Status = [],
    ti_TransactionID = None, ti_CreatedAt = zero_time, ti_UpdatedAt = zero_time\<rparr>"
  let ?t = "\<lparr>t_db = d, t_now = now, t_aborted = False\<rparr>"
  have ins: "insert_idempotency ?rec ?t =
     (if find_idem d (c_SenderID cmd) (c_Key cmd) \<noteq> None then Inr (None, d)
      else if \<not> account_exists d (c_SenderID cmd) then Inl ''23503''
      else Inr (Some (''processing'', now, now), db_reserved cmd now d))"
    using reserve_statement [OF assms(3,4), of ?rec ?t] by simp
  show ?thesis
  proof (cases "find_idem d (c_SenderID cmd) (c_Key cmd)")
    case None
    then show ?thesis
      by (simp add: resolveIdempotency_def tx_TryCreateIdempotency_def catchE_def bindE_def
          sql_calm [OF assms(1,2)] ins)
  next
    case (Some row)
    then have "row \<in> set (idempotency d)" unfolding find_idem_def by (rule find_row_Some [THEN conjunct1])
    from idem_names_tx [OF assms(5) this] obtain i where
      row: "ir_tx row = Some i" "ir_status row = IdempotencyStatusCompleted"
      by (auto simp: IdempotencyStatusCompleted_def)
    have "on_tx (put_tx d now w) d now" by simp
    from Some row show ?thesis
      by (simp add: resolveIdempotency_def tx_TryCreateIdempotency_def tx_GetIdempotency_def
          select_row_def catchE_def bindE_def mapErr_def liftR_def sql_calm [OF assms(1,2)] ins
          sql_calm [OF assms(1) \<open>on_tx (put_tx d now w) d now\<close>] scan_idempotency_def
          find_idem_def [symmetric])
  qed
qed

lemma tx_Transaction_calm:
  assumes "calm env" "on_tx w d now" "command_ok cmd" "tx_ID x = i"
    "tx_Amount x = c_Amount cmd" "tx_Sender_id x = c_SenderID cmd" "tx_Receiver_id x = c_ReceiverID cmd"
    "c_SenderID cmd \<noteq> c_ReceiverID cmd"
    "account_exists d (c_SenderID cmd)" "account_exists d (c_ReceiverID cmd)"
    "i \<notin> set (map tr_id (transactions d))"
  shows "tx_Transaction env x w =
     (Inr (x\<lparr>tx_Status := StatusPending, tx_Created_at := now\<rparr>),
      put_tx (db_booked cmd i now StatusPending d) now w)"
  using book_statement [of cmd x i "\<lparr>t_db = d, t_now = now, t_aborted = False\<rparr>"] assms(3-11)
  by (simp add: tx_Transaction_def bindE_def mapErr_def sql_calm [OF assms(1,2)])

lemma tx_UpdateStatus_calm:
  assumes "calm env" "on_tx w (db_booked cmd i now StatusPending d) now" "tx_ID x = i"
    "i \<notin> set (map tr_id (transactions d))"
  shows "tx_UpdateStatus env x StatusCompleted w =
     (Inr (x\<lparr>tx_Status := StatusCompleted, tx_Created_at := now\<rparr>),
      put_tx (db_booked cmd i now StatusCompleted d) now w)"
  using complete_statement_status [OF assms(4), of "\<lparr>t_db = db_booked cmd i now StatusPending d, t_now = now, t_aborted = False\<rparr>" cmd now]
  by (simp add: tx_UpdateStatus_def bindE_def mapErr_def sql_calm [OF assms(1,2)] assms(3))

lemma tx_CompleteIdempotency_calm:
  assumes "calm env" "on_tx w d1 now"
    "find_idem d (c_SenderID cmd) (c_Key cmd) = None"
    "idempotency d1 = idempotency d @ [transfer_record cmd now ''processing'' None]"
    "\<forall>x\<in>set (idempotency d). ir_tx x \<noteq> Some i" "\<exists>x\<in>set (transactions d1). tr_id x = i"
  shows "tx_CompleteIdempotency env (c_SenderID cmd) (c_Key cmd) i w = (Inr (),
    put_tx (d1\<lparr>idempotency := idempotency d @ [transfer_record cmd now ''completed'' (Some i)]\<rparr>) now w)"
  using complete_statement_record [of d cmd "\<lparr>t_db = d1, t_now = now, t_aborted = False\<rparr>" now i] assms(3-6)
  by (simp add: tx_CompleteIdempotency_def bindE_def mapErr_def sql_calm [OF assms(1,2)])

section \<open>The decision table\<close>

text \<open>
  \<open>q\<close> is the rate limiter's answer. \<open>Inr (Some i)\<close>: the id of the earlier transfer is replayed;
  \<open>Inr None\<close>: the transfer is executed.
\<close>

definition transfer_verdict ::
  "transferCommand \<Rightarrow> (error, unit) result \<Rightarrow> database \<Rightarrow> (error, uuid option) result" where
  "transfer_verdict cmd q d =
     (if c_SenderID cmd = c_ReceiverID cmd then Inl (Sentinel ErrSameAccount)
      else case find_idem d (c_SenderID cmd) (c_Key cmd) of
        Some row \<Rightarrow> if ir_fingerprint row \<noteq> c_RequestFingerprint cmd
            then Inl (Sentinel ErrIdempotencyConflict) else Inr (ir_tx row)
      | None \<Rightarrow> (case balance_of d (c_SenderID cmd) of
            None \<Rightarrow> Inl (Wrapped ''create idempotency record'' (PgError ''23503''))
          | Some b \<Rightarrow> (case q of Inl e \<Rightarrow> Inl e
              | Inr _ \<Rightarrow> if b < amt cmd then Inl (Sentinel ErrInsufficientFunds)
                  else (case balance_of d (c_ReceiverID cmd) of
                      None \<Rightarrow> Inl (Sentinel ErrReceiverAccountNotFound)
                    | Some b' \<Rightarrow> if b' + amt cmd \<ge> 10 ^ 18
                        then Inl (Wrapped ''add to balance'' (PgError ''22003'')) else Inr None))))"

text \<open>The rate limiter reads the Redis store and the clocks, nothing else of the state.\<close>

definition agree :: "'z world_scheme \<Rightarrow> 'y world_scheme \<Rightarrow> bool" where
  "agree v w \<longleftrightarrow> w_redis v = w_redis w \<and> w_tick v = w_tick w"

lemma checkWindow_agree:
  "agree v w \<Longrightarrow> fst (checkWindow env ident limit window suffix v) = fst (checkWindow env ident limit window suffix w)
     \<and> agree (snd (checkWindow env ident limit window suffix v)) (snd (checkWindow env ident limit window suffix w))"
  by (auto simp: agree_def checkWindow_def now_nano_def Let_def bindE_def mapErr_def redis_call_def
    split: option.splits prod.splits sum.splits)

lemma bindE_agree:
  assumes "agree v w" "\<And>v w. agree v w \<Longrightarrow> fst (f v) = fst (f' w) \<and> agree (snd (f v)) (snd (f' w))"
    "\<And>x v w. agree v w \<Longrightarrow> fst (g x v) = fst (g' x w) \<and> agree (snd (g x v)) (snd (g' x w))"
  shows "fst (bindE f g v) = fst (bindE f' g' w) \<and> agree (snd (bindE f g v)) (snd (bindE f' g' w))"
proof -
  obtain r s where f: "f v = (r, s)" by force
  obtain r' s' where f': "f' w = (r', s')" by force
  have "r = r'" "agree s s'" using assms(2) [OF assms(1)] f f' by simp_all
  then show ?thesis using f f' assms(3) by (simp add: bindE_def split: sum.split)
qed

lemma CheckRateLimit_agree:
  "agree v w \<Longrightarrow> fst (CheckRateLimit env cfg ident v) = fst (CheckRateLimit env cfg ident w)
     \<and> agree (snd (CheckRateLimit env cfg ident v)) (snd (CheckRateLimit env cfg ident w))"
  unfolding CheckRateLimit_def
  by (rule bindE_agree | rule checkWindow_agree | assumption | simp)+

lemma checkWindow_no_pg:
  "checkWindow env ident limit window suffix w = (Inl e, w') \<Longrightarrow> errors_as_pg e = None"
  by (auto simp: checkWindow_def now_nano_def Let_def bindE_def mapErr_def redis_call_def rateLimitScript_def
    split: option.splits prod.splits sum.splits if_splits)

lemma CheckRateLimit_no_pg:
  "CheckRateLimit env cfg ident w = (Inl e, w') \<Longrightarrow> errors_as_pg e = None"
  by (auto simp: CheckRateLimit_def elim!: bindE_InlE dest: checkWindow_no_pg)

definition limiter :: "env \<Rightarrow> redis_limits \<Rightarrow> transferCommand \<Rightarrow> world \<Rightarrow> (error, unit) result" where
  "limiter env cfg cmd w =
     fst (CheckRateLimit env cfg (e_uuid_text env (c_SenderID cmd)) (w\<lparr>w_tick := w_tick w + 3\<rparr>))"

text \<open>Debit and credit have succeeded: the transaction is written and completed.\<close>

lemma executeTransfer_books:
  fixes w :: "'z world_scheme"
  defines "m cmd d \<equiv> move_money (c_SenderID cmd) (c_ReceiverID cmd) (amt cmd) d"
  assumes "calm env" "command_ok cmd" "c_SenderID cmd \<noteq> c_ReceiverID cmd"
    "balance_of d (c_SenderID cmd) = Some bs" "balance_of d (c_ReceiverID cmd) = Some br"
    "e_uuid env (w_tick w2) = Inr i" "i \<notin> set (map tr_id (transactions d))"
    and sub: "acc_Sub env (c_SenderID cmd) (c_Amount cmd) w = (Inr (), w1)"
    and add: "acc_Add env (c_ReceiverID cmd) (c_Amount cmd) w1 = (Inr (), w2)" and on: "on_tx w2 (m cmd d) now"
  shows "\<exists>tx w'. executeTransfer env cmd w = (Inr tx, w') \<and> tx_ID tx = i
    \<and> on_tx w' (db_booked cmd i now StatusCompleted (m cmd d)) now"
proof -
  define x where "x = \<lparr>tx_ID = i, tx_Amount = c_Amount cmd, tx_Sender_id = c_SenderID cmd,
    tx_Receiver_id = c_ReceiverID cmd, tx_Status = [], tx_Created_at = zero_time\<rparr>"
  have on3: "on_tx (tick w2) (m cmd d) now" using on by (simp add: on_tx_def)
  have ex: "account_exists (m cmd d) (c_SenderID cmd)" "account_exists (m cmd d) (c_ReceiverID cmd)"
    using assms(5,6) unfolding m_def account_exists_move by (simp_all add: account_exists_balance)
  have fresh: "i \<notin> set (map tr_id (transactions (m cmd d)))" using assms(8) by (simp add: m_def move_money_def)
  let ?w4 = "put_tx (db_booked cmd i now StatusPending (m cmd d)) now (tick w2)"
  have s4: "tx_Transaction env x (tick w2) = (Inr (x\<lparr>tx_Status := StatusPending, tx_Created_at := now\<rparr>), ?w4)"
    using tx_Transaction_calm [OF assms(2) on3 assms(3) _ _ _ _ assms(4) ex fresh, of x] by (simp add: x_def)
  have "on_tx ?w4 (db_booked cmd i now StatusPending (m cmd d)) now" by simp
  note s5 = tx_UpdateStatus_calm [OF assms(2) this, of "x\<lparr>tx_Status := StatusPending, tx_Created_at := now\<rparr>", OF _ fresh]
  have "NewTransaction (Inr i) (c_Amount cmd) (c_SenderID cmd) (c_ReceiverID cmd) = Inr x"
    by (simp add: NewTransaction_def x_def)
  then have "executeTransfer env cmd w = (Inr (x\<lparr>tx_Status := StatusCompleted, tx_Created_at := now\<rparr>),
      put_tx (db_booked cmd i now StatusCompleted (m cmd d)) now ?w4)"
    using sub add s4 s5 assms(7) by (simp add: executeTransfer_def bindE_def new_uuid_def liftR_def x_def)
  then show ?thesis by (simp add: x_def)
qed

lemma executeTransfer_calm:
  assumes "calm env" "on_tx w d now" "accounts_ok d" "command_ok cmd"
    "c_SenderID cmd \<noteq> c_ReceiverID cmd" "balance_of d (c_SenderID cmd) = Some bs"
    "e_uuid env (Suc (Suc (w_tick w))) = Inr i" "i \<notin> set (map tr_id (transactions d))"
  shows "if bs < amt cmd then \<exists>w'. executeTransfer env cmd w = (Inl (Sentinel ErrInsufficientFunds), w')
     else case balance_of d (c_ReceiverID cmd) of
       None \<Rightarrow> \<exists>w'. executeTransfer env cmd w = (Inl (Sentinel ErrReceiverAccountNotFound), w')
     | Some br \<Rightarrow> if br + amt cmd \<ge> 10 ^ 18
         then \<exists>w'. executeTransfer env cmd w = (Inl (Wrapped ''add to balance'' (PgError ''22003'')), w')
         else \<exists>tx w'. executeTransfer env cmd w = (Inr tx, w') \<and> tx_ID tx = i
           \<and> on_tx w' (db_booked cmd i now StatusCompleted
               (move_money (c_SenderID cmd) (c_ReceiverID cmd) (amt cmd) d)) now"
proof -
  from assms(4) have a: "storable (amt cmd)" "0 \<le> amt cmd" by (simp_all add: command_ok_def)
  note sub = acc_Sub_calm [OF assms(1-3) a, of "c_SenderID cmd"]
  show ?thesis
  proof (cases "bs < amt cmd")
    case True
    then show ?thesis using sub assms(6) by (simp add: executeTransfer_def bindE_def)
  next
    case le: False
    let ?d1 = "change_balance (c_SenderID cmd) (- amt cmd) d" and ?w1 = "put_tx (change_balance (c_SenderID cmd) (- amt cmd) d) now w"
    have s1: "acc_Sub env (c_SenderID cmd) (c_Amount cmd) w = (Inr (), ?w1)"
      using sub assms(6) le by simp
    have ok1: "accounts_ok ?d1"
      using assms(3,4,6) le by (intro accounts_ok_debit) auto
    have b1: "balance_of ?d1 (c_ReceiverID cmd) = balance_of d (c_ReceiverID cmd)"
      using assms(5) by (simp add: balance_change)
    have "on_tx ?w1 ?d1 now" by simp
    note add = acc_Add_calm [OF assms(1) this ok1 a, of "c_ReceiverID cmd", unfolded b1]
    show ?thesis
    proof (cases "balance_of d (c_ReceiverID cmd)")
      case None
      then show ?thesis using s1 add le by (simp add: executeTransfer_def bindE_def)
    next
      case (Some br)
      show ?thesis
      proof (cases "br + amt cmd < 10 ^ 18")
        case False
        then show ?thesis using s1 add le Some by (simp add: executeTransfer_def bindE_def)
      next
        case fits: True
        let ?w2 = "put_tx (move_money (c_SenderID cmd) (c_ReceiverID cmd) (amt cmd) d) now ?w1"
        have s2: "acc_Add env (c_ReceiverID cmd) (c_Amount cmd) ?w1 = (Inr (), ?w2)"
          using add fits Some by (simp add: move_money_def)
        have "e_uuid env (w_tick ?w2) = Inr i" using assms(7) by simp
        from executeTransfer_books [OF assms(1,4,5,6) Some this assms(8) s1 s2] le Some fits show ?thesis by simp
      qed
    qed
  qed
qed

lemma accounts_ok_reserved: "db_inv d \<Longrightarrow> accounts_ok (db_reserved cmd now d)"
  by (simp add: db_inv_def accounts_ok_def db_reserved_def)

lemma balance_reserved: "balance_of (db_reserved cmd now d) j = balance_of d j"
  by (simp add: balance_of_def db_reserved_def)

text \<open>
  What an attempt learns of the limiter: nothing new if an earlier attempt of the call has asked,
  else the answer at the time \<open>n\<close>.
\<close>

definition rate_reply :: "env \<Rightarrow> redis_limits \<Rightarrow> transferCommand \<Rightarrow> nat \<Rightarrow> transfer_world \<Rightarrow> (error, unit) result" where
  "rate_reply env cfg cmd n w = (if rateLimitChecked w then Inr ()
     else fst (CheckRateLimit env cfg (e_uuid_text env (c_SenderID cmd)) (w\<lparr>w_tick := n\<rparr>)))"

lemma checkRateOnce_reply:
  assumes "agree v (w\<lparr>w_tick := n\<rparr>)" "rateLimitChecked v = rateLimitChecked w"
  shows "fst (checkRateOnce env cfg cmd v) = rate_reply env cfg cmd n w"
  using CheckRateLimit_agree [OF assms(1), of env cfg "e_uuid_text env (c_SenderID cmd)"] assms(2)
  by (auto simp: checkRateOnce_def rate_reply_def bindE_def split: prod.split sum.split)

text \<open>What precedes the commit, in the cases of the table that reach the database.\<close>

text \<open>The work from the executed transfer on: the verdict was reached with the record reserved.\<close>

lemma transferWork_executes:
  assumes c: "calm env" and on: "on_tx w4 (db_reserved cmd now d) now" and "db_inv d" "command_ok cmd"
    "c_SenderID cmd \<noteq> c_ReceiverID cmd"
    and free: "find_idem d (c_SenderID cmd) (c_Key cmd) = None" and bs: "balance_of d (c_SenderID cmd) = Some bs"
    and fresh: "\<And>n. \<exists>i. e_uuid env n = Inr i \<and> i \<notin> set (map tr_id (transactions d))"
    and lock: "acc_LockForTransfer env (c_SenderID cmd) (c_ReceiverID cmd) w = (Inr (), w1)"
    and res: "resolveIdempotency env cmd w1 = (Inr None, w2)"
    and rate: "checkRateOnce env cfg cmd w2 = (Inr (), w4)"
  shows "case transfer_verdict cmd (Inr ()) d of
      Inl e \<Rightarrow> \<exists>w'. transferWork env cfg cmd w = (Inl e, w')
    | Inr (Some i) \<Rightarrow> \<exists>w'. transferWork env cfg cmd w = (Inr (Inl i), w')
    | Inr None \<Rightarrow> \<exists>i w'. transferWork env cfg cmd w = (Inr (Inr i), w')
        \<and> on_tx w' (apply_transfer cmd i now d) now"
proof -
  obtain i where i: "e_uuid env (Suc (Suc (w_tick w4))) = Inr i" "i \<notin> set (map tr_id (transactions d))"
    using fresh by blast
  have i': "i \<notin> set (map tr_id (transactions (db_reserved cmd now d)))" using i by (simp add: db_reserved_def)
  note ex = executeTransfer_calm [OF c on accounts_ok_reserved [OF assms(3)] assms(4,5) _ i(1) i',
      unfolded balance_reserved, OF bs]
  show ?thesis
  proof (cases "transfer_verdict cmd (Inr ()) d")
    case (Inl e)
    with ex have "\<exists>w'. executeTransfer env cmd w4 = (Inl e, w')"
      using free bs assms(5) by (auto simp: transfer_verdict_def split: if_splits option.splits)
    with lock res rate Inl show ?thesis by (auto simp: transferWork_def bindE_def)
  next
    case (Inr v)
    with ex obtain tx w5 where e5: "executeTransfer env cmd w4 = (Inr tx, w5)" "tx_ID tx = i"
      and o5: "on_tx w5 (db_booked cmd i now StatusCompleted (move_money (c_SenderID cmd) (c_ReceiverID cmd)
          (amt cmd) (db_reserved cmd now d))) now" and v: "v = None"
      using free bs assms(5) by (auto simp: transfer_verdict_def split: if_splits option.splits)
    have "\<forall>x\<in>set (idempotency d). ir_tx x \<noteq> Some i"
      using idem_names_tx [OF assms(3)] i(2) by fastforce
    from tx_CompleteIdempotency_calm [OF c o5 free _ this]
    have "\<exists>w6. tx_CompleteIdempotency env (c_SenderID cmd) (c_Key cmd) i w5 = (Inr (), w6)
        \<and> on_tx w6 (apply_transfer cmd i now d) now"
      by (simp add: db_booked_def move_money_def db_reserved_def apply_transfer_def change_balance_def transfer_row_def)
    with lock res rate e5 Inr v show ?thesis by (auto simp: transferWork_def bindE_def)
  qed
qed

lemma transferWork_calm:
  assumes c: "calm env" and on: "on_tx w d now" and "db_inv d" "command_ok cmd"
    "length (c_Key cmd) \<le> 128" "c_SenderID cmd \<noteq> c_ReceiverID cmd"
    and q: "rate_reply env cfg cmd (Suc (Suc (w_tick w))) w = q"
    and fresh: "\<And>n. find_idem d (c_SenderID cmd) (c_Key cmd) = None \<Longrightarrow>
      \<exists>i. e_uuid env n = Inr i \<and> i \<notin> set (map tr_id (transactions d))"
  shows "case transfer_verdict cmd q d of
      Inl e \<Rightarrow> \<exists>w'. transferWork env cfg cmd w = (Inl e, w')
    | Inr (Some i) \<Rightarrow> \<exists>w'. transferWork env cfg cmd w = (Inr (Inl i), w')
    | Inr None \<Rightarrow> \<exists>i w'. transferWork env cfg cmd w = (Inr (Inr i), w')
        \<and> on_tx w' (apply_transfer cmd i now d) now"
proof -
  let ?w1 = "put_tx d now w"
  have o1: "on_tx ?w1 d now" by simp
  note lock = acc_LockForTransfer_calm [OF c on, of "c_SenderID cmd" "c_ReceiverID cmd"]
  note res = resolve_calm [OF c o1 assms(4,5,3)]
  show ?thesis
  proof (cases "find_idem d (c_SenderID cmd) (c_Key cmd)")
    case (Some row)
    then have "row \<in> set (idempotency d)" unfolding find_idem_def by (rule find_row_Some [THEN conjunct1])
    from idem_names_tx [OF assms(3) this] obtain i where "ir_tx row = Some i" by auto
    with Some lock res assms(6) show ?thesis
      by (simp add: transfer_verdict_def transferWork_def bindE_def)
  next
    case free: None
    show ?thesis
    proof (cases "balance_of d (c_SenderID cmd)")
      case None
      with free lock res assms(6) show ?thesis
        by (simp add: transfer_verdict_def transferWork_def bindE_def account_exists_balance)
    next
      case (Some bs)
      let ?w2 = "put_tx (db_reserved cmd now d) now ?w1"
      have r2: "resolveIdempotency env cmd ?w1 = (Inr None, ?w2)"
        using res free Some by (simp add: account_exists_balance)
      have ag: "agree ?w2 (w\<lparr>w_tick := Suc (Suc (w_tick w))\<rparr>)" by (simp add: agree_def)
      have "rateLimitChecked ?w2 = rateLimitChecked w" by (simp add: put_tx_def tick_def)
      from checkRateOnce_reply [OF ag this, of env cfg cmd] q obtain w4 where
        ch: "checkRateOnce env cfg cmd ?w2 = (q, w4)" by (metis prod.collapse)
      show ?thesis
      proof (cases q)
        case (Inl e)
        with lock r2 ch free Some assms(6) show ?thesis
          by (simp add: transfer_verdict_def transferWork_def bindE_def)
      next
        case (Inr u)
        then have ch: "checkRateOnce env cfg cmd ?w2 = (Inr (), w4)" using ch by simp
        have "on_tx ?w2 (db_reserved cmd now d) now" by simp
        then have "on_tx w4 (db_reserved cmd now d) now" using ch by (rule checkRateOnce_on [rotated])
        from transferWork_executes [OF c this assms(3,4,6) free Some fresh [OF free] lock r2 ch] Inr
        show ?thesis by simp
      qed
    qed
  qed
qed

text \<open>The outcome the table prescribes: the reply and the tables after.\<close>

definition verdict_holds ::
  "env \<Rightarrow> transferCommand \<Rightarrow> database \<Rightarrow> (error, uuid option) result \<Rightarrow> (error, string) result \<Rightarrow> database \<Rightarrow> bool" where
  "verdict_holds env cmd d v res d' \<longleftrightarrow>
     (case v of
        Inl e \<Rightarrow> res = Inl e \<and> d' = d
      | Inr (Some i) \<Rightarrow> res = Inr (e_uuid_text env i) \<and> d' = d
      | Inr None \<Rightarrow> \<exists>i now. i \<notin> set (map tr_id (transactions d))
          \<and> res = Inr (e_uuid_text env i) \<and> d' = apply_transfer cmd i now d)"

lemma attempt_calm:
  assumes c: "calm env" and "db_inv (w_db w)" "command_ok cmd" "length (c_Key cmd) \<le> 128"
    and q: "rate_reply env cfg cmd (w_tick w + 3) w = q"
    and fresh: "\<And>n. find_idem (w_db w) (c_SenderID cmd) (c_Key cmd) = None \<Longrightarrow>
      \<exists>i. e_uuid env n = Inr i \<and> i \<notin> set (map tr_id (transactions (w_db w)))"
  shows "verdict_holds env cmd (w_db w) (transfer_verdict cmd q (w_db w))
     (fst (transferAttempt env cfg cmd w)) (w_db (snd (transferAttempt env cfg cmd w)))"
proof (cases "c_SenderID cmd = c_ReceiverID cmd")
  case True
  then show ?thesis
    by (simp add: transferAttempt_def with_tx_def NewTX_calm [OF c] transfer_verdict_def verdict_holds_def)
next
  case ne: False
  define now where "now = e_pg_now env (w_tick w)"
  let ?w1 = "put_tx (w_db w) now w"
  have n: "NewTX env w = (Inr (), ?w1)" by (simp add: NewTX_calm [OF c] now_def)
  have o1: "on_tx ?w1 (w_db w) now" by simp
  have nr: "rateLimitChecked ?w1 = rateLimitChecked w" by (simp add: put_tx_def tick_def)
  have "agree (?w1\<lparr>w_tick := Suc (Suc (w_tick ?w1))\<rparr>) (w\<lparr>w_tick := w_tick w + 3\<rparr>)" by (simp add: agree_def)
  from CheckRateLimit_agree [OF this, of env cfg] q nr
  have q1: "rate_reply env cfg cmd (Suc (Suc (w_tick ?w1))) ?w1 = q" by (simp add: rate_reply_def split: if_splits)
  note work = transferWork_calm [OF c o1 assms(2-4) ne q1 fresh]
  have same: "w_db w2 = w_db w" if "transferWork env cfg cmd ?w1 = (x, w2)" for x w2
    using staysD [OF stays_transferWork that] by (simp add: same_db_def)
  show ?thesis
  proof (cases "transfer_verdict cmd q (w_db w)")
    case (Inl e)
    with work obtain w2 where "transferWork env cfg cmd ?w1 = (Inl e, w2)" by auto
    with same n ne Inl show ?thesis
      by (simp add: transferAttempt_work with_tx_def verdict_holds_def)
  next
    case (Inr v)
    show ?thesis
    proof (cases v)
      case (Some i)
      with work Inr obtain w2 where "transferWork env cfg cmd ?w1 = (Inr (Inl i), w2)" by auto
      with same n ne Inr Some show ?thesis
        by (simp add: transferAttempt_work with_tx_def verdict_holds_def)
    next
      case None
      with work Inr obtain i w2 where w2: "transferWork env cfg cmd ?w1 = (Inr (Inr i), w2)"
        "on_tx w2 (apply_transfer cmd i now (w_db w)) now" by auto
      have "i \<notin> set (map tr_id (transactions (w_db w)))"
        using transferWork_books [OF w2(1) o1 assms(2-4) ne] by (simp add: transfer_enabled_def)
      with n ne Inr None w2 Commit_calm [OF c w2(2)] show ?thesis
        by (auto simp: transferAttempt_work with_tx_def verdict_holds_def)
    qed
  qed
qed

lemma verdict_not_retryable:
  assumes "transfer_verdict cmd q d = Inl e" "\<And>e'. q = Inl e' \<Longrightarrow> errors_as_pg e' = None"
  shows "\<not> isRetryablePostgresError e"
  using assms unfolding transfer_verdict_def isRetryablePostgresError_def
  by (auto split: if_splits option.splits sum.splits)

lemma rate_reply_no_pg: "rate_reply env cfg cmd n w = Inl e \<Longrightarrow> errors_as_pg e = None"
  by (auto simp: rate_reply_def split: if_splits) (metis CheckRateLimit_no_pg prod.collapse)

text \<open>A calm attempt is never repeated, whichever attempt it is.\<close>

lemma transferLoop_calm:
  assumes c: "calm env" and inv: "db_inv (w_db w)" "command_ok cmd" "length (c_Key cmd) \<le> 128"
    and q: "rate_reply env cfg cmd (w_tick w + 3) w = q"
    and fresh: "\<And>n. find_idem (w_db w) (c_SenderID cmd) (c_Key cmd) = None \<Longrightarrow>
      \<exists>i. e_uuid env n = Inr i \<and> i \<notin> set (map tr_id (transactions (w_db w)))"
    and n: "attempt \<le> transferMaxAttempts"
  shows "transferLoop env cfg cmd attempt w = transferAttempt env cfg cmd w"
proof -
  obtain r w1 where a: "transferAttempt env cfg cmd w = (r, w1)" by force
  note h = attempt_calm [OF c inv q fresh]
  show ?thesis
  proof (cases r)
    case (Inr t)
    with a n show ?thesis by (simp add: transferLoop.simps [of _ _ _ attempt])
  next
    case (Inl e)
    have "transfer_verdict cmd q (w_db w) = Inl e"
      using h a Inl by (auto simp: verdict_holds_def split: sum.splits option.splits)
    moreover have "errors_as_pg e' = None" if "q = Inl e'" for e'
      using q that rate_reply_no_pg by metis
    ultimately have "\<not> isRetryablePostgresError e" by (rule verdict_not_retryable)
    with a Inl n show ?thesis by (simp add: transferLoop.simps [of _ _ _ attempt])
  qed
qed

lemma Transfer_calm:
  assumes c: "calm env" and inv: "db_inv (w_db w)" and a: "dec_int32_ok a" "IsPositive a"
      "FitsNumeric a moneyPrecision moneyScale" and k: "ValidateIdempotencyKey k = None"
    and fresh: "\<And>n. find_idem (w_db w) s k = None \<Longrightarrow>
      \<exists>i. e_uuid env n = Inr i \<and> i \<notin> set (map tr_id (transactions (w_db w)))"
    and t: "Transfer env cfg s r k a w = (res, w')"
  defines "cmd \<equiv> transferCommandOf env s r k a"
  shows "verdict_holds env cmd (w_db w) (transfer_verdict cmd (limiter env cfg cmd w) (w_db w)) res (w_db w')"
proof -
  have ok: "command_ok cmd" unfolding cmd_def using a(2,3,1) by (rule validated_command_ok)
  have kl: "length (c_Key cmd) \<le> 128" using k by (simp add: cmd_def valid_key_iff)
  have "agree ((enter_transfer w)\<lparr>w_tick := w_tick (enter_transfer w) + 3\<rparr>) (w\<lparr>w_tick := w_tick w + 3\<rparr>)"
    by (simp add: agree_def)
  from CheckRateLimit_agree [OF this]
  have q: "rate_reply env cfg cmd (w_tick (enter_transfer w) + 3) (enter_transfer w) = limiter env cfg cmd w"
    by (simp add: limiter_def rate_reply_def)
  have inv': "db_inv (w_db (enter_transfer w))" using inv by simp
  have fresh': "find_idem (w_db (enter_transfer w)) (c_SenderID cmd) (c_Key cmd) = None \<Longrightarrow>
    \<exists>i. e_uuid env n = Inr i \<and> i \<notin> set (map tr_id (transactions (w_db (enter_transfer w))))" for n
    using fresh by (simp add: cmd_def)
  have "1 \<le> transferMaxAttempts" by (simp add: transferMaxAttempts_def)
  note lc = transferLoop_calm [OF c inv' ok kl q fresh' this]
  have "Transfer env cfg s r k a w = (fst (transferAttempt env cfg cmd (enter_transfer w)),
      leave_transfer (snd (transferAttempt env cfg cmd (enter_transfer w))))"
    using k a lc by (simp add: Transfer_def cmd_def split: prod.split)
  with t have "res = fst (transferAttempt env cfg cmd (enter_transfer w))"
    "w' = leave_transfer (snd (transferAttempt env cfg cmd (enter_transfer w)))" by simp_all
  then show ?thesis using attempt_calm [OF c inv' ok kl q fresh'] by simp
qed

end
