(* ===== verification/Samples.thy ===== *)
theory Samples
  imports Transfer_Calm
begin

text \<open>
  A small populated system on which the properties are evaluated: two accounts, an environment
  without faults and one whose first statement fails.
\<close>

definition alice :: uuid where "alice = 1"
definition bob :: uuid where "bob = 2"

definition sample_account :: "uuid \<Rightarrow> string \<Rightarrow> rat \<Rightarrow> account_row" where
  "sample_account i email b = \<lparr>ar_id = i, ar_name = ''name'', ar_email = email,
     ar_password_hash = ''hash'', ar_role = RoleUser, ar_balance = b\<rparr>"

definition sample_db :: database where
  "sample_db = \<lparr>accounts = [sample_account alice ''alice@example.com'' 100,
     sample_account bob ''bob@example.com'' 5],
     transactions = [], tokens = [], idempotency = []\<rparr>"

definition sample_world :: "database \<Rightarrow> world" where
  "sample_world d = \<lparr>w_db = d, w_tx = None, w_redis = (\<lambda>_. None), w_tick = 0\<rparr>"

definition sample_env :: env where
  "sample_env = \<lparr>e_fault = (\<lambda>_. None), e_redis_fault = (\<lambda>_. None), e_commit = (\<lambda>_. CommitOk),
     e_uuid = (\<lambda>n. Inr (7 + of_nat n)), e_clock = (\<lambda>n. 1000000000 * (1000 + int n)),
     e_pg_now = (\<lambda>n. 1000000000 * (1000 + int n)), e_redis_now = (\<lambda>n. 1000 + int n),
     e_done = (\<lambda>_. False), e_uuid_text = (\<lambda>u. int_text (uint u)), e_pg_lower = (\<lambda>s. s),
     e_uuid_parse = (\<lambda>s. map_option of_int (big_set_string s)), e_unicode_lower = (\<lambda>s. s),
     e_bcrypt_hash = (\<lambda>n p. Inr (''hash:'' @ p)), e_bcrypt_compare = (\<lambda>h p. h = ''hash:'' @ p),
     e_jwt_sign = (\<lambda>k c. Inr (k @ ''/'' @ jc_ID c)), e_jwt_parse = (\<lambda>k i n t. Inl JwtOther)\<rparr>"

definition faulty_env :: env where
  "faulty_env = sample_env\<lparr>e_fault := (\<lambda>n. Some (Plain ''connection refused''))\<rparr>"

definition sample_limits :: redis_limits where
  "sample_limits = \<lparr>rateLimitMin = 5, rateLimitHour = 60, rateLimitDay = 500\<rparr>"

definition ten :: decimal where "ten = \<lparr>d_value = Some 10, d_exp = 0\<rparr>"

lemma storable_numeral: "\<bar>of_int z :: rat\<bar> < 10 ^ 18 \<Longrightarrow> storable (of_int z)"
proof -
  assume b: "\<bar>of_int z :: rat\<bar> < 10 ^ 18"
  have "(of_int z :: rat) * money_unit = of_int (z * 10 ^ 18)" by (simp add: money_unit_def)
  with b show ?thesis unfolding storable_iff by blast
qed

lemma sample_storable: "storable 100" "storable 5" "storable 10"
  using storable_numeral [of 100] storable_numeral [of 5] storable_numeral [of 10] by simp_all

lemma sample_inv: "db_inv sample_db"
  by (simp add: db_inv_def accounts_ok_def transactions_ok_def tokens_ok_def idempotency_ok_def
    sample_db_def sample_account_def sample_storable alice_def bob_def)

lemma sample_calm: "calm sample_env"
  by (simp add: calm_def sample_env_def)

lemma ten_ok: "dec_int32_ok ten" "IsPositive ten" "FitsNumeric ten moneyPrecision moneyScale"
  "dec_rat ten = 10" "dec_wf ten"
proof -
  show "dec_int32_ok ten" "IsPositive ten" "FitsNumeric ten moneyPrecision moneyScale" by code_simp+
  show "dec_rat ten = 10" "dec_wf ten" by (simp_all add: dec_rat_def ten_def dec_wf_def MaxAbsExponent_def)
qed

lemma sample_key: "ValidateIdempotencyKey ''order-1'' = None"
  by code_simp

lemma sample_world_simps [simp]:
  "w_db (sample_world d) = d" "w_tx (sample_world d) = None" "w_tick (sample_world d) = 0"
  by (simp_all add: sample_world_def)

lemma sample_balances: "balance_of sample_db alice = Some 100" "balance_of sample_db bob = Some 5"
  "total_balance sample_db = 105"
  by (simp_all add: balance_of_def find_row_def total_balance_def sample_db_def sample_account_def
    alice_def bob_def)

lemma sample_uuid_text: "uuid_text_ok sample_env"
proof -
  have "CHR 0x00 \<notin> set (int_text (uint u))" for u :: uuid
  proof -
    have "list_all is_digit (int_text (uint u))" by (simp add: int_text_nonneg digits_nat_text)
    moreover have "\<not> is_digit (CHR 0x00)" by (simp add: is_digit_def)
    ultimately show ?thesis by (auto simp: list_all_iff)
  qed
  moreover have "inj (\<lambda>u :: uuid. int_text (uint u))" by (simp add: inj_on_def int_text_inj word_uint_eq_iff)
  ultimately show ?thesis by (simp add: uuid_text_ok_def sample_env_def)
qed

text \<open>The same system after Alice has sent Bob ten; a third user who took no part.\<close>

definition eve :: uuid where "eve = 3"

definition traded_db :: database where
  "traded_db = apply_transfer (transferCommandOf sample_env alice bob ''order-1'' ten) 9 1000000000000 sample_db"

lemma traded_inv: "db_inv traded_db"
proof -
  have "command_ok (transferCommandOf sample_env alice bob ''order-1'' ten)"
    using ten_ok by (intro validated_command_ok)
  moreover have "alice \<noteq> bob" "find_idem sample_db alice ''order-1'' = None" "transactions sample_db = []"
    by (simp_all add: alice_def bob_def find_idem_def find_row_def sample_db_def)
  then have "transfer_enabled (transferCommandOf sample_env alice bob ''order-1'' ten) 9 sample_db"
    by (simp add: transfer_enabled_def sample_balances ten_ok)
  ultimately show ?thesis unfolding traded_db_def using sample_inv by (intro db_inv_apply)
qed

definition traded_row :: tx_row where
  "traded_row = \<lparr>tr_id = 9, tr_amount = 10, tr_sender = alice, tr_receiver = bob,
     tr_status = StatusCompleted, tr_created_at = 1000000000000\<rparr>"

lemma traded_transactions: "transactions traded_db = [traded_row]"
  by (simp add: traded_db_def apply_transfer_def transfer_row_def sample_db_def traded_row_def ten_ok)

lemma sample_admits:
  fixes w :: "'z world_scheme"
  assumes "w_redis w = (\<lambda>_. None)" "w_tick w = 0" "u = alice \<or> u = eve"
  shows "fst (CheckRateLimit sample_env sample_limits (e_uuid_text sample_env u) w) = Inr ()"
proof -
  have "fst (CheckRateLimit sample_env sample_limits (e_uuid_text sample_env u) w)
      = fst (CheckRateLimit sample_env sample_limits (e_uuid_text sample_env u) (sample_world sample_db))"
    using assms by (intro CheckRateLimit_agree [THEN conjunct1]) (simp add: agree_def sample_world_def)
  moreover have "fst (CheckRateLimit sample_env sample_limits (e_uuid_text sample_env alice) (sample_world sample_db)) = Inr ()"
    "fst (CheckRateLimit sample_env sample_limits (e_uuid_text sample_env eve) (sample_world sample_db)) = Inr ()"
    by code_simp+
  ultimately show ?thesis using assms(3) by auto
qed

end
