(* ===== verification/Contracts.thy ===== *)
theory Contracts
  imports World
begin

text \<open>
  The contracts the services are held to, as locales. \<open>steady_server\<close>: a request handler with an
  invariant. Three contracts extend it, whose clients learn what any sequence of requests does:
  \<open>keyed_service\<close> records the outcome of each key and acts on a key at most once, \<open>one_time\<close>
  accepts a key at most once, \<open>keeping_server\<close> keeps a relation between states. \<open>read_only\<close>: the body of a service that only
  reads; its clients learn that the service changes no table, committed or not.
\<close>

section \<open>Sequences of requests\<close>

fun serve_all :: "('q \<Rightarrow> 's \<Rightarrow> 'r \<times> 's) \<Rightarrow> 'q list \<Rightarrow> 's \<Rightarrow> ('q \<times> 'r) list \<times> 's" where
  "serve_all step [] s = ([], s)"
| "serve_all step (q # qs) s =
     (case step q s of (r, s1) \<Rightarrow> (case serve_all step qs s1 of (rs, s2) \<Rightarrow> ((q, r) # rs, s2)))"

text \<open>The number of requests among those with \<open>P\<close> that changed the data.\<close>

fun changes :: "('q \<Rightarrow> 's \<Rightarrow> 'r \<times> 's) \<Rightarrow> ('s \<Rightarrow> 'd) \<Rightarrow> ('q \<Rightarrow> bool) \<Rightarrow> 'q list \<Rightarrow> 's \<Rightarrow> nat" where
  "changes step data P [] s = 0"
| "changes step data P (q # qs) s =
     (if P q \<and> data (snd (step q s)) \<noteq> data s then 1 else 0)
     + changes step data P qs (snd (step q s))"

text \<open>
  A server that keeps an invariant as long as the requests it gets are well formed. The other
  contracts of servers extend it.
\<close>

locale steady_server =
  fixes step :: "'q \<Rightarrow> 's \<Rightarrow> 'r \<times> 's"
    and inv :: "'s \<Rightarrow> bool"
    and req_ok :: "'q \<Rightarrow> bool"
  assumes inv_step: "inv s \<Longrightarrow> req_ok q \<Longrightarrow> inv (snd (step q s))"
begin

lemma serve_Cons:
  "fst (serve_all step (q # qs) s) = (q, fst (step q s)) # fst (serve_all step qs (snd (step q s)))"
  "snd (serve_all step (q # qs) s) = snd (serve_all step qs (snd (step q s)))"
  by (simp_all split: prod.split)

lemma inv_serve_all:
  "inv s \<Longrightarrow> \<forall>q\<in>set qs. req_ok q \<Longrightarrow> inv (snd (serve_all step qs s))"
proof (induction qs arbitrary: s)
  case (Cons q qs)
  then have "inv (snd (serve_all step qs (snd (step q s))))" by (intro Cons.IH inv_step) auto
  then show ?case by (simp only: serve_Cons)
qed simp

end

text \<open>A service that records the outcome of each key and acts on a key at most once.\<close>

locale keyed_service = steady_server step inv req_ok
  for step :: "'q \<Rightarrow> 's \<Rightarrow> ('e + 't) \<times> 's" and inv :: "'s \<Rightarrow> bool" and req_ok :: "'q \<Rightarrow> bool" +
  fixes key :: "'q \<Rightarrow> 'k"
    and data :: "'s \<Rightarrow> 'd"
    and recorded :: "'s \<Rightarrow> 'k \<Rightarrow> 'v option"
    and reply :: "'v \<Rightarrow> 't"
  assumes acts_once: "inv s \<Longrightarrow> req_ok q \<Longrightarrow> data (snd (step q s)) \<noteq> data s \<Longrightarrow>
      recorded s (key q) = None \<and> recorded (snd (step q s)) (key q) \<noteq> None"
    and keeps_records: "inv s \<Longrightarrow> req_ok q \<Longrightarrow> recorded s k = Some v \<Longrightarrow>
      recorded (snd (step q s)) k = Some v"
    and replies_record: "inv s \<Longrightarrow> req_ok q \<Longrightarrow> step q s = (Inr t, s') \<Longrightarrow>
      \<exists>v. recorded s' (key q) = Some v \<and> t = reply v"
begin

lemma no_change_when_recorded:
  "inv s \<Longrightarrow> \<forall>q\<in>set qs. req_ok q \<Longrightarrow> recorded s k \<noteq> None \<Longrightarrow>
     changes step data (\<lambda>q. key q = k) qs s = 0"
proof (induction qs arbitrary: s)
  case (Cons q qs)
  then have "\<not> (key q = k \<and> data (snd (step q s)) \<noteq> data s)" using acts_once [of s q] by (metis list.set_intros(1))
  moreover have "recorded (snd (step q s)) k \<noteq> None"
    using Cons.prems keeps_records [of s q k] by auto
  then have "changes step data (\<lambda>q. key q = k) qs (snd (step q s)) = 0"
    using Cons.prems inv_step [of s q] by (intro Cons.IH) auto
  ultimately show ?case by simp
qed simp

lemma at_most_once:
  "inv s \<Longrightarrow> \<forall>q\<in>set qs. req_ok q \<Longrightarrow> changes step data (\<lambda>q. key q = k) qs s \<le> 1"
proof (induction qs arbitrary: s)
  case (Cons q qs)
  have next_inv: "inv (snd (step q s))" "\<forall>q\<in>set qs. req_ok q" using Cons.prems inv_step [of s q] by auto
  show ?case
  proof (cases "key q = k \<and> data (snd (step q s)) \<noteq> data s")
    case True
    then have "recorded (snd (step q s)) k \<noteq> None" using Cons.prems acts_once [of s q] by auto
    with no_change_when_recorded [OF next_inv] True show ?thesis by simp
  next
    case False
    with Cons.IH [OF next_inv] show ?thesis by auto
  qed
qed simp

lemma replies_agree_with_record:
  "inv s \<Longrightarrow> \<forall>q\<in>set qs. req_ok q \<Longrightarrow> recorded s k = Some v \<Longrightarrow>
     (q, Inr t) \<in> set (fst (serve_all step qs s)) \<Longrightarrow> key q = k \<Longrightarrow> t = reply v"
proof (induction qs arbitrary: s)
  case (Cons p qs)
  obtain r s1 where s1: "step p s = (r, s1)" by force
  have inv1: "inv s1" "\<forall>q\<in>set qs. req_ok q" "recorded s1 k = Some v"
    using Cons.prems inv_step [of s p] keeps_records [of s p k v] s1 by auto
  from Cons.prems(4) s1 consider "q = p" "r = Inr t" | "(q, Inr t) \<in> set (fst (serve_all step qs s1))"
    by (auto split: prod.splits)
  then show ?case
  proof cases
    case 1
    with replies_record [of s p t s1] s1 inv1(3) Cons.prems show ?thesis by auto
  next
    case 2
    with Cons.IH [OF inv1] Cons.prems(5) show ?thesis by blast
  qed
qed simp

lemma replies_agree:
  "inv s \<Longrightarrow> \<forall>q\<in>set qs. req_ok q \<Longrightarrow> (q, Inr t) \<in> set (fst (serve_all step qs s)) \<Longrightarrow>
     (q', Inr t') \<in> set (fst (serve_all step qs s)) \<Longrightarrow> key q = key q' \<Longrightarrow> t = t'"
proof (induction qs arbitrary: s)
  case (Cons p qs)
  obtain r s1 where s1: "step p s = (r, s1)" by force
  have inv1: "inv s1" "\<forall>q\<in>set qs. req_ok q" using Cons.prems inv_step [of s p] s1 by auto
  have first: "u = u'" if "p = x" "r = Inr u" "(x', Inr u') \<in> set (fst (serve_all step qs s1))"
    "key x = key x'" for x x' u u'
  proof -
    from that s1 replies_record [of s p u s1] Cons.prems obtain v
      where v: "recorded s1 (key p) = Some v" "u = reply v" by auto
    with replies_agree_with_record [OF inv1 v(1) that(3)] that show ?thesis by simp
  qed
  from Cons.prems(3,4) s1 have "(p = q \<and> r = Inr t \<or> (q, Inr t) \<in> set (fst (serve_all step qs s1)))
      \<and> (p = q' \<and> r = Inr t' \<or> (q', Inr t') \<in> set (fst (serve_all step qs s1)))"
    by (auto split: prod.splits)
  with first [of q t q' t'] first [of q' t' q t] Cons.IH [OF inv1] Cons.prems(5) show ?case
    by auto
qed simp

end

text \<open>A service that accepts a key at most once: the reply that accepts it uses it up.\<close>

locale one_time = steady_server step inv "\<lambda>_. True"
  for step :: "'q \<Rightarrow> 's \<Rightarrow> ('e + 't) \<times> 's" and inv :: "'s \<Rightarrow> bool" +
  fixes key :: "'q \<Rightarrow> 'k option"
    and used :: "'s \<Rightarrow> 'k \<Rightarrow> bool"
  assumes accepted_once: "inv s \<Longrightarrow> step q s = (Inr t, s') \<Longrightarrow> key q = Some k \<Longrightarrow> \<not> used s k \<and> used s' k"
    and used_stays: "inv s \<Longrightarrow> used s k \<Longrightarrow> used (snd (step q s)) k"
begin

definition accepts :: "'k \<Rightarrow> 'q \<times> ('e + 't) \<Rightarrow> bool" where
  "accepts k qr \<longleftrightarrow> key (fst qr) = Some k \<and> \<not> isl (snd qr)"

lemma not_if_used: "inv s \<Longrightarrow> used s k \<Longrightarrow> filter (accepts k) (fst (serve_all step qs s)) = []"
proof (induction qs arbitrary: s)
  case (Cons q qs)
  have "\<not> accepts k (q, fst (step q s))"
  proof
    assume a: "accepts k (q, fst (step q s))"
    then have k: "key q = Some k" and "\<not> isl (fst (step q s))" by (simp_all add: accepts_def)
    then obtain t where "step q s = (Inr t, snd (step q s))" by (metis prod.collapse sum.collapse(2))
    with accepted_once [OF Cons.prems(1) this k] Cons.prems(2) show False by blast
  qed
  with Cons.IH [OF inv_step [OF Cons.prems(1) TrueI] used_stays [OF Cons.prems]] show ?case
    by (simp only: serve_Cons filter.simps if_False)
qed simp

lemma at_most_one: "inv s \<Longrightarrow> length (filter (accepts k) (fst (serve_all step qs s))) \<le> 1"
proof (induction qs arbitrary: s)
  case (Cons q qs)
  show ?case
  proof (cases "accepts k (q, fst (step q s))")
    case True
    then have k: "key q = Some k" and "\<not> isl (fst (step q s))" by (simp_all add: accepts_def)
    then obtain t where "step q s = (Inr t, snd (step q s))" by (metis prod.collapse sum.collapse(2))
    with accepted_once [OF Cons.prems this k] have "used (snd (step q s)) k" by blast
    with not_if_used [OF inv_step [OF Cons.prems TrueI]] True show ?thesis
      by (simp only: serve_Cons filter.simps if_True list.size)
  next
    case False
    with Cons.IH [OF inv_step [OF Cons.prems TrueI]] show ?thesis
      by (simp only: serve_Cons filter.simps if_False)
  qed
qed simp

end

text \<open>The contract of a server each of whose steps keeps a transitive relation from good states.\<close>

locale keeping_server =
  fixes step :: "'q \<Rightarrow> 's \<Rightarrow> 'r \<times> 's"
    and good :: "'s \<Rightarrow> bool"
    and kept :: "'s \<Rightarrow> 's \<Rightarrow> bool"
  assumes kept_by_step: "good s \<Longrightarrow> kept s (snd (step q s))"
    and kept_refl: "good s \<Longrightarrow> kept s s"
    and kept_good: "kept s s' \<Longrightarrow> good s'"
    and kept_trans: "kept s s' \<Longrightarrow> kept s' s'' \<Longrightarrow> kept s s''"
begin

lemma good_step: "good s \<Longrightarrow> good (snd (step q s))"
  by (rule kept_good) (rule kept_by_step)

end

sublocale keeping_server \<subseteq> steady_server step good "\<lambda>_. True"
  by unfold_locales (rule good_step)

context keeping_server begin

lemma kept_by_all: "good s \<Longrightarrow> kept s (snd (serve_all step qs s))"
proof (induction qs arbitrary: s)
  case (Cons q qs)
  from kept_trans [OF kept_by_step [OF Cons.prems] Cons.IH [OF inv_step [OF Cons.prems TrueI]]]
  show ?case by (simp only: serve_Cons)
qed (simp add: kept_refl)

end

section \<open>Services that only read\<close>

definition same_tables :: "'z world_scheme \<Rightarrow> 'z world_scheme \<Rightarrow> bool" where
  "same_tables w w' \<longleftrightarrow> w_db w' = w_db w
     \<and> (\<forall>t. w_tx w' = Some t \<longrightarrow> (\<exists>t0. w_tx w = Some t0 \<and> t_db t0 = t_db t))"

lemma same_tables_refl_trans [inv_intros]: "reflp same_tables" "transp same_tables"
  by (force simp: same_tables_def reflp_def transp_def)+

locale read_only =
  fixes body :: "('z, 'a) io"
  assumes reads: "stays same_tables body"
begin

lemma transaction_reads_wrapped:
  "stays same_db (with_tx env wrap
     (bindE body (\<lambda>x. bindE (mapErr m (Commit env)) (\<lambda>_. returnE (f x)))))" (is "stays same_db ?service")
proof (rule staysI)
  fix w :: "'z world_scheme"
  show "same_db w (snd (?service w))"
  proof (cases "NewTX env w")
    case (Pair q w1)
    have n: "w_db w1 = w_db w" "\<And>u t. q = Inr u \<Longrightarrow> w_tx w1 = Some t \<Longrightarrow> t_db t = w_db w"
      using Pair by (auto simp: NewTX_def split: option.splits)
    obtain p w2 where b: "body w1 = (p, w2)" by force
    with reads have "same_tables w1 w2" by (rule staysD)
    with n Pair b show ?thesis
      by (cases q; cases p; cases "w_tx w2")
        (auto simp: with_tx_def bindE_def mapErr_def Commit_def same_db_def same_tables_def
          split: prod.splits commit_outcome.splits sum.splits)
  qed
qed

lemma transaction_reads:
  "stays same_db (with_tx env wrap (bindE body (\<lambda>x. bindE (Commit env) (\<lambda>_. returnE (f x)))))"
  using transaction_reads_wrapped [of env wrap "\<lambda>e. e" f] by (simp only: mapErr_id)

end

end
