(* ===== verification/Transfer_Props.thy ===== *)
theory Transfer_Props
  imports Samples Contracts
begin

text \<open>
  The properties of the transfer: refinement of the ledger, conservation of money, the books
  that agree with the balances, atomicity, exactly-once execution per idempotency key, the
  decision table of the fault-free case, the fingerprint.
\<close>

section \<open>Money\<close>

lemma total_move:
  assumes "db_inv d" "command_ok cmd" "transfer_enabled cmd i d"
  shows "total_balance (apply_transfer cmd i now d) = total_balance d"
proof -
  from assms(3) obtain bs br where e: "balance_of d (c_SenderID cmd) = Some bs" "amt cmd \<le> bs"
    "balance_of d (c_ReceiverID cmd) = Some br" by (rule enabledE)
  have acc: "accounts_ok d" using assms(1) by (simp add: db_inv_def)
  have ex: "account_exists d (c_SenderID cmd)" "account_exists d (c_ReceiverID cmd)"
    using e by (simp_all add: account_exists_balance)
  have "total_balance (apply_transfer cmd i now d)
      = total_balance (move_money (c_SenderID cmd) (c_ReceiverID cmd) (amt cmd) d)"
    by (simp add: total_balance_def)
  also have "\<dots> = total_balance d"
    using total_change [OF acc ex(1)] ex(2)
      total_change [OF accounts_ok_debit [OF acc assms(2) e(1,2)], of "c_ReceiverID cmd" "amt cmd"]
    by (simp add: move_money_def)
  finally show ?thesis .
qed

lemma ledger_step_total:
  "ledger_step env cmd d r d' \<Longrightarrow> db_inv d \<Longrightarrow> command_ok cmd \<Longrightarrow> total_balance d' = total_balance d"
  by (erule ledger_stepE) (auto intro: total_move)

text \<open>The balance an account had before the transactions on record.\<close>

definition opening_balance :: "database \<Rightarrow> uuid \<Rightarrow> rat option" where
  "opening_balance d i = map_option (\<lambda>b. b - credits d i + debits d i) (balance_of d i)"

lemma opening_apply:
  assumes "c_SenderID cmd \<noteq> c_ReceiverID cmd"
  shows "opening_balance (apply_transfer cmd i now d) j = opening_balance d j"
proof -
  have "credits (apply_transfer cmd i now d) j = credits d j + (if j = c_ReceiverID cmd then amt cmd else 0)"
    "debits (apply_transfer cmd i now d) j = debits d j + (if j = c_SenderID cmd then amt cmd else 0)"
    by (auto simp: credits_def debits_def apply_transfer_def transfer_row_def)
  with balance_after [OF assms, of i now d j] assms show ?thesis
    by (cases "balance_of d j") (auto simp: opening_balance_def)
qed

lemma ledger_step_opening:
  "ledger_step env cmd d r d' \<Longrightarrow> opening_balance d' j = opening_balance d j"
  by (erule ledger_stepE) (auto simp: transfer_enabled_def intro: opening_apply)

section \<open>Exactly once\<close>

record transfer_request =
  q_env :: env
  q_limits :: redis_limits
  q_sender :: uuid
  q_receiver :: uuid
  q_key :: string
  q_amount :: decimal

definition serve_transfer :: "transfer_request \<Rightarrow> (world, error, string) go" where
  "serve_transfer q = Transfer (q_env q) (q_limits q) (q_sender q) (q_receiver q) (q_key q) (q_amount q)"

definition request_ok :: "(uuid \<Rightarrow> string) \<Rightarrow> transfer_request \<Rightarrow> bool" where
  "request_ok showid q \<longleftrightarrow> dec_int32_ok (q_amount q) \<and> e_uuid_text (q_env q) = showid"

definition request_key :: "transfer_request \<Rightarrow> uuid \<times> string" where
  "request_key q = (q_sender q, q_key q)"

definition recorded_transfer :: "world \<Rightarrow> uuid \<times> string \<Rightarrow> uuid option" where
  "recorded_transfer w sk = (case find_idem (w_db w) (fst sk) (snd sk) of None \<Rightarrow> None | Some row \<Rightarrow> ir_tx row)"

lemma find_idem_names: "db_inv d \<Longrightarrow> find_idem d s k = Some row \<Longrightarrow> \<exists>i. ir_tx row = Some i"
  unfolding find_idem_def by (drule find_row_Some) (auto dest: idem_names_tx)

lemma recorded_None: "db_inv (w_db w) \<Longrightarrow> recorded_transfer w sk = None \<longleftrightarrow> find_idem (w_db w) (fst sk) (snd sk) = None"
  by (auto simp: recorded_transfer_def dest: find_idem_names split: option.splits)

lemma find_idem_kept:
  "find_idem d s k = Some row \<Longrightarrow> find_idem (apply_transfer cmd i now d) s k = Some row"
  by (simp add: find_idem_def apply_transfer_def find_row_app_Some)

lemma serve_transfer_step:
  assumes "db_inv (w_db w)" "request_ok showid q" "serve_transfer q w = (res, w')"
  shows "ledger_step (q_env q) (transferCommandOf (q_env q) (q_sender q) (q_receiver q) (q_key q) (q_amount q))
      (w_db w) res (w_db w')" "db_inv (w_db w')"
  using assms Transfer_is_ledger_step Transfer_keeps_inv by (auto simp: serve_transfer_def request_ok_def)

interpretation steady_transfers: steady_server serve_transfer "\<lambda>w. db_inv (w_db w)" "request_ok showid"
  for showid :: "uuid \<Rightarrow> string"
  by unfold_locales (metis prod.collapse serve_transfer_step(2))

interpretation transfers: keyed_service serve_transfer "\<lambda>w. db_inv (w_db w)" "request_ok showid"
  request_key w_db recorded_transfer showid for showid :: "uuid \<Rightarrow> string"
proof unfold_locales
  fix w :: world and q :: transfer_request
  assume inv: "db_inv (w_db w)" and q: "request_ok showid q"
  obtain res w' where s: "serve_transfer q w = (res, w')" by force
  note step = serve_transfer_step [OF inv q s]
  show "recorded_transfer w (request_key q) = None
      \<and> recorded_transfer (snd (serve_transfer q w)) (request_key q) \<noteq> None"
    if "w_db (snd (serve_transfer q w)) \<noteq> w_db w"
    using step(1) that s inv
    by (elim ledger_stepE) (auto simp: recorded_transfer_def request_key_def find_idem_app_new
      transfer_enabled_def transfer_record_def)
  show "recorded_transfer (snd (serve_transfer q w)) k = Some v" if "recorded_transfer w k = Some v" for k v
    using step(1) that s
    by (elim ledger_stepE) (auto simp: recorded_transfer_def find_idem_kept split: option.splits)
next
  fix w w' :: world and q :: transfer_request and t :: string
  assume inv: "db_inv (w_db w)" and q: "request_ok showid q" and s: "serve_transfer q w = (Inr t, w')"
  from serve_transfer_step(1) [OF inv q s] q
  show "\<exists>v. recorded_transfer w' (request_key q) = Some v \<and> t = showid v"
    by (elim ledger_step_okE) (auto simp: recorded_transfer_def request_key_def find_idem_app_new
      transfer_enabled_def transfer_record_def request_ok_def)
qed

section \<open>The fingerprint\<close>

lemma split_at_char:
  "c \<notin> set x \<Longrightarrow> c \<notin> set x' \<Longrightarrow> x @ c # y = x' @ c # y' \<longleftrightarrow> x = x' \<and> y = y'"
proof (induction x arbitrary: x')
  case Nil
  then show ?case by (cases x') auto
next
  case (Cons a x)
  then show ?case by (cases x') auto
qed

lemma payload_inj:
  assumes "uuid_text_ok env"
  shows "transferPayload env c = transferPayload env c' \<longleftrightarrow>
    c_SenderID c = c_SenderID c' \<and> c_ReceiverID c = c_ReceiverID c'
    \<and> decString (c_Amount c) = decString (c_Amount c')"
  using assms by (auto simp: transferPayload_def uuid_text_ok_def split_at_char inj_eq)

definition no_collision :: "string \<Rightarrow> string \<Rightarrow> bool" where
  "no_collision p p' \<longleftrightarrow> (sha256_Sum256 p = sha256_Sum256 p' \<longrightarrow> p = p')"

lemma fingerprint_payload:
  assumes "uuid_text_ok env" "dec_wf (c_Amount c)" "dec_wf (c_Amount c')"
    "no_collision (transferPayload env c) (transferPayload env c')"
  shows "transferFingerprint env c = transferFingerprint env c' \<longleftrightarrow>
    c_SenderID c = c_SenderID c' \<and> c_ReceiverID c = c_ReceiverID c' \<and> amt c = amt c'"
proof -
  have "transferFingerprint env c = transferFingerprint env c'
      \<longleftrightarrow> transferPayload env c = transferPayload env c'"
    using assms(4) by (auto simp: transferFingerprint_def hex_inj no_collision_def)
  then show ?thesis using assms by (simp add: payload_inj decString_iff)
qed

section \<open>Properties of the transfer\<close>

text \<open>
  C1: refinement. Whatever faults the database, the cache, the clock and the commits inject,
  one call of \<open>Transfer\<close> with its retries is one step of the abstract ledger: it refuses and
  changes no table, or replays the recorded transaction of the same payload and changes no
  table, or moves the money exactly once and reports the new transaction, or (only when a
  commit's outcome is unknown) moves it exactly once and reports an error.
\<close>
theorem transfer_refines_ledger:
  assumes "Transfer env cfg s r k a w = (res, w')" "db_inv (w_db w)" "dec_int32_ok a"
  shows "ledger_step env (transferCommandOf env s r k a) (w_db w) res (w_db w')"
  using assms by (rule Transfer_is_ledger_step)

theorem transfer_refines_ledger_witness:
  "\<exists>res w'. Transfer sample_env sample_limits alice bob ''order-1'' ten (sample_world sample_db) = (res, w')
     \<and> ledger_step sample_env (transferCommandOf sample_env alice bob ''order-1'' ten) sample_db res (w_db w')"
proof -
  obtain res w' where t: "Transfer sample_env sample_limits alice bob ''order-1'' ten (sample_world sample_db) = (res, w')"
    by force
  from transfer_refines_ledger [OF t _ ten_ok(1)] t sample_inv show ?thesis by simp
qed

text \<open>
  Conservation and integrity. A transfer keeps the integrity of the tables (balances in
  range and never negative, unique ids, references, completed idempotency records) and the
  sum of all balances, under every schedule of faults.
\<close>
lemma transfer_conserves_money:
  assumes "db_inv (w_db w)" "dec_int32_ok a"
  shows "db_inv (w_db (snd (Transfer env cfg s r k a w)))
    \<and> total_balance (w_db (snd (Transfer env cfg s r k a w))) = total_balance (w_db w)"
proof -
  obtain res w' where t: "Transfer env cfg s r k a w = (res, w')" by force
  have "total_balance (w_db w') = total_balance (w_db w)"
  proof (cases "w_db w' = w_db w")
    case False
    with Transfer_command_ok [OF t assms(2)] ledger_step_total [OF Transfer_is_ledger_step [OF t assms] assms(1)]
    show ?thesis by simp
  qed simp
  with Transfer_keeps_inv [OF t assms] t show ?thesis by simp
qed

text \<open>
  The books agree with the balances. For every account the balance less the completed
  incoming plus the completed outgoing transactions (its opening balance) is not changed by a
  transfer: no balance moves without a transaction row, and no row without its balances.
\<close>
lemma transfer_books_agree:
  assumes "db_inv (w_db w)" "dec_int32_ok a"
  shows "opening_balance (w_db (snd (Transfer env cfg s r k a w))) i = opening_balance (w_db w) i"
proof -
  obtain res w' where t: "Transfer env cfg s r k a w = (res, w')" by force
  from ledger_step_opening [OF Transfer_is_ledger_step [OF t assms]] t show ?thesis by simp
qed

text \<open>
  C10: atomicity. When \<open>Transfer\<close> returns an error and no commit left its outcome unknown, no
  table has changed: no partial debit, no orphaned transaction row, no reserved key.
\<close>
theorem transfer_error_atomic:
  assumes "Transfer env cfg s r k a w = (Inl e, w')" "db_inv (w_db w)" "dec_int32_ok a"
    "\<And>n e. e_commit env n \<noteq> CommitUnknown e"
  shows "w_db w' = w_db w"
  using Transfer_is_ledger_step [OF assms(1-3)] assms(4) by (auto elim: ledger_step_errorE)

theorem transfer_error_atomic_witness:
  "\<exists>e w'. Transfer faulty_env sample_limits alice bob ''order-1'' ten (sample_world sample_db) = (Inl e, w')
     \<and> w_db w' = sample_db"
proof -
  have n: "NewTX faulty_env (enter_transfer (sample_world sample_db))
      = (Inl (Wrapped ''tx begin'' (Plain ''connection refused'')), tick (enter_transfer (sample_world sample_db)))"
    by (simp add: NewTX_def faulty_env_def)
  have r: "\<not> isRetryablePostgresError (Wrapped ''tx begin'' (Plain ''connection refused''))"
    by (simp add: isRetryablePostgresError_def)
  have "\<exists>e w'. Transfer faulty_env sample_limits alice bob ''order-1'' ten (sample_world sample_db) = (Inl e, w')"
    using n r sample_key ten_ok
    by (simp add: Transfer_def transferLoop.simps [of _ _ _ 1] transferMaxAttempts_def transferAttempt_def with_tx_def)
  then obtain e w' where t: "Transfer faulty_env sample_limits alice bob ''order-1'' ten (sample_world sample_db) = (Inl e, w')"
    by blast
  have "e_commit faulty_env n \<noteq> CommitUnknown x" for n x by (simp add: faulty_env_def sample_env_def)
  from transfer_error_atomic [OF t _ ten_ok(1) this] t sample_inv show ?thesis by auto
qed

text \<open>
  C2: exactly once. Over any sequence of transfer requests, each with its own faults, limits
  and payload, at most one of those with a given sender and idempotency key changes the
  tables; once one has, none of the later ones does, not even after an ambiguous commit.
\<close>
theorem transfer_executes_once:
  assumes "db_inv (w_db w)" "\<forall>q\<in>set qs. request_ok showid q"
  shows "changes serve_transfer w_db (\<lambda>q. request_key q = sk) qs w \<le> 1"
  using assms by (rule transfers.at_most_once)

definition sample_request :: transfer_request where
  "sample_request = \<lparr>q_env = sample_env, q_limits = sample_limits, q_sender = alice, q_receiver = bob,
     q_key = ''order-1'', q_amount = ten\<rparr>"

lemma sample_request_ok: "request_ok (e_uuid_text sample_env) sample_request"
  using ten_ok(1) by (simp add: request_ok_def sample_request_def)

theorem transfer_executes_once_witness:
  "changes serve_transfer w_db (\<lambda>q. request_key q = (alice, ''order-1''))
     [sample_request, sample_request\<lparr>q_receiver := 3\<rparr>, sample_request] (sample_world sample_db) \<le> 1"
proof -
  have "\<forall>q\<in>set [sample_request, sample_request\<lparr>q_receiver := 3\<rparr>, sample_request].
      request_ok (e_uuid_text sample_env) q"
    using sample_request_ok by (simp add: request_ok_def)
  then show ?thesis by (rule transfer_executes_once [rotated]) (use sample_inv in simp)
qed

text \<open>
  C9: the decision table. When no call meets a fault and fresh transaction ids are unused, the
  reply to a valid request and the tables after it are those of \<open>transfer_verdict\<close>: the
  checks and their errors in the code's order (same account, key already used with another
  payload, replay, unknown sender, rate limit, insufficient funds, unknown receiver, overflow of
  the receiver's balance), and otherwise the completed transfer.
\<close>
theorem transfer_decides:
  assumes "calm env" "db_inv (w_db w)" "dec_int32_ok a" "IsPositive a"
    "FitsNumeric a moneyPrecision moneyScale" "ValidateIdempotencyKey k = None"
    "\<And>n. find_idem (w_db w) s k = None \<Longrightarrow>
      \<exists>i. e_uuid env n = Inr i \<and> i \<notin> set (map tr_id (transactions (w_db w)))"
    "Transfer env cfg s r k a w = (res, w')"
  shows "verdict_holds env (transferCommandOf env s r k a) (w_db w)
    (transfer_verdict (transferCommandOf env s r k a)
       (limiter env cfg (transferCommandOf env s r k a) w) (w_db w)) res (w_db w')"
  using assms by (rule Transfer_calm)

lemma sample_limiter:
  "c_SenderID cmd = alice \<Longrightarrow> limiter sample_env sample_limits cmd (sample_world d) = Inr ()"
proof -
  assume "c_SenderID cmd = alice"
  have "limiter sample_env sample_limits cmd (sample_world d) =
      fst (CheckRateLimit sample_env sample_limits (e_uuid_text sample_env alice) (sample_world sample_db\<lparr>w_tick := 3\<rparr>))"
    unfolding limiter_def \<open>c_SenderID cmd = alice\<close>
    by (rule CheckRateLimit_agree [THEN conjunct1]) (simp add: agree_def sample_world_def)
  also have "\<dots> = Inr ()" by code_simp
  finally show ?thesis .
qed

lemma sample_verdict:
  "transfer_verdict (transferCommandOf sample_env alice bob ''order-1'' ten)
     (limiter sample_env sample_limits (transferCommandOf sample_env alice bob ''order-1'' ten) (sample_world sample_db))
     sample_db = Inr None"
proof -
  have "find_idem sample_db alice ''order-1'' = None" "alice \<noteq> bob"
    by (simp_all add: find_idem_def find_row_def sample_db_def alice_def bob_def)
  then show ?thesis
    by (simp add: transfer_verdict_def sample_balances ten_ok sample_limiter)
qed

theorem transfer_decides_witness:
  "\<exists>i now. Transfer sample_env sample_limits alice bob ''order-1'' ten (sample_world sample_db)
     = (Inr (e_uuid_text sample_env i), snd (Transfer sample_env sample_limits alice bob ''order-1'' ten (sample_world sample_db)))
   \<and> w_db (snd (Transfer sample_env sample_limits alice bob ''order-1'' ten (sample_world sample_db)))
     = apply_transfer (transferCommandOf sample_env alice bob ''order-1'' ten) i now sample_db"
proof -
  obtain res w' where t: "Transfer sample_env sample_limits alice bob ''order-1'' ten (sample_world sample_db) = (res, w')"
    by force
  have "\<exists>i. e_uuid sample_env n = Inr i \<and> i \<notin> set (map tr_id (transactions (w_db (sample_world sample_db))))" for n
    by (simp add: sample_env_def sample_db_def)
  from transfer_decides [OF sample_calm _ ten_ok(1-3) sample_key this t] sample_inv
  show ?thesis by (auto simp: t sample_verdict verdict_holds_def)
qed

text \<open>
  C16: a retry of a completed transfer is free of effects: once \<open>Transfer\<close> has succeeded,
  repeating the request (from any later state with the same tables, without faults) returns
  the same transaction id and changes no table.
\<close>
theorem transfer_replays:
  assumes "Transfer env cfg s r k a w = (Inr t, w')" "db_inv (w_db w)" "dec_int32_ok a"
    "calm env'" "e_uuid_text env' = e_uuid_text env" "w_db v = w_db w'"
  shows "\<exists>v'. Transfer env' cfg' s r k a v = (Inr t, v') \<and> w_db v' = w_db v"
proof -
  let ?cmd = "transferCommandOf env s r k a"
  have cmd: "transferCommandOf env' s r k a = ?cmd"
    by (simp add: transferCommandOf_def transferFingerprint_def transferPayload_def assms(5))
  from Transfer_is_ledger_step [OF assms(1-3)] obtain row i where
    row: "find_idem (w_db w') s k = Some row" "ir_fingerprint row = c_RequestFingerprint ?cmd"
      "ir_tx row = Some i" "t = e_uuid_text env i" "s \<noteq> r"
    by (elim ledger_step_okE)
      (auto simp: find_idem_app_new transfer_enabled_def transfer_record_def)
  have valid: "IsPositive a \<and> FitsNumeric a moneyPrecision moneyScale" "ValidateIdempotencyKey k = None"
    using assms(1) by (auto simp: Transfer_def split: option.splits if_splits)
  have inv: "db_inv (w_db v)" using Transfer_keeps_inv [OF assms(1-3)] assms(6) by simp
  obtain res v' where v': "Transfer env' cfg' s r k a v = (res, v')" by force
  have used: "find_idem (w_db v) s k = Some row" using row(1) assms(6) by simp
  have "verdict_holds env' ?cmd (w_db v) (transfer_verdict ?cmd (limiter env' cfg' ?cmd v) (w_db v)) res (w_db v')"
    using Transfer_calm [OF assms(4) inv assms(3) _ _ valid(2) _ v'] valid(1) used unfolding cmd by simp
  with used row assms(5) v' show ?thesis
    by (simp add: transfer_verdict_def verdict_holds_def)
qed

text \<open>
  A key is bound to its payload: once a transfer has succeeded under a key, a valid
  request with the same sender and key but another receiver or another amount (numerically)
  is refused with \<open>ErrIdempotencyConflict\<close> and changes no table, unless the two payloads
  collide under SHA-256.
\<close>
lemma transfer_conflict:
  assumes "Transfer env cfg s r k a w = (Inr t, w')" "db_inv (w_db w)" "dec_int32_ok a" "dec_wf a"
    and "calm env" "uuid_text_ok env" "w_db v = w_db w'"
    and "s \<noteq> r'" "r' \<noteq> r \<or> dec_rat a' \<noteq> dec_rat a"
    and "dec_int32_ok a'" "dec_wf a'" "IsPositive a'" "FitsNumeric a' moneyPrecision moneyScale"
    and "no_collision (transferPayload env (transferCommandOf env s r k a))
      (transferPayload env (transferCommandOf env s r' k a'))"
  shows "\<exists>v'. Transfer env cfg' s r' k a' v = (Inl (Sentinel ErrIdempotencyConflict), v') \<and> w_db v' = w_db v"
proof -
  let ?cmd = "transferCommandOf env s r k a" and ?cmd' = "transferCommandOf env s r' k a'"
  have fp: "c_RequestFingerprint c = transferFingerprint env c" if "c = transferCommandOf env s x k y" for c x y
    using that by (simp add: transferCommandOf_def transferFingerprint_def transferPayload_def Let_def)
  from Transfer_is_ledger_step [OF assms(1-3)] obtain row where
    row: "find_idem (w_db w') s k = Some row" "ir_fingerprint row = c_RequestFingerprint ?cmd"
    by (elim ledger_step_okE)
      (auto simp: find_idem_app_new transfer_enabled_def transfer_record_def)
  have ne: "ir_fingerprint row \<noteq> c_RequestFingerprint ?cmd'"
    unfolding row(2) fp [OF refl] using fingerprint_payload [OF assms(6) _ _ assms(14)] assms(4,9,11) by auto
  have key: "ValidateIdempotencyKey k = None"
    using assms(1) by (auto simp: Transfer_def split: option.splits if_splits)
  have inv: "db_inv (w_db v)" using Transfer_keeps_inv [OF assms(1-3)] assms(7) by simp
  obtain res v' where v': "Transfer env cfg' s r' k a' v = (res, v')" by force
  have used: "find_idem (w_db v) s k = Some row" using row(1) assms(7) by simp
  have "verdict_holds env ?cmd' (w_db v) (transfer_verdict ?cmd' (limiter env cfg' ?cmd' v) (w_db v)) res (w_db v')"
    using Transfer_calm [OF assms(5) inv assms(10) assms(12,13) key _ v'] used by simp
  with used ne assms(8) v' show ?thesis
    by (simp add: transfer_verdict_def verdict_holds_def)
qed

lemma sample_transfer:
  "\<exists>i now w'. Transfer sample_env sample_limits alice bob ''order-1'' ten (sample_world sample_db)
       = (Inr (e_uuid_text sample_env i), w')
     \<and> w_db w' = apply_transfer (transferCommandOf sample_env alice bob ''order-1'' ten) i now sample_db"
proof -
  obtain res w' where t: "Transfer sample_env sample_limits alice bob ''order-1'' ten (sample_world sample_db) = (res, w')"
    by force
  have "\<exists>i. e_uuid sample_env n = Inr i \<and> i \<notin> set (map tr_id (transactions (w_db (sample_world sample_db))))" for n
    by (simp add: sample_env_def sample_db_def)
  from Transfer_calm [OF sample_calm _ ten_ok(1-3) sample_key this t] sample_inv
  show ?thesis by (auto simp: t sample_verdict verdict_holds_def)
qed

theorem transfer_replays_witness:
  "\<exists>t w' v'. Transfer sample_env sample_limits alice bob ''order-1'' ten (sample_world sample_db) = (Inr t, w')
     \<and> Transfer sample_env sample_limits alice bob ''order-1'' ten w' = (Inr t, v')
     \<and> w_db w' \<noteq> sample_db \<and> w_db v' = w_db w'"
proof -
  from sample_transfer obtain i now w' where
    t: "Transfer sample_env sample_limits alice bob ''order-1'' ten (sample_world sample_db) = (Inr (e_uuid_text sample_env i), w')"
    and w': "w_db w' = apply_transfer (transferCommandOf sample_env alice bob ''order-1'' ten) i now sample_db"
    by blast
  have "w_db w' \<noteq> sample_db" unfolding w'
    by (auto simp: sample_db_def apply_transfer_def dest: arg_cong [where f = transactions])
  with transfer_replays [OF t _ ten_ok(1) sample_calm refl refl] t sample_inv show ?thesis by auto
qed

text \<open>The payloads of the witness below do not collide.\<close>

definition eleven :: decimal where "eleven = \<lparr>d_value = Some 11, d_exp = 0\<rparr>"

lemma sample_digest_ten:
  "take 1 (sha256_Sum256 (transferPayload sample_env (transferCommandOf sample_env alice bob ''order-1'' ten)))
     = [CHR 0x3D]"
  by code_simp

lemma sample_digest_eleven:
  "take 1 (sha256_Sum256 (transferPayload sample_env (transferCommandOf sample_env alice bob ''order-1'' eleven)))
     = [CHR 0xB1]"
  by code_simp

theorem transfer_conflict_witness:
  "\<exists>t w' v'. Transfer sample_env sample_limits alice bob ''order-1'' ten (sample_world sample_db) = (Inr t, w')
     \<and> Transfer sample_env sample_limits alice bob ''order-1'' eleven w' = (Inl (Sentinel ErrIdempotencyConflict), v')
     \<and> w_db v' = w_db w'"
proof -
  from sample_transfer obtain t w' where
    t: "Transfer sample_env sample_limits alice bob ''order-1'' ten (sample_world sample_db) = (Inr t, w')"
    by blast
  have e: "dec_int32_ok eleven" "dec_wf eleven" "IsPositive eleven" "FitsNumeric eleven moneyPrecision moneyScale"
    by code_simp+
  have "dec_rat eleven \<noteq> dec_rat ten" by (simp add: eleven_def ten_def dec_rat_def)
  then have other: "bob \<noteq> bob \<or> dec_rat eleven \<noteq> dec_rat ten" by simp
  have inv: "db_inv (w_db (sample_world sample_db))" using sample_inv by simp
  have "alice \<noteq> bob" by (simp add: alice_def bob_def)
  have "no_collision (transferPayload sample_env (transferCommandOf sample_env alice bob ''order-1'' ten))
      (transferPayload sample_env (transferCommandOf sample_env alice bob ''order-1'' eleven))"
    unfolding no_collision_def using sample_digest_ten sample_digest_eleven by auto
  from transfer_conflict [OF t inv ten_ok(1,5) sample_calm sample_uuid_text refl \<open>alice \<noteq> bob\<close> other e this] t
  show ?thesis by blast
qed

text \<open>
  One transaction per key. Over any such sequence, all successful replies to requests
  with the same sender and idempotency key name the same transaction.
\<close>
lemma transfer_replies_agree:
  assumes "db_inv (w_db w)" "\<forall>q\<in>set qs. request_ok showid q"
    "(q, Inr t) \<in> set (fst (serve_all serve_transfer qs w))"
    "(q', Inr t') \<in> set (fst (serve_all serve_transfer qs w))" "request_key q = request_key q'"
  shows "t = t'"
  using assms by (rule transfers.replies_agree)

theorem transfer_replies_agree_witness:
  "\<exists>t. (sample_request, Inr t) \<in> set (fst (serve_all serve_transfer [sample_request, sample_request] (sample_world sample_db)))
     \<and> (\<forall>t'. (sample_request, Inr t') \<in> set (fst (serve_all serve_transfer [sample_request, sample_request] (sample_world sample_db)))
         \<longrightarrow> t' = t)"
proof -
  from sample_transfer obtain t w' where
    "Transfer sample_env sample_limits alice bob ''order-1'' ten (sample_world sample_db) = (Inr t, w')"
    by blast
  then have m: "(sample_request, Inr t) \<in> set (fst (serve_all serve_transfer [sample_request, sample_request] (sample_world sample_db)))"
    by (simp add: serve_transfer_def sample_request_def split: prod.split)
  have ok: "\<forall>q\<in>set [sample_request, sample_request]. request_ok (e_uuid_text sample_env) q"
    using sample_request_ok by simp
  have inv: "db_inv (w_db (sample_world sample_db))" using sample_inv by simp
  from transfer_replies_agree [OF inv ok _ m refl] m show ?thesis by blast
qed

text \<open>
  C27: the fingerprint identifies the payload: two commands have the same fingerprint exactly
  when they name the same sender, the same receiver and numerically the same amount (however
  written), unless their payloads collide under SHA-256; its text always has the 64 characters
  its column holds.
\<close>
theorem fingerprint_identifies_payload:
  assumes "uuid_text_ok env" "dec_wf (c_Amount c)" "dec_wf (c_Amount c')"
    "no_collision (transferPayload env c) (transferPayload env c')"
  shows "(transferFingerprint env c = transferFingerprint env c' \<longleftrightarrow>
      c_SenderID c = c_SenderID c' \<and> c_ReceiverID c = c_ReceiverID c' \<and> dec_rat (c_Amount c) = dec_rat (c_Amount c'))
    \<and> length (transferFingerprint env c) = 64"
  using fingerprint_payload [OF assms] by simp

theorem fingerprint_identifies_payload_witness:
  "transferFingerprint sample_env (transferCommandOf sample_env alice bob ''order-1'' ten)
     = transferFingerprint sample_env (transferCommandOf sample_env alice bob ''order-2'' \<lparr>d_value = Some 1000, d_exp = - 2\<rparr>)"
proof -
  let ?b = "\<lparr>d_value = Some 1000, d_exp = - 2\<rparr>"
  let ?c = "transferCommandOf sample_env alice bob ''order-1'' ten"
    and ?c' = "transferCommandOf sample_env alice bob ''order-2'' ?b"
  have wf: "dec_wf (c_Amount ?c)" "dec_wf (c_Amount ?c')"
    using ten_ok(5) by (simp_all add: dec_wf_def MaxAbsExponent_def)
  have r: "dec_rat ?b = dec_rat ten" unfolding ten_ok(4) by (simp add: dec_rat_def power_int_def power2_eq_square)
  then have "decString (c_Amount ?c) = decString (c_Amount ?c')"
    using dec_rat_eq_decString [OF r [symmetric]] by simp
  then have "no_collision (transferPayload sample_env ?c) (transferPayload sample_env ?c')"
    by (simp add: no_collision_def transferPayload_def)
  from fingerprint_identifies_payload [OF sample_uuid_text wf this] r show ?thesis by simp
qed

text \<open>
  Validation comes first: a transfer with a missing or malformed idempotency key, or an
  amount that is not positive or that the money column cannot hold exactly, is refused with
  its own error before any external call, and nothing of the state changes.
\<close>
lemma transfer_validates_first:
  "(k = [] \<longrightarrow> Transfer env cfg s r k a w = (Inl (Sentinel ErrIdempotencyKeyRequired), w))
   \<and> (k \<noteq> [] \<and> \<not> (length k \<le> 128 \<and> list_all key_char_allowed k) \<longrightarrow>
        Transfer env cfg s r k a w = (Inl (Sentinel ErrInvalidIdempotencyKey), w))
   \<and> (ValidateIdempotencyKey k = None \<and> dec_int32_ok a \<and> \<not> (0 < dec_rat a \<and> storable (dec_rat a)) \<longrightarrow>
        Transfer env cfg s r k a w = (Inl (Sentinel ErrInvalidAmount), w))"
  using fits_numeric_storable [of a]
  by (auto simp: Transfer_def ValidateIdempotencyKey_def MaxIdempotencyKeyLength_def key_chars_ok_iff
      IsPositive_iff moneyPrecision_def moneyScale_def)

theorem transfer_validates_first_witness:
  "Transfer sample_env sample_limits alice bob ''order 1'' ten (sample_world sample_db)
     = (Inl (Sentinel ErrInvalidIdempotencyKey), sample_world sample_db)
   \<and> Transfer sample_env sample_limits alice bob ''order-1'' dec_Zero (sample_world sample_db)
     = (Inl (Sentinel ErrInvalidAmount), sample_world sample_db)"
proof -
  have k: "''order 1'' \<noteq> []" "\<not> (length ''order 1'' \<le> 128 \<and> list_all key_char_allowed ''order 1'')"
    by code_simp+
  have z: "dec_int32_ok dec_Zero" "\<not> IsPositive dec_Zero" by code_simp+
  from transfer_validates_first [of "''order 1''" sample_env sample_limits alice bob ten "sample_world sample_db"] k
    transfer_validates_first [of "''order-1''" sample_env sample_limits alice bob dec_Zero "sample_world sample_db"]
    z sample_key
  show ?thesis by (simp add: IsPositive_iff)
qed

end
