(* ===== verification/Regex.thy ===== *)
theory Regex
  imports Prelude
begin

text \<open>
  Regular expressions, as far as the e-mail pattern of \<open>auth.go\<close> uses them: character
  classes, sequence, alternative, star, option and bounded repetition. \<open>rx_match\<close> decides a
  full match (a pattern between \<open>^\<close> and \<open>$\<close>) by derivatives; \<open>lang\<close> is the language the
  expression denotes, and the two agree.
\<close>

datatype rx =
    RNone
  | REps
  | RClass "(char \<times> char) list"     \<comment> \<open>ranges, both ends included\<close>
  | RSeq rx rx
  | RAlt rx rx
  | RStar rx

definition in_ranges :: "(char \<times> char) list \<Rightarrow> char \<Rightarrow> bool" where
  "in_ranges rs c \<longleftrightarrow>
     list_ex (\<lambda>(lo, hi). (of_char lo :: int) \<le> of_char c \<and> (of_char c :: int) \<le> of_char hi) rs"

definition RPlus :: "rx \<Rightarrow> rx" where "RPlus r = RSeq r (RStar r)"
definition ROpt :: "rx \<Rightarrow> rx" where "ROpt r = RAlt REps r"
definition RChar :: "char \<Rightarrow> rx" where "RChar c = RClass [(c, c)]"

text \<open>\<open>r{0,n}\<close>.\<close>

fun RUpTo :: "nat \<Rightarrow> rx \<Rightarrow> rx" where
  "RUpTo 0 r = REps"
| "RUpTo (Suc n) r = RAlt REps (RSeq r (RUpTo n r))"

section \<open>Matching by derivatives\<close>

fun nullable :: "rx \<Rightarrow> bool" where
  "nullable RNone = False"
| "nullable REps = True"
| "nullable (RClass rs) = False"
| "nullable (RSeq r s) = (nullable r \<and> nullable s)"
| "nullable (RAlt r s) = (nullable r \<or> nullable s)"
| "nullable (RStar r) = True"

fun deriv :: "char \<Rightarrow> rx \<Rightarrow> rx" where
  "deriv c RNone = RNone"
| "deriv c REps = RNone"
| "deriv c (RClass rs) = (if in_ranges rs c then REps else RNone)"
| "deriv c (RSeq r s) =
     (if nullable r then RAlt (RSeq (deriv c r) s) (deriv c s) else RSeq (deriv c r) s)"
| "deriv c (RAlt r s) = RAlt (deriv c r) (deriv c s)"
| "deriv c (RStar r) = RSeq (deriv c r) (RStar r)"

text \<open>Dead branches are dropped on the way, so that the expression stays small.\<close>

fun mk_seq :: "rx \<Rightarrow> rx \<Rightarrow> rx" where
  "mk_seq RNone s = RNone"
| "mk_seq REps s = s"
| "mk_seq r s = RSeq r s"

fun mk_alt :: "rx \<Rightarrow> rx \<Rightarrow> rx" where
  "mk_alt RNone s = s"
| "mk_alt r RNone = r"
| "mk_alt r s = RAlt r s"

fun simp_rx :: "rx \<Rightarrow> rx" where
  "simp_rx (RSeq r s) = mk_seq (simp_rx r) s"
| "simp_rx (RAlt r s) = mk_alt (simp_rx r) (simp_rx s)"
| "simp_rx r = r"

fun rx_match :: "rx \<Rightarrow> string \<Rightarrow> bool" where
  "rx_match r [] = nullable r"
| "rx_match r (c # cs) = rx_match (simp_rx (deriv c r)) cs"

section \<open>The language\<close>

inductive_set star :: "string set \<Rightarrow> string set" for A where
  star_Nil: "[] \<in> star A"
| star_app: "u \<in> A \<Longrightarrow> v \<in> star A \<Longrightarrow> u @ v \<in> star A"

fun lang :: "rx \<Rightarrow> string set" where
  "lang RNone = {}"
| "lang REps = {[]}"
| "lang (RClass rs) = {[c] | c. in_ranges rs c}"
| "lang (RSeq r s) = {u @ v | u v. u \<in> lang r \<and> v \<in> lang s}"
| "lang (RAlt r s) = lang r \<union> lang s"
| "lang (RStar r) = star (lang r)"

lemma nullable_lang: "nullable r \<longleftrightarrow> [] \<in> lang r"
  by (induction r) (auto intro: star.intros)

lemma star_Cons: "c # w \<in> star A \<longleftrightarrow> (\<exists>u v. w = u @ v \<and> c # u \<in> A \<and> v \<in> star A)"
proof
  have "x \<in> star A \<Longrightarrow> x = c # w \<Longrightarrow> \<exists>u v. w = u @ v \<and> c # u \<in> A \<and> v \<in> star A" for x
  proof (induction rule: star.induct)
    case (star_app u v)
    then show ?case by (cases u) auto
  qed simp
  then show "c # w \<in> star A \<Longrightarrow> \<exists>u v. w = u @ v \<and> c # u \<in> A \<and> v \<in> star A" by blast
next
  assume "\<exists>u v. w = u @ v \<and> c # u \<in> A \<and> v \<in> star A"
  then show "c # w \<in> star A" using star.star_app by fastforce
qed

lemma seq_Cons:
  "c # w \<in> lang (RSeq r s) \<longleftrightarrow> [] \<in> lang r \<and> c # w \<in> lang s \<or> (\<exists>u v. w = u @ v \<and> c # u \<in> lang r \<and> v \<in> lang s)"
proof -
  have "(\<exists>u v. c # w = u @ v \<and> u \<in> lang r \<and> v \<in> lang s) \<longleftrightarrow>
      [] \<in> lang r \<and> c # w \<in> lang s \<or> (\<exists>u v. w = u @ v \<and> c # u \<in> lang r \<and> v \<in> lang s)"
    unfolding Cons_eq_append_conv by blast
  then show ?thesis by simp
qed

lemma deriv_lang: "lang (deriv c r) = {w. c # w \<in> lang r}"
proof (induction r)
  case (RSeq r s)
  have "w \<in> lang (deriv c (RSeq r s)) \<longleftrightarrow> c # w \<in> lang (RSeq r s)" for w
    unfolding seq_Cons using RSeq by (auto simp: nullable_lang)
  then show ?case by blast
next
  case (RStar r)
  have "w \<in> lang (deriv c (RStar r)) \<longleftrightarrow> c # w \<in> star (lang r)" for w
    unfolding star_Cons using RStar by auto
  then show ?case by auto
qed auto

lemma mk_lang: "lang (mk_seq r s) = lang (RSeq r s)" "lang (mk_alt r s) = lang (RAlt r s)"
  by (cases "(r, s)" rule: mk_seq.cases; simp) (cases "(r, s)" rule: mk_alt.cases; simp)

lemma simp_lang: "lang (simp_rx r) = lang r"
  by (induction r rule: simp_rx.induct) (simp_all add: mk_lang)

lemma rx_match_lang: "rx_match r s \<longleftrightarrow> s \<in> lang r"
  by (induction s arbitrary: r) (simp_all add: nullable_lang simp_lang deriv_lang)

end
