(* ===== verification/Jwt_Manager.thy ===== *)
theory Jwt_Manager
  imports World
begin

text \<open>
  Package \<open>internal/delivery/http/jwt\<close> (\<open>jwt.go\<close>): issuing and validating token pairs.
  Signing and parsing a token is the JWT library's work: \<open>e_jwt_sign secret claims\<close> and
  \<open>e_jwt_parse secret issuer now token\<close>, the latter with the options the code passes
  (HS256 only, the issuer, an expiry required). \<open>NumericDate\<close> keeps whole seconds.
\<close>

record manager =
  m_accessSecret :: string
  m_refreshSecret :: string
  m_accessTTL :: time
  m_refreshTTL :: time
  m_issuer :: string

definition NewNumericDate :: "time \<Rightarrow> int" where
  "NewNumericDate t = t div 1000000000"

definition access_claims :: "manager \<Rightarrow> string \<Rightarrow> string \<Rightarrow> time \<Rightarrow> jwt_claims" where
  "access_claims m userID role now =
     \<lparr>jc_UserID = userID, jc_Role = role, jc_ID = [], jc_Subject = userID, jc_Issuer = m_issuer m,
      jc_ExpiresAt = NewNumericDate (now + m_accessTTL m), jc_IssuedAt = NewNumericDate now\<rparr>"

definition refresh_claims :: "manager \<Rightarrow> string \<Rightarrow> string \<Rightarrow> time \<Rightarrow> jwt_claims" where
  "refresh_claims m userID jti now =
     \<lparr>jc_UserID = userID, jc_Role = [], jc_ID = jti, jc_Subject = userID, jc_Issuer = m_issuer m,
      jc_ExpiresAt = NewNumericDate (now + m_refreshTTL m), jc_IssuedAt = NewNumericDate now\<rparr>"

text \<open>\<open>time.Duration.Seconds\<close>, cut to an integer.\<close>

definition whole_seconds :: "time \<Rightarrow> int" where
  "whole_seconds d = quo d 1000000000"

definition GenerateTokenPair :: "env \<Rightarrow> manager \<Rightarrow> string \<Rightarrow> string \<Rightarrow> ('z, token_pair) io" where
  "GenerateTokenPair env m userID role w =
     (case now_nano env w of (now, w1) \<Rightarrow>
        (case e_jwt_sign env (m_accessSecret m) (access_claims m userID role now) of
           Inl e \<Rightarrow> (Inl (Wrapped ''sign access token'' (Plain e)), w1)
         | Inr accessSigned \<Rightarrow>
        (case new_uuid env w1 of (g, w2) \<Rightarrow>
        (case g of
           Inl e \<Rightarrow> (Inl (Wrapped ''generate JTI'' e), w2)
         | Inr jti \<Rightarrow>
        (case e_jwt_sign env (m_refreshSecret m)
            (refresh_claims m userID (e_uuid_text env jti) now) of
           Inl e \<Rightarrow> (Inl (Wrapped ''sign refresh token'' (Plain e)), w2)
         | Inr refreshSigned \<Rightarrow>
             (Inr \<lparr>tp_AccessToken = accessSigned, tp_RefreshToken = refreshSigned,
                tp_ExpiresIn = whole_seconds (m_accessTTL m), tp_JTI = e_uuid_text env jti,
                tp_ExpiresAt = now + m_refreshTTL m\<rparr>, w2))))))"

definition jwt_parse :: "env \<Rightarrow> manager \<Rightarrow> string \<Rightarrow> string \<Rightarrow> ('z, jwt_claims) io" where
  "jwt_parse env m secret tokenString w =
     (case now_nano env w of (now, w1) \<Rightarrow>
        (case e_jwt_parse env secret (m_issuer m) now tokenString of
           Inl JwtExpired \<Rightarrow> (Inl (Sentinel ErrTokenExpired), w1)
         | Inl JwtOther \<Rightarrow> (Inl (Wrapped ''parse'' (Sentinel ErrTokenInvalid)), w1)
         | Inr claims \<Rightarrow> (Inr claims, w1)))"

definition ValidateAccessToken :: "env \<Rightarrow> manager \<Rightarrow> string \<Rightarrow> ('z, jwt_claims) io" where
  "ValidateAccessToken env m tokenString =
     bindE (jwt_parse env m (m_accessSecret m) tokenString) (\<lambda>claims.
       if jc_UserID claims = [] \<or> jc_Subject claims \<noteq> jc_UserID claims \<or> jc_Role claims = []
       then failE (Sentinel ErrTokenInvalid) else returnE claims)"

definition ValidateRefreshToken :: "env \<Rightarrow> manager \<Rightarrow> string \<Rightarrow> ('z, jwt_claims) io" where
  "ValidateRefreshToken env m tokenString =
     bindE (jwt_parse env m (m_refreshSecret m) tokenString) (\<lambda>claims.
       if jc_ID claims = [] \<or> jc_UserID claims = [] \<or> jc_Subject claims \<noteq> jc_UserID claims
       then failE (Sentinel ErrTokenInvalid) else returnE claims)"

section \<open>The tokens touch no store\<close>

definition same_stores :: "'z world_scheme \<Rightarrow> 'z world_scheme \<Rightarrow> bool" where
  "same_stores w w' \<longleftrightarrow> w_db w' = w_db w \<and> w_tx w' = w_tx w \<and> w_redis w' = w_redis w"

lemma same_stores_refl_trans [inv_intros]: "reflp same_stores" "transp same_stores"
  by (auto simp: same_stores_def reflp_def transp_def)

lemma stays_GenerateTokenPair [inv_intros]: "stays same_stores (GenerateTokenPair env m u r)"
  by (auto intro!: staysI simp: GenerateTokenPair_def now_nano_def new_uuid_def same_stores_def
    split: sum.split)

lemma stays_jwt_parse [inv_intros]: "stays same_stores (jwt_parse env m k t)"
  by (auto intro!: staysI simp: jwt_parse_def now_nano_def same_stores_def split: sum.split jwt_error.split)

lemma stays_ValidateToken [inv_intros]:
  "stays same_stores (ValidateAccessToken env m t)" "stays same_stores (ValidateRefreshToken env m t)"
  unfolding ValidateAccessToken_def ValidateRefreshToken_def by (intro inv_intros)+

end
