(* ===== verification/Auth.thy ===== *)
theory Auth
  imports Storage Cache Sha256 Go_Text Regex Jwt_Manager
begin

text \<open>
  Package \<open>internal/usecase\<close>, \<open>auth.go\<close>: registration, login, the rotation of refresh
  tokens, logout. \<open>bcrypt\<close> is a parameter of the environment. \<open>uuid.New\<close> panics where the
  generator fails; the panic is an error here, after which the deferred rollback has run.
\<close>

definition minPasswordLen :: nat where "minPasswordLen = 8"
definition maxPasswordLen :: nat where "maxPasswordLen = 72"
definition maxEmailLen :: nat where "maxEmailLen = 254"
definition minAccountNameLen :: int where "minAccountNameLen = 3"
definition maxAccountNameLen :: int where "maxAccountNameLen = 100"

definition dummyHash :: string where
  "dummyHash = ''$2a$12$N9qo8uLOickgx2ZMRZoMyeIjZAgcfl7p92ldGxad68LJZdL17lhWy''"

section \<open>The e-mail pattern\<close>

definition lower_alnum :: "(char \<times> char) list" where
  "lower_alnum = [(CHR ''a'', CHR ''z''), (CHR ''0'', CHR ''9'')]"

definition single_chars :: "string \<Rightarrow> (char \<times> char) list" where
  "single_chars s = map (\<lambda>c. (c, c)) s"

text \<open>\<open>[a-z0-9.!#$%&'*+/=?^_`{|}~-]\<close>\<close>

definition local_class :: "(char \<times> char) list" where
  "local_class = lower_alnum @ single_chars
     (''.!#$%&'' @ [CHR 0x27] @ ''*+/=?^'' @ [CHR 0x5F, CHR 0x60] @ ''{|}~-'')"

text \<open>\<open>[a-z0-9](?:[a-z0-9-]{0,61}[a-z0-9])?\<close>\<close>

definition label_rx :: rx where
  "label_rx = RSeq (RClass lower_alnum)
     (ROpt (RSeq (RUpTo 61 (RClass (lower_alnum @ single_chars ''-''))) (RClass lower_alnum)))"

definition emailPattern :: rx where
  "emailPattern = RSeq (RPlus (RClass local_class))
     (RSeq (RChar (CHR ''@'')) (RSeq label_rx (RPlus (RSeq (RChar (CHR ''.'')) label_rx))))"

definition validEmail :: "string \<Rightarrow> bool" where
  "validEmail email \<longleftrightarrow> email \<noteq> [] \<and> length email \<le> maxEmailLen \<and> rx_match emailPattern email"

definition normalizeEmail :: "env \<Rightarrow> string \<Rightarrow> string" where
  "normalizeEmail env email = ToLower (e_unicode_lower env) (TrimSpace email)"

text \<open>\<open>None\<close> is the nil error.\<close>

definition validateRegistration :: "string \<Rightarrow> string \<Rightarrow> string \<Rightarrow> error option" where
  "validateRegistration email password name =
     (if \<not> validEmail email then Some (Sentinel ErrInvalidEmail)
      else if length password < minPasswordLen \<or> length password > maxPasswordLen
      then Some (Wrapped ''password length'' (Sentinel ErrInvalidPassword))
      else (let nameLen = RuneCount name in
        if nameLen < minAccountNameLen \<or> nameLen > maxAccountNameLen
        then Some (Wrapped ''name length'' (Sentinel ErrInvalidName)) else None))"

section \<open>Helpers of the service\<close>

definition checkRateLimit :: "env \<Rightarrow> redis_limits \<Rightarrow> string \<Rightarrow> string \<Rightarrow> ('z, unit) io" where
  "checkRateLimit env cfg operation identity =
     mapErr (Wrapped (''rate limit '' @ operation))
       (CheckRateLimit env cfg (''auth:'' @ operation @ '':'' @ identity))"

definition loginRateIdentity :: "string \<Rightarrow> string \<Rightarrow> string" where
  "loginRateIdentity ip email = ip @ '':'' @ hex_EncodeToString (take 8 (sha256_Sum256 email))"

definition compareDummyPassword :: "env \<Rightarrow> string \<Rightarrow> bool" where
  "compareDummyPassword env password =
     (let p = (if length password > maxPasswordLen then take maxPasswordLen password else password)
      in e_bcrypt_compare env dummyHash p)"

definition publicTokenPair :: "token_pair \<Rightarrow> token_pair" where
  "publicTokenPair pair =
     \<lparr>tp_AccessToken = tp_AccessToken pair, tp_RefreshToken = tp_RefreshToken pair,
      tp_ExpiresIn = tp_ExpiresIn pair, tp_JTI = [], tp_ExpiresAt = zero_time\<rparr>"

definition loadAccountForLogin :: "env \<Rightarrow> string \<Rightarrow> ('z, account) io" where
  "loadAccountForLogin env email =
     with_tx env (Wrapped ''open login transaction'')
       (bindE (acc_GetByEmail env email) (\<lambda>account.
        bindE (mapErr (Wrapped ''commit account read'') (Commit env)) (\<lambda>_. returnE account)))"

definition saveRefreshSession :: "env \<Rightarrow> token_pair \<Rightarrow> uuid \<Rightarrow> uuid \<Rightarrow> ('z, unit) io" where
  "saveRefreshSession env pair userID familyID =
     with_tx env (Wrapped ''open session transaction'')
       (bindE (mapErr (Wrapped ''save session'')
           (tok_SaveRefreshToken env (tp_JTI pair) userID familyID (tp_ExpiresAt pair))) (\<lambda>_.
        mapErr (Wrapped ''commit session'') (Commit env)))"

definition revokeFamilyAfterReuse :: "env \<Rightarrow> uuid \<Rightarrow> ('z, 'a) io" where
  "revokeFamilyAfterReuse env familyID =
     bindE (mapErr (Wrapped ''revoke family'') (tok_RevokeTokenFamily env familyID)) (\<lambda>_.
     bindE (mapErr (Wrapped ''commit family revocation'') (Commit env)) (\<lambda>_.
     failE (Sentinel ErrRefreshTokenReuse)))"

definition hash_password :: "env \<Rightarrow> string \<Rightarrow> ('z, string) io" where
  "hash_password env password w = (e_bcrypt_hash env (w_tick w) password, tick w)"

definition gen_uuid :: "env \<Rightarrow> ('z, uuid) io" where
  "gen_uuid env w = (case new_uuid env w of (g, w') \<Rightarrow> (g, w'))"

section \<open>The service\<close>

definition Register ::
  "env \<Rightarrow> redis_limits \<Rightarrow> string \<Rightarrow> string \<Rightarrow> string \<Rightarrow> string \<Rightarrow> ('z, account) io" where
  "Register env cfg email0 password name0 ip =
     (let email = normalizeEmail env email0; name = TrimSpace name0 in
      case validateRegistration email password name of
        Some err \<Rightarrow> failE err
      | None \<Rightarrow>
          bindE (checkRateLimit env cfg ''register'' ip) (\<lambda>_.
          bindE (mapErr (Wrapped ''hash password'') (hash_password env password)) (\<lambda>passwordHash.
          with_tx env (Wrapped ''open registration transaction'')
            (bindE (mapErr (\<lambda>e. Plain ''panic: uuid'') (gen_uuid env)) (\<lambda>i.
             (let account = \<lparr>ac_ID = i, ac_Name = name, ac_Email = email, ac_Balance = dec_Zero,
                    ac_PasswordHash = passwordHash, ac_Role = RoleUser\<rparr> in
              bindE (mapErr (Wrapped ''create account'') (acc_Create env account)) (\<lambda>_.
              bindE (mapErr (Wrapped ''commit registration'') (Commit env)) (\<lambda>_.
              returnE account))))))))"

definition Login ::
  "env \<Rightarrow> redis_limits \<Rightarrow> manager \<Rightarrow> string \<Rightarrow> string \<Rightarrow> string \<Rightarrow> ('z, token_pair) io" where
  "Login env cfg m email0 password ip =
     (let email = normalizeEmail env email0 in
      bindE (checkRateLimit env cfg ''login'' (loginRateIdentity ip email)) (\<lambda>_.
      if \<not> validEmail email \<or> length password < minPasswordLen \<or> length password > maxPasswordLen
      then (let discarded = compareDummyPassword env password in failE (Sentinel ErrInvalidCredentials))
      else
        bindE (mapErr (\<lambda>err. if errors_is err (Sentinel ErrAccountNotFound)
                            then (let discarded = compareDummyPassword env password
                                  in Sentinel ErrInvalidCredentials) else err)
                 (loadAccountForLogin env email)) (\<lambda>account.
        if \<not> e_bcrypt_compare env (ac_PasswordHash account) password
        then failE (Sentinel ErrInvalidCredentials)
        else
          bindE (mapErr (Wrapped ''generate tokens'')
              (GenerateTokenPair env m (e_uuid_text env (ac_ID account)) (ac_Role account))) (\<lambda>pair.
          bindE (mapErr (Wrapped ''generate family ID'') (gen_uuid env)) (\<lambda>familyID.
          bindE (saveRefreshSession env pair (ac_ID account) familyID) (\<lambda>_.
          returnE (publicTokenPair pair)))))))"

text \<open>The body of \<open>Refresh\<close> inside its transaction.\<close>

definition refreshBody :: "env \<Rightarrow> manager \<Rightarrow> jwt_claims \<Rightarrow> ('z, token_pair) io" where
  "refreshBody env m claims =
     bindE (mapErr (\<lambda>err. if errors_is err (Sentinel ErrRefreshTokenNotFound)
                          then Sentinel ErrInvalidRefreshToken
                          else Wrapped ''get refresh session'' err)
              (tok_GetRefreshToken env (jc_ID claims))) (\<lambda>session.
     if jc_UserID claims \<noteq> e_uuid_text env (rs_UserID session)
     then failE (Sentinel ErrInvalidRefreshToken)
     else if rs_Revoked session then revokeFamilyAfterReuse env (rs_FamilyID session)
     else (\<lambda>w. case now_nano env w of (now, w1) \<Rightarrow>
       (if \<not> now < rs_ExpiresAt session then
          bindE (catchE (tok_RevokeRefreshToken env (jc_ID claims))
                 (\<lambda>err. if errors_is err (Sentinel ErrRefreshTokenNotFound) then returnE ()
                        else failE (Wrapped ''revoke expired session'' err))) (\<lambda>_.
          bindE (mapErr (Wrapped ''commit revocation of expired session'') (Commit env)) (\<lambda>_.
          failE (Sentinel ErrRefreshTokenExpired)))
        else
          bindE (catchE (bindE (tok_RevokeRefreshToken env (jc_ID claims)) (\<lambda>_. returnE True))
                 (\<lambda>err. if errors_is err (Sentinel ErrRefreshTokenNotFound) then returnE False
                        else failE (Wrapped ''revoke session'' err))) (\<lambda>consumed.
          if \<not> consumed then revokeFamilyAfterReuse env (rs_FamilyID session)
          else
            bindE (mapErr (Wrapped ''get account'') (acc_GetById env (rs_UserID session))) (\<lambda>account.
            bindE (mapErr (Wrapped ''generate new tokens'')
                (GenerateTokenPair env m (e_uuid_text env (ac_ID account)) (ac_Role account))) (\<lambda>newPair.
            bindE (mapErr (Wrapped ''save new session'')
                (tok_SaveRefreshToken env (tp_JTI newPair) (ac_ID account) (rs_FamilyID session)
                   (tp_ExpiresAt newPair))) (\<lambda>_.
            bindE (mapErr (Wrapped ''commit rotation'') (Commit env)) (\<lambda>_.
            returnE (publicTokenPair newPair))))))) w1))"

definition Refresh ::
  "env \<Rightarrow> redis_limits \<Rightarrow> manager \<Rightarrow> string \<Rightarrow> string \<Rightarrow> ('z, token_pair) io" where
  "Refresh env cfg m refreshToken ip =
     (if refreshToken = [] then failE (Sentinel ErrInvalidRefreshToken)
      else
        bindE (checkRateLimit env cfg ''refresh'' ip) (\<lambda>_.
        bindE (mapErr (\<lambda>err. if errors_is err (Sentinel ErrTokenExpired)
                            then Sentinel ErrRefreshTokenExpired else Sentinel ErrInvalidRefreshToken)
                 (ValidateRefreshToken env m refreshToken)) (\<lambda>claims.
        with_tx env (Wrapped ''open refresh transaction'') (refreshBody env m claims))))"

definition logoutBody :: "env \<Rightarrow> jwt_claims \<Rightarrow> ('z, unit) io" where
  "logoutBody env claims =
     bindE (catchE
       (bindE (tok_GetRefreshToken env (jc_ID claims)) (\<lambda>session.
        if jc_UserID claims \<noteq> e_uuid_text env (rs_UserID session) \<or> rs_Revoked session
        then returnE False
        else bindE (tok_RevokeRefreshToken env (jc_ID claims)) (\<lambda>_. returnE True)))
       (\<lambda>err. if errors_is err (Sentinel ErrRefreshTokenNotFound) then returnE False
              else failE (Wrapped ''logout'' err)))
       (\<lambda>revoked. if revoked then mapErr (Wrapped ''commit logout'') (Commit env) else returnE ())"

definition Logout :: "env \<Rightarrow> redis_limits \<Rightarrow> manager \<Rightarrow> string \<Rightarrow> string \<Rightarrow> ('z, unit) io" where
  "Logout env cfg m refreshToken ip =
     bindE (catchE (checkRateLimit env cfg ''logout'' ip) (\<lambda>err. returnE ())) (\<lambda>_.
     bindE (catchE (bindE (ValidateRefreshToken env m refreshToken) (\<lambda>c. returnE (Some c)))
              (\<lambda>err. returnE None)) (\<lambda>c.
     case c of
       None \<Rightarrow> returnE ()
     | Some claims \<Rightarrow> with_tx env (Wrapped ''open logout transaction'') (logoutBody env claims)))"

definition LogoutAll :: "env \<Rightarrow> uuid \<Rightarrow> ('z, unit) io" where
  "LogoutAll env userID =
     with_tx env (Wrapped ''open logout-all transaction'')
       (bindE (catchE (tok_RevokeAllUserTokens env userID)
            (\<lambda>err. if errors_is err (Sentinel ErrUserNotFound) then returnE ()
                   else failE (Wrapped ''revoke all sessions'' err))) (\<lambda>_.
        mapErr (Wrapped ''commit logout-all'') (Commit env)))"

end
