(* ===== verification/Tx_Query.thy ===== *)
theory Tx_Query
  imports Storage
begin

text \<open>
  The query builder of the history (\<open>storage/helper.go\<close>, \<open>sqlrequest\<close>) and the repository's
  \<open>GetTransactions\<close>. The builder makes two values side by side, the text of the statement
  with its numbered placeholders and the list of arguments; PostgreSQL reads the statement
  with the arguments in place. The clauses the text is made of are kept as a list, so that
  its rendering is the code's text and its evaluation is PostgreSQL's reading of it; every
  clause carries the placeholder number the code printed into it.
\<close>

section \<open>Building the statement\<close>

datatype clause =
    AccountIs int     \<comment> \<open>\<open>AND(receiver_id = $n OR sender_id = $n)\<close>\<close>
  | SenderIs int
  | ReceiverIs int
  | AmountGe int
  | AmountLe int
  | CreatedGe int
  | CreatedLe int
  | OrderByCreatedDesc
  | LimitBy int
  | OffsetBy int

datatype sql_arg = ArgId uuid | ArgAmount decimal | ArgTime time | ArgInt int

record query =
  q_clauses :: "clause list"
  q_args :: "sql_arg list"
  q_counter :: int

definition uuid_Nil :: uuid where "uuid_Nil = 0"

text \<open>One \<open>if\<close> of the builder: the clause with the counter's value, the argument, the increment.\<close>

definition add_clause :: "bool \<Rightarrow> (int \<Rightarrow> clause) \<Rightarrow> sql_arg \<Rightarrow> query \<Rightarrow> query" where
  "add_clause guard c a q =
     (if guard then q\<lparr>q_clauses := q_clauses q @ [c (q_counter q)], q_args := q_args q @ [a],
        q_counter := q_counter q + 1\<rparr> else q)"

definition add_amount :: "string \<Rightarrow> (int \<Rightarrow> clause) \<Rightarrow> query \<Rightarrow> query option" where
  "add_amount s c q =
     (if s \<noteq> [] then
        (case NewFromString s of Inl e \<Rightarrow> None | Inr d \<Rightarrow> Some (add_clause True c (ArgAmount d) q))
      else Some q)"

text \<open>\<open>None\<close> is the empty statement with no arguments, which the caller takes for an error.\<close>

definition sqlrequest :: "transaction_filter \<Rightarrow> query option" where
  "sqlrequest flt =
     (let q0 = \<lparr>q_clauses = [], q_args = [], q_counter = 1\<rparr>;
          q1 = add_clause (f_AccountID flt \<noteq> uuid_Nil) AccountIs (ArgId (f_AccountID flt)) q0;
          q2 = add_clause (f_SenderID flt \<noteq> uuid_Nil) SenderIs (ArgId (f_SenderID flt)) q1;
          q3 = add_clause (f_ReceiverID flt \<noteq> uuid_Nil) ReceiverIs (ArgId (f_ReceiverID flt)) q2
      in case add_amount (f_MinAmount flt) AmountGe q3 of
           None \<Rightarrow> None
         | Some q4 \<Rightarrow>
      (case add_amount (f_MaxAmount flt) AmountLe q4 of
           None \<Rightarrow> None
         | Some q5 \<Rightarrow>
             (let q6 = add_clause (f_From flt \<noteq> zero_time) CreatedGe (ArgTime (f_From flt)) q5;
                  q7 = add_clause (f_To flt \<noteq> zero_time) CreatedLe (ArgTime (f_To flt)) q6;
                  q8 = q7\<lparr>q_clauses := q_clauses q7 @ [OrderByCreatedDesc]\<rparr>;
                  q9 = add_clause (f_Limit flt > 0) LimitBy (ArgInt (f_Limit flt)) q8
              in Some (add_clause (f_Offset flt > 0) OffsetBy (ArgInt (f_Offset flt)) q9))))"

section \<open>The text of the statement\<close>

definition placeholder :: "int \<Rightarrow> string" where
  "placeholder n = ''$'' @ int_text n"

fun render_clause :: "clause \<Rightarrow> string" where
  "render_clause (AccountIs n) =
     '' AND(receiver_id = '' @ placeholder n @ '' OR sender_id = '' @ placeholder n @ '')''"
| "render_clause (SenderIs n) = '' AND sender_id = '' @ placeholder n"
| "render_clause (ReceiverIs n) = '' AND receiver_id = '' @ placeholder n"
| "render_clause (AmountGe n) = '' AND amount >= '' @ placeholder n"
| "render_clause (AmountLe n) = '' AND amount <= '' @ placeholder n"
| "render_clause (CreatedGe n) = '' AND created_at >= '' @ placeholder n"
| "render_clause (CreatedLe n) = '' AND created_at <= '' @ placeholder n"
| "render_clause OrderByCreatedDesc = '' ORDER BY created_at DESC''"
| "render_clause (LimitBy n) = '' LIMIT '' @ placeholder n"
| "render_clause (OffsetBy n) = '' OFFSET '' @ placeholder n"

definition query_text :: "query \<Rightarrow> string" where
  "query_text q =
     ''SELECT id, amount, sender_id, receiver_id, status, created_at FROM transactions WHERE 1=1''
     @ concat (map render_clause (q_clauses q))"

section \<open>PostgreSQL's reading of it\<close>

definition arg_at :: "sql_arg list \<Rightarrow> int \<Rightarrow> sql_arg option" where
  "arg_at args n = (if 1 \<le> n \<and> n \<le> int (length args) then Some (args ! nat (n - 1)) else None)"

text \<open>A row against one clause; \<open>None\<close> when the argument is missing or of another type.\<close>

fun clause_holds :: "sql_arg list \<Rightarrow> clause \<Rightarrow> tx_row \<Rightarrow> bool option" where
  "clause_holds args (AccountIs n) r =
     (case arg_at args n of Some (ArgId i) \<Rightarrow> Some (tr_receiver r = i \<or> tr_sender r = i) | _ \<Rightarrow> None)"
| "clause_holds args (SenderIs n) r =
     (case arg_at args n of Some (ArgId i) \<Rightarrow> Some (tr_sender r = i) | _ \<Rightarrow> None)"
| "clause_holds args (ReceiverIs n) r =
     (case arg_at args n of Some (ArgId i) \<Rightarrow> Some (tr_receiver r = i) | _ \<Rightarrow> None)"
| "clause_holds args (AmountGe n) r =
     (case arg_at args n of Some (ArgAmount d) \<Rightarrow> Some (tr_amount r \<ge> dec_rat d) | _ \<Rightarrow> None)"
| "clause_holds args (AmountLe n) r =
     (case arg_at args n of Some (ArgAmount d) \<Rightarrow> Some (tr_amount r \<le> dec_rat d) | _ \<Rightarrow> None)"
| "clause_holds args (CreatedGe n) r =
     (case arg_at args n of Some (ArgTime t) \<Rightarrow> Some (tr_created_at r \<ge> pg_time t) | _ \<Rightarrow> None)"
| "clause_holds args (CreatedLe n) r =
     (case arg_at args n of Some (ArgTime t) \<Rightarrow> Some (tr_created_at r \<le> pg_time t) | _ \<Rightarrow> None)"
| "clause_holds args _ r = Some True"

fun row_matches :: "sql_arg list \<Rightarrow> clause list \<Rightarrow> tx_row \<Rightarrow> bool option" where
  "row_matches args [] r = Some True"
| "row_matches args (c # cs) r =
     (case (clause_holds args c r, row_matches args cs r) of
        (Some a, Some b) \<Rightarrow> Some (a \<and> b) | _ \<Rightarrow> None)"

fun apply_window :: "sql_arg list \<Rightarrow> clause list \<Rightarrow> 'r list \<Rightarrow> 'r list option" where
  "apply_window args [] rs = Some rs"
| "apply_window args (LimitBy n # cs) rs =
     (case apply_window args cs rs of None \<Rightarrow> None
      | Some rs' \<Rightarrow> (case arg_at args n of Some (ArgInt k) \<Rightarrow> Some (take (nat k) rs') | _ \<Rightarrow> None))"
| "apply_window args (OffsetBy n # cs) rs =
     (case apply_window args cs rs of None \<Rightarrow> None
      | Some rs' \<Rightarrow> (case arg_at args n of Some (ArgInt k) \<Rightarrow> Some (drop (nat k) rs') | _ \<Rightarrow> None))"
| "apply_window args (c # cs) rs = apply_window args cs rs"

text \<open>
  Newest first. PostgreSQL leaves the order of rows with equal times open; the model takes
  the table's order for them. LIMIT and OFFSET select from the ordered rows, the offset first.
\<close>

definition newest_first :: "tx_row list \<Rightarrow> tx_row list" where
  "newest_first rs = sort_key (\<lambda>r. - tr_created_at r) rs"

definition run_query :: "query \<Rightarrow> tx_row list \<Rightarrow> tx_row list option" where
  "run_query q rs =
     (if \<exists>r\<in>set rs. row_matches (q_args q) (q_clauses q) r = None then None
      else apply_window (q_args q) (q_clauses q)
        (newest_first (filter (\<lambda>r. row_matches (q_args q) (q_clauses q) r = Some True) rs)))"

section \<open>The repository's method\<close>

fun scan_all :: "('r \<Rightarrow> ('e, 'a) result) \<Rightarrow> 'r list \<Rightarrow> ('e, 'a list) result" where
  "scan_all f [] = Inr []"
| "scan_all f (r # rs) =
     (case f r of Inl e \<Rightarrow> Inl e
      | Inr x \<Rightarrow> (case scan_all f rs of Inl e \<Rightarrow> Inl e | Inr xs \<Rightarrow> Inr (x # xs)))"

definition tx_GetTransactions :: "env \<Rightarrow> transaction_filter \<Rightarrow> ('z, transaction list) io" where
  "tx_GetTransactions env flt =
     (case sqlrequest flt of
        None \<Rightarrow> failE (Plain ''could not build the query'')
      | Some q \<Rightarrow>
          bindE (mapErr (Wrapped ''get transactions'')
              (sql env (\<lambda>t. case run_query q (transactions (t_db t)) of
                  None \<Rightarrow> Inl ''42P18'' | Some rs \<Rightarrow> Inr (rs, t_db t))))
            (\<lambda>rows. mapErr (Wrapped ''scan transaction'') (liftR (scan_all scan_transaction rows))))"

end
