(* ===== verification/Money_Column.thy ===== *)
theory Money_Column
  imports Ledger
begin

text \<open>
  An amount on its way through the column and back: every number the column holds is printed
  by PostgreSQL with 18 fractional digits, and scanning that text gives a decimal that denotes
  the number, so no reply shows an amount the tables do not hold.
\<close>

lemma storable_units:
  assumes "storable x"
  obtains u where "round_half_away (x * money_unit) = u" "x = of_int u / money_unit" "\<bar>u\<bar> < 10 ^ 36"
proof -
  from assms have "numeric_36_18 x = Inr x" by (simp add: storable_def)
  then have "\<bar>round_half_away (x * money_unit)\<bar> < 10 ^ 36"
    "x = of_int (round_half_away (x * money_unit)) / money_unit"
    by (auto simp: numeric_36_18_def Let_def split: if_splits)
  with that show ?thesis by blast
qed

lemma numeric_out_scan:
  assumes "storable x"
  obtains d where "scan_numeric x = Inr d" "dec_rat d = x" "dec_wf d" "d_exp d = - 18"
proof -
  obtain u where u: "round_half_away (x * money_unit) = u" "x = of_int u / money_unit" "\<bar>u\<bar> < 10 ^ 36"
    using assms by (rule storable_units)
  obtain ip fp where f: "fraction_parts (nat_text \<bar>u\<bar>) (- 18) = (ip, fp)" by force
  note spec = fraction_parts_spec [OF _ abs_ge_zero f]
  let ?n = "Numeral (if u < 0 then ''-'' else []) ip (Some fp) None"
  have t: "numeric_out x = numeral_text ?n"
    using u f by (simp add: numeric_out_def numeral_text_def Let_def)
  have fr: "frac_digits ?n = fp" by (simp add: frac_digits_def)
  have ex: "numeral_exp ?n = - 18" using spec(4) by (simp add: numeral_exp_def fr)
  have ok: "numeral_ok ?n"
    using spec by (simp add: numeral_ok_def fr ex MaxAbsExponent_def)
  have co: "numeral_coeff ?n = u"
    using spec(5) by (auto simp: numeral_coeff_def fr with_sign_def)
  have "hd (numeric_out x) \<noteq> CHR 0x22" unfolding t using numeral_text_hd [OF ok] .
  moreover have "NewFromString (numeric_out x) = Inr \<lparr>d_value = Some u, d_exp = - 18\<rparr>"
    using parse_numeral [OF ok] unfolding t co ex .
  ultimately have s: "scan_numeric x = Inr \<lparr>d_value = Some u, d_exp = - 18\<rparr>"
    by (simp add: scan_numeric_def dec_Scan_def unquoteIfQuoted_def)
  have "dec_rat \<lparr>d_value = Some u, d_exp = - 18\<rparr> = x"
    by (simp add: u(2) dec_rat_def money_unit_def power_int_def field_simps)
  moreover have "dec_wf \<lparr>d_value = Some u, d_exp = - 18\<rparr>" by (simp add: dec_wf_def MaxAbsExponent_def)
  ultimately show ?thesis using that s by simp
qed

text \<open>A row as the code sees it after the scan.\<close>

definition shows_row :: "tx_row \<Rightarrow> transaction \<Rightarrow> bool" where
  "shows_row r x \<longleftrightarrow> tx_ID x = tr_id r \<and> dec_rat (tx_Amount x) = tr_amount r \<and> tx_Sender_id x = tr_sender r
     \<and> tx_Receiver_id x = tr_receiver r \<and> tx_Status x = tr_status r \<and> tx_Created_at x = tr_created_at r"

definition shows_account :: "account_row \<Rightarrow> account \<Rightarrow> bool" where
  "shows_account r x \<longleftrightarrow> ac_ID x = ar_id r \<and> ac_Name x = ar_name r \<and> ac_Email x = ar_email r
     \<and> dec_rat (ac_Balance x) = ar_balance r \<and> ac_PasswordHash x = ar_password_hash r \<and> ac_Role x = ar_role r"

lemma scan_transaction_ok:
  assumes "storable (tr_amount r)"
  obtains x where "scan_transaction r = Inr x" "shows_row r x"
  using assms by (auto elim!: numeric_out_scan simp: scan_transaction_def shows_row_def)

lemma scan_account_ok:
  assumes "storable (ar_balance r)"
  obtains x where "scan_account r = Inr x" "shows_account r x"
  using assms by (auto elim!: numeric_out_scan simp: scan_account_def shows_account_def)

end
