(* ===== verification/Tx_Query_Props.thy ===== *)
theory Tx_Query_Props
  imports Tx_Query Money_Column
begin

text \<open>
  The query builder is correct: the rows its statement selects are those the filter describes,
  in the order and window it asks for; its placeholders are exactly the numbers of its
  arguments; and no value of the filter gets into the text of the statement.
\<close>

section \<open>What the filter means\<close>

definition amount_bound :: "string \<Rightarrow> (rat \<Rightarrow> bool) \<Rightarrow> bool" where
  "amount_bound s P = (case NewFromString s of Inl _ \<Rightarrow> False | Inr d \<Rightarrow> P (dec_rat d))"

definition filter_matches :: "transaction_filter \<Rightarrow> tx_row \<Rightarrow> bool" where
  "filter_matches flt r \<longleftrightarrow>
     (f_AccountID flt \<noteq> uuid_Nil \<longrightarrow> tr_receiver r = f_AccountID flt \<or> tr_sender r = f_AccountID flt)
     \<and> (f_SenderID flt \<noteq> uuid_Nil \<longrightarrow> tr_sender r = f_SenderID flt)
     \<and> (f_ReceiverID flt \<noteq> uuid_Nil \<longrightarrow> tr_receiver r = f_ReceiverID flt)
     \<and> (f_MinAmount flt \<noteq> [] \<longrightarrow> amount_bound (f_MinAmount flt) (\<lambda>x. tr_amount r \<ge> x))
     \<and> (f_MaxAmount flt \<noteq> [] \<longrightarrow> amount_bound (f_MaxAmount flt) (\<lambda>x. tr_amount r \<le> x))
     \<and> (f_From flt \<noteq> zero_time \<longrightarrow> tr_created_at r \<ge> pg_time (f_From flt))
     \<and> (f_To flt \<noteq> zero_time \<longrightarrow> tr_created_at r \<le> pg_time (f_To flt))"

definition filter_window :: "transaction_filter \<Rightarrow> 'r list \<Rightarrow> 'r list" where
  "filter_window flt rs =
     (let skipped = (if f_Offset flt > 0 then drop (nat (f_Offset flt)) rs else rs)
      in if f_Limit flt > 0 then take (nat (f_Limit flt)) skipped else skipped)"

definition bounds_parse :: "transaction_filter \<Rightarrow> bool" where
  "bounds_parse flt \<longleftrightarrow> (f_MinAmount flt \<noteq> [] \<longrightarrow> \<not> isl (NewFromString (f_MinAmount flt)))
     \<and> (f_MaxAmount flt \<noteq> [] \<longrightarrow> \<not> isl (NewFromString (f_MaxAmount flt)))"

section \<open>The builder's invariant\<close>

text \<open>
  A partly built query selects by \<open>P\<close> and windows by \<open>W\<close>, whatever arguments follow; its
  counter is the number of the next placeholder.
\<close>

definition built :: "(tx_row \<Rightarrow> bool) \<Rightarrow> (tx_row list \<Rightarrow> tx_row list) \<Rightarrow> query \<Rightarrow> bool" where
  "built P W q \<longleftrightarrow> q_counter q = int (length (q_args q)) + 1
     \<and> (\<forall>extra r. row_matches (q_args q @ extra) (q_clauses q) r = Some (P r))
     \<and> (\<forall>extra rs. apply_window (q_args q @ extra) (q_clauses q) rs = Some (W rs))"

lemma row_matches_append:
  "row_matches args (cs @ ds) r =
     (case (row_matches args cs r, row_matches args ds r) of
        (Some a, Some b) \<Rightarrow> Some (a \<and> b) | _ \<Rightarrow> None)"
  by (induction cs) (auto split: option.splits)

lemma apply_window_append:
  "apply_window args (cs @ ds) rs =
     (case apply_window args ds rs of None \<Rightarrow> None | Some rs' \<Rightarrow> apply_window args cs rs')"
proof (induction cs)
  case Nil
  then show ?case by (simp split: option.split)
next
  case (Cons c cs)
  then show ?case by (cases c) (auto split: option.split)
qed

lemma arg_at_next [simp]:
  "arg_at (args @ a # extra) (int (length args) + 1) = Some a"
  by (simp add: arg_at_def)

lemma built_start: "built (\<lambda>r. True) (\<lambda>rs. rs) \<lparr>q_clauses = [], q_args = [], q_counter = 1\<rparr>"
  by (simp add: built_def)

lemma built_add:
  assumes "built P W q"
    and "\<And>args r. arg_at args (q_counter q) = Some a \<Longrightarrow> clause_holds args (c (q_counter q)) r = Some (Q r)"
    and "\<And>args rs. arg_at args (q_counter q) = Some a \<Longrightarrow> apply_window args [c (q_counter q)] rs = Some (V rs)"
  shows "built (\<lambda>r. P r \<and> (g \<longrightarrow> Q r)) (\<lambda>rs. W (if g then V rs else rs)) (add_clause g c a q)"
proof (cases g)
  case True
  have n: "arg_at (q_args q @ a # extra) (q_counter q) = Some a" for extra
    using assms(1) by (simp add: built_def)
  have p: "row_matches (q_args q @ a # extra) (q_clauses q) r = Some (P r)"
    "apply_window (q_args q @ a # extra) (q_clauses q) rs = Some (W rs)" for extra r rs
    using assms(1) unfolding built_def by metis+
  have cn: "q_counter q = int (length (q_args q)) + 1" using assms(1) by (simp add: built_def)
  from True show ?thesis
    by (simp add: built_def add_clause_def row_matches_append apply_window_append p cn
        assms(2) [OF n, unfolded cn] assms(3) [OF n, unfolded cn])
next
  case False
  with assms(1) show ?thesis by (simp add: add_clause_def)
qed

lemma built_where:
  assumes "built P W q"
    and "\<And>args r. arg_at args (q_counter q) = Some a \<Longrightarrow> clause_holds args (c (q_counter q)) r = Some (Q r)"
    and "\<And>args (rs :: tx_row list). apply_window args [c (q_counter q)] rs = Some rs"
  shows "built (\<lambda>r. P r \<and> (g \<longrightarrow> Q r)) W (add_clause g c a q)"
proof -
  have "built (\<lambda>r. P r \<and> (g \<longrightarrow> Q r)) (\<lambda>rs. W (if g then rs else rs)) (add_clause g c a q)"
    using assms(1) by (rule built_add) (simp_all add: assms(2,3))
  then show ?thesis by simp
qed

lemma built_amount:
  assumes "built P W q" "add_amount s c q = Some q'"
    and "\<And>d args r. arg_at args (q_counter q) = Some (ArgAmount d) \<Longrightarrow>
      clause_holds args (c (q_counter q)) r = Some (Q r (dec_rat d))"
    and "\<And>args (rs :: tx_row list). apply_window args [c (q_counter q)] rs = Some rs"
  shows "built (\<lambda>r. P r \<and> (s \<noteq> [] \<longrightarrow> amount_bound s (Q r))) W q'"
proof (cases "s = []")
  case True
  with assms(1,2) show ?thesis by (simp add: add_amount_def)
next
  case False
  with assms(2) obtain d where d: "NewFromString s = Inr d" "q' = add_clause True c (ArgAmount d) q"
    by (auto simp: add_amount_def split: sum.splits)
  have "built (\<lambda>r. P r \<and> (True \<longrightarrow> Q r (dec_rat d))) W (add_clause True c (ArgAmount d) q)"
    using assms(1) by (rule built_where) (erule assms(3), rule assms(4))
  with d False show ?thesis by (simp add: amount_bound_def)
qed

lemma built_order: "built P W q \<Longrightarrow> built P W (q\<lparr>q_clauses := q_clauses q @ [OrderByCreatedDesc]\<rparr>)"
  by (simp add: built_def row_matches_append apply_window_append)

lemma sqlrequest_built:
  assumes "sqlrequest flt = Some q"
  shows "built (filter_matches flt) (filter_window flt) q"
proof -
  define q0 where "q0 = \<lparr>q_clauses = [], q_args = [], q_counter = 1 :: int\<rparr>"
  define q1 where "q1 = add_clause (f_AccountID flt \<noteq> uuid_Nil) AccountIs (ArgId (f_AccountID flt)) q0"
  define q2 where "q2 = add_clause (f_SenderID flt \<noteq> uuid_Nil) SenderIs (ArgId (f_SenderID flt)) q1"
  define q3 where "q3 = add_clause (f_ReceiverID flt \<noteq> uuid_Nil) ReceiverIs (ArgId (f_ReceiverID flt)) q2"
  from assms obtain q4 q5 where q4: "add_amount (f_MinAmount flt) AmountGe q3 = Some q4"
    and q5: "add_amount (f_MaxAmount flt) AmountLe q4 = Some q5"
    by (auto simp: sqlrequest_def Let_def q0_def q1_def q2_def q3_def split: option.splits)
  define q6 where "q6 = add_clause (f_From flt \<noteq> zero_time) CreatedGe (ArgTime (f_From flt)) q5"
  define q7 where "q7 = add_clause (f_To flt \<noteq> zero_time) CreatedLe (ArgTime (f_To flt)) q6"
  define q8 where "q8 = q7\<lparr>q_clauses := q_clauses q7 @ [OrderByCreatedDesc]\<rparr>"
  define q9 where "q9 = add_clause (f_Limit flt > 0) LimitBy (ArgInt (f_Limit flt)) q8"
  have q: "q = add_clause (f_Offset flt > 0) OffsetBy (ArgInt (f_Offset flt)) q9"
    using assms q4 q5 by (simp add: sqlrequest_def Let_def q0_def q1_def q2_def q3_def q6_def q7_def q8_def q9_def)
  note b0 = built_start [folded q0_def]
  note b1 = built_where [OF b0, of "ArgId (f_AccountID flt)" AccountIs
      "\<lambda>r. tr_receiver r = f_AccountID flt \<or> tr_sender r = f_AccountID flt" "f_AccountID flt \<noteq> uuid_Nil", folded q1_def, simplified]
  note b2 = built_where [OF b1, of "ArgId (f_SenderID flt)" SenderIs
      "\<lambda>r. tr_sender r = f_SenderID flt" "f_SenderID flt \<noteq> uuid_Nil", folded q2_def, simplified]
  note b3 = built_where [OF b2, of "ArgId (f_ReceiverID flt)" ReceiverIs
      "\<lambda>r. tr_receiver r = f_ReceiverID flt" "f_ReceiverID flt \<noteq> uuid_Nil", folded q3_def, simplified]
  note b4 = built_amount [OF b3 q4, of "\<lambda>r x. tr_amount r \<ge> x", simplified]
  note b5 = built_amount [OF b4 q5, of "\<lambda>r x. tr_amount r \<le> x", simplified]
  note b6 = built_where [OF b5, of "ArgTime (f_From flt)" CreatedGe
      "\<lambda>r. tr_created_at r \<ge> pg_time (f_From flt)" "f_From flt \<noteq> zero_time", folded q6_def, simplified]
  note b7 = built_where [OF b6, of "ArgTime (f_To flt)" CreatedLe
      "\<lambda>r. tr_created_at r \<le> pg_time (f_To flt)" "f_To flt \<noteq> zero_time", folded q7_def, simplified]
  note b8 = built_order [OF b7, folded q8_def]
  note b9 = built_add [OF b8, of "ArgInt (f_Limit flt)" LimitBy "\<lambda>r. True" "take (nat (f_Limit flt))" "f_Limit flt > 0",
      folded q9_def, simplified]
  note b10 = built_add [OF b9, of "ArgInt (f_Offset flt)" OffsetBy "\<lambda>r. True" "drop (nat (f_Offset flt))" "f_Offset flt > 0",
      folded q, simplified]
  have "(filter_window flt :: tx_row list \<Rightarrow> tx_row list) = (\<lambda>rs. if 0 < f_Limit flt
      then take (nat (f_Limit flt)) (if 0 < f_Offset flt then drop (nat (f_Offset flt)) rs else rs)
      else if 0 < f_Offset flt then drop (nat (f_Offset flt)) rs else rs)"
    by (rule ext) (simp add: filter_window_def Let_def)
  moreover have "filter_matches flt = (\<lambda>r. (((((((f_AccountID flt \<noteq> uuid_Nil \<longrightarrow> tr_receiver r = f_AccountID flt \<or> tr_sender r = f_AccountID flt)
      \<and> (f_SenderID flt \<noteq> uuid_Nil \<longrightarrow> tr_sender r = f_SenderID flt))
      \<and> (f_ReceiverID flt \<noteq> uuid_Nil \<longrightarrow> tr_receiver r = f_ReceiverID flt))
      \<and> (f_MinAmount flt \<noteq> [] \<longrightarrow> amount_bound (f_MinAmount flt) (\<lambda>x. tr_amount r \<ge> x)))
      \<and> (f_MaxAmount flt \<noteq> [] \<longrightarrow> amount_bound (f_MaxAmount flt) (\<lambda>x. tr_amount r \<le> x)))
      \<and> (f_From flt \<noteq> zero_time \<longrightarrow> tr_created_at r \<ge> pg_time (f_From flt)))
      \<and> (f_To flt \<noteq> zero_time \<longrightarrow> tr_created_at r \<le> pg_time (f_To flt))))"
    by (rule ext) (simp add: filter_matches_def)
  moreover note b10
  ultimately show ?thesis by (simp add: conj_assoc)
qed

lemma sqlrequest_None: "sqlrequest flt = None \<longleftrightarrow> \<not> bounds_parse flt"
  by (auto simp: sqlrequest_def Let_def add_amount_def bounds_parse_def split: sum.splits option.splits)

lemma run_built:
  assumes "built P W q"
  shows "run_query q rows = Some (W (newest_first (filter P rows)))"
proof -
  have "row_matches (q_args q @ []) (q_clauses q) r = Some (P r)"
    "apply_window (q_args q @ []) (q_clauses q) rs = Some (W rs)" for r rs
    using assms unfolding built_def by metis+
  then show ?thesis by (simp add: run_query_def)
qed

section \<open>Placeholders and text\<close>

fun clause_number :: "clause \<Rightarrow> int list" where
  "clause_number (AccountIs n) = [n]"
| "clause_number (SenderIs n) = [n]"
| "clause_number (ReceiverIs n) = [n]"
| "clause_number (AmountGe n) = [n]"
| "clause_number (AmountLe n) = [n]"
| "clause_number (CreatedGe n) = [n]"
| "clause_number (CreatedLe n) = [n]"
| "clause_number OrderByCreatedDesc = []"
| "clause_number (LimitBy n) = [n]"
| "clause_number (OffsetBy n) = [n]"

definition clause_numbers :: "query \<Rightarrow> int list" where
  "clause_numbers q = concat (map clause_number (q_clauses q))"

definition numbered :: "query \<Rightarrow> bool" where
  "numbered q \<longleftrightarrow> q_counter q = int (length (q_args q)) + 1 \<and> clause_numbers q = [1..int (length (q_args q))]"

lemma upto_snoc: "1 \<le> n \<Longrightarrow> [1..n] = [1..n - 1] @ [n :: int]"
  by (rule upto_rec2)

lemma numbered_add:
  "numbered q \<Longrightarrow> (\<And>n. clause_number (c n) = [n]) \<Longrightarrow> numbered (add_clause g c a q)"
  by (auto simp: numbered_def clause_numbers_def add_clause_def upto_snoc)

lemma numbered_amount:
  "numbered q \<Longrightarrow> add_amount s c q = Some q' \<Longrightarrow> (\<And>n. clause_number (c n) = [n]) \<Longrightarrow> numbered q'"
  by (auto simp: add_amount_def intro: numbered_add split: if_splits sum.splits)

lemma numbered_order: "numbered q \<Longrightarrow> numbered (q\<lparr>q_clauses := q_clauses q @ [OrderByCreatedDesc]\<rparr>)"
  by (simp add: numbered_def clause_numbers_def)

lemma numbered_start: "numbered \<lparr>q_clauses = [], q_args = [], q_counter = 1\<rparr>"
  by (simp add: numbered_def clause_numbers_def)

lemma sqlrequest_numbered: "sqlrequest flt = Some q \<Longrightarrow> numbered q"
  by (auto simp: sqlrequest_def Let_def split: option.splits
      intro!: numbered_add numbered_order elim!: numbered_amount [rotated] intro: numbered_start)

text \<open>Which fields of a filter are set; the statement's text depends on nothing else.\<close>

definition filter_shape :: "transaction_filter \<Rightarrow> bool list" where
  "filter_shape flt = [f_AccountID flt \<noteq> uuid_Nil, f_SenderID flt \<noteq> uuid_Nil, f_ReceiverID flt \<noteq> uuid_Nil,
     f_MinAmount flt \<noteq> [], f_MaxAmount flt \<noteq> [], f_From flt \<noteq> zero_time, f_To flt \<noteq> zero_time,
     f_Limit flt > 0, f_Offset flt > 0]"

definition same_shape :: "query \<Rightarrow> query \<Rightarrow> bool" where
  "same_shape p q \<longleftrightarrow> q_clauses p = q_clauses q \<and> q_counter p = q_counter q"

lemma same_shape_add: "same_shape p q \<Longrightarrow> same_shape (add_clause g c a p) (add_clause g c b q)"
  by (simp add: same_shape_def add_clause_def)

lemma same_shape_amount:
  "same_shape p q \<Longrightarrow> (s \<noteq> []) = (t \<noteq> []) \<Longrightarrow> add_amount s c p = Some p' \<Longrightarrow> add_amount t c q = Some q'
    \<Longrightarrow> same_shape p' q'"
  by (auto simp: add_amount_def intro: same_shape_add split: if_splits sum.splits)

lemma same_shape_order:
  "same_shape p q \<Longrightarrow> same_shape (p\<lparr>q_clauses := q_clauses p @ [c]\<rparr>) (q\<lparr>q_clauses := q_clauses q @ [c]\<rparr>)"
  by (simp add: same_shape_def)

lemma sqlrequest_same_shape:
  assumes "sqlrequest f = Some p" "sqlrequest g = Some q" "filter_shape f = filter_shape g"
  shows "same_shape p q"
proof -
  from assms(3) have sh: "(f_AccountID f \<noteq> uuid_Nil) = (f_AccountID g \<noteq> uuid_Nil)"
    "(f_SenderID f \<noteq> uuid_Nil) = (f_SenderID g \<noteq> uuid_Nil)"
    "(f_ReceiverID f \<noteq> uuid_Nil) = (f_ReceiverID g \<noteq> uuid_Nil)"
    "(f_MinAmount f \<noteq> []) = (f_MinAmount g \<noteq> [])" "(f_MaxAmount f \<noteq> []) = (f_MaxAmount g \<noteq> [])"
    "(f_From f \<noteq> zero_time) = (f_From g \<noteq> zero_time)" "(f_To f \<noteq> zero_time) = (f_To g \<noteq> zero_time)"
    "(f_Limit f > 0) = (f_Limit g > 0)" "(f_Offset f > 0) = (f_Offset g > 0)"
    by (simp_all add: filter_shape_def)
  define p3 where "p3 = add_clause (f_ReceiverID g \<noteq> uuid_Nil) ReceiverIs (ArgId (f_ReceiverID f))
    (add_clause (f_SenderID g \<noteq> uuid_Nil) SenderIs (ArgId (f_SenderID f))
    (add_clause (f_AccountID g \<noteq> uuid_Nil) AccountIs (ArgId (f_AccountID f))
      \<lparr>q_clauses = [], q_args = [], q_counter = 1\<rparr>))"
  define q3 where "q3 = add_clause (f_ReceiverID g \<noteq> uuid_Nil) ReceiverIs (ArgId (f_ReceiverID g))
    (add_clause (f_SenderID g \<noteq> uuid_Nil) SenderIs (ArgId (f_SenderID g))
    (add_clause (f_AccountID g \<noteq> uuid_Nil) AccountIs (ArgId (f_AccountID g))
      \<lparr>q_clauses = [], q_args = [], q_counter = 1\<rparr>))"
  have s3: "same_shape p3 q3"
    unfolding p3_def q3_def by (intro same_shape_add) (simp add: same_shape_def)
  from assms(1) obtain p4 p5 where p: "add_amount (f_MinAmount f) AmountGe p3 = Some p4"
    "add_amount (f_MaxAmount f) AmountLe p4 = Some p5"
    by (auto simp: sqlrequest_def Let_def sh p3_def split: option.splits)
  from assms(2) obtain q4 q5 where q: "add_amount (f_MinAmount g) AmountGe q3 = Some q4"
    "add_amount (f_MaxAmount g) AmountLe q4 = Some q5"
    by (auto simp: sqlrequest_def Let_def q3_def split: option.splits)
  have "same_shape p4 q4" using s3 sh(4) p(1) q(1) by (rule same_shape_amount)
  then have s5: "same_shape p5 q5" using sh(5) p(2) q(2) by (rule same_shape_amount)
  show ?thesis
    using assms(1,2) p q s5
    by (auto simp: sqlrequest_def Let_def sh p3_def q3_def intro!: same_shape_add same_shape_order)
qed

section \<open>Properties\<close>

text \<open>
  C31: the history query selects the right rows: \<open>sqlrequest\<close> refuses exactly the filters
  whose amount bounds do not parse, and otherwise PostgreSQL's answer to its statement and
  arguments is the rows the filter describes, newest first, cut to its window.
\<close>
theorem history_query_correct:
  "case sqlrequest flt of
     None \<Rightarrow> \<not> bounds_parse flt
   | Some q \<Rightarrow> bounds_parse flt \<and> run_query q rows
       = Some (filter_window flt (newest_first (filter (filter_matches flt) rows)))"
  using sqlrequest_None [of flt] by (auto split: option.split simp: run_built [OF sqlrequest_built])

text \<open>
  The statement is well-formed and free of injection: its placeholders are the numbers
  from 1 to the number of its arguments, each clause bound to its own; and two filters that set
  the same fields give the same statement text, so no value of a filter enters the text.
\<close>
lemma history_query_text:
  assumes "sqlrequest f = Some p" "sqlrequest g = Some q" "filter_shape f = filter_shape g"
  shows "query_text p = query_text q \<and> clause_numbers p = [1..int (length (q_args p))]"
  using sqlrequest_same_shape [OF assms] sqlrequest_numbered [OF assms(1)]
  by (simp add: query_text_def same_shape_def numbered_def)

definition sample_filter :: "uuid \<Rightarrow> string \<Rightarrow> transaction_filter" where
  "sample_filter i low = \<lparr>f_AccountID = i, f_SenderID = uuid_Nil, f_ReceiverID = uuid_Nil, f_MinAmount = low,
     f_MaxAmount = [], f_From = zero_time, f_To = zero_time, f_Limit = 20, f_Offset = 0\<rparr>"

theorem history_query_text_witness:
  "\<exists>p q. sqlrequest (sample_filter 1 ''1.5'') = Some p \<and> sqlrequest (sample_filter 2 ''7'') = Some q
    \<and> query_text p = query_text q \<and> clause_numbers p = [1..3]"
proof -
  have "sqlrequest (sample_filter 1 ''1.5'') \<noteq> None \<and> length (q_args (the (sqlrequest (sample_filter 1 ''1.5'')))) = 3"
    by code_simp
  then obtain p where p: "sqlrequest (sample_filter 1 ''1.5'') = Some p" "length (q_args p) = 3" by auto
  have "sqlrequest (sample_filter 2 ''7'') \<noteq> None" by code_simp
  then obtain q where q: "sqlrequest (sample_filter 2 ''7'') = Some q" by auto
  have "filter_shape (sample_filter 1 ''1.5'') = filter_shape (sample_filter 2 ''7'')"
    by (simp add: filter_shape_def sample_filter_def uuid_Nil_def)
  from history_query_text [OF p(1) q this] p q show ?thesis by auto
qed

text \<open>
  Pagination: with a positive page size, the pages of a history at offsets \<open>0, l, 2 l, ...\<close>
  put together are the history itself: no row is skipped or shown twice.
\<close>
lemma history_pages_partition:
  assumes "0 < l" "length rows \<le> n * nat l"
  shows "concat (map (\<lambda>k. filter_window (flt\<lparr>f_Limit := l, f_Offset := int k * l\<rparr>) rows) [0..<n]) = rows"
proof -
  have page: "filter_window (flt\<lparr>f_Limit := l, f_Offset := int k * l\<rparr>) xs = take (nat l) (drop (k * nat l) xs)"
    for k and xs :: "'a list"
    using assms(1) by (cases "k = 0") (auto simp: filter_window_def Let_def nat_mult_distrib zero_less_mult_iff)
  have "concat (map (\<lambda>k. take m (drop (k * m) xs)) [0..<n]) = take (n * m) xs" for m and xs :: "'a list"
  proof (induction n)
    case (Suc n)
    have "take (Suc n * m) xs = take (n * m) xs @ take m (drop (n * m) xs)"
      using take_add [of "n * m" m xs] by (simp add: add.commute)
    with Suc show ?case by simp
  qed simp
  then show ?thesis using assms(2) by (simp add: page)
qed

theorem history_pages_partition_witness:
  "concat (map (\<lambda>k. filter_window (sample_filter 1 []\<lparr>f_Limit := 2, f_Offset := int k * 2\<rparr>) ''abcde'') [0..<3]) = ''abcde''"
  by (rule history_pages_partition) simp_all

end
