(* ===== verification/Read_Services.thy ===== *)
theory Read_Services
  imports Tx_Query_Props Contracts Samples
begin

text \<open>
  The reading services of package \<open>internal/usecase\<close>: \<open>GetTransaction\<close>,
  \<open>GetTransactionFilter\<close> (\<open>transactions.go\<close>), \<open>GetAccount\<close>, \<open>TransactionHistory\<close>
  (\<open>accounts.go\<close>). Each consults the rate limiter, reads inside a transaction and commits it;
  each is an instance of the contract \<open>read_only\<close>.
\<close>

section \<open>The services\<close>

definition GetTransaction ::
  "env \<Rightarrow> redis_limits \<Rightarrow> uuid \<Rightarrow> uuid \<Rightarrow> string \<Rightarrow> ('z, transaction) io" where
  "GetTransaction env cfg transactionID userID key =
     bindE (CheckRateLimit env cfg (e_uuid_text env userID)) (\<lambda>_.
       with_tx env (\<lambda>e. e)
         (bindE (tx_GetByID env transactionID) (\<lambda>transaction.
            if tx_Sender_id transaction \<noteq> userID \<and> tx_Receiver_id transaction \<noteq> userID
            then failE (Sentinel ErrAccessDenied)
            else bindE (Commit env) (\<lambda>_. returnE transaction))))"

definition GetTransactionFilter ::
  "env \<Rightarrow> redis_limits \<Rightarrow> transaction_filter \<Rightarrow> uuid \<Rightarrow> string \<Rightarrow> ('z, transaction list) io" where
  "GetTransactionFilter env cfg t userID key =
     bindE (CheckRateLimit env cfg (e_uuid_text env userID)) (\<lambda>_.
       with_tx env (\<lambda>e. e)
         (bindE (tx_GetTransactions env t) (\<lambda>transactions.
            bindE (Commit env) (\<lambda>_. returnE transactions))))"

definition GetAccount :: "env \<Rightarrow> redis_limits \<Rightarrow> uuid \<Rightarrow> ('z, account) io" where
  "GetAccount env cfg i =
     bindE (CheckRateLimit env cfg (e_uuid_text env i)) (\<lambda>_.
       with_tx env (\<lambda>e. e)
         (bindE (acc_GetById env i) (\<lambda>acc. bindE (Commit env) (\<lambda>_. returnE acc))))"

definition history_filter :: "uuid \<Rightarrow> int \<Rightarrow> int \<Rightarrow> transaction_filter" where
  "history_filter accountID limit offset =
     \<lparr>f_AccountID = accountID, f_SenderID = uuid_Nil, f_ReceiverID = uuid_Nil, f_MinAmount = [],
      f_MaxAmount = [], f_From = zero_time, f_To = zero_time, f_Limit = limit, f_Offset = offset\<rparr>"

definition TransactionHistory ::
  "env \<Rightarrow> redis_limits \<Rightarrow> uuid \<Rightarrow> int \<Rightarrow> int \<Rightarrow> ('z, int \<times> transaction list) io" where
  "TransactionHistory env cfg accountID limit offset =
     bindE (CheckRateLimit env cfg (e_uuid_text env accountID)) (\<lambda>_.
       with_tx env (\<lambda>e. e)
         (bindE (tx_TotalTransactions env accountID) (\<lambda>total.
          bindE (tx_GetTransactions env (history_filter accountID limit offset)) (\<lambda>transactions.
          bindE (Commit env) (\<lambda>_. returnE (total, transactions))))))"

section \<open>They only read\<close>

lemma bindE_assoc: "bindE (bindE f g) h = bindE f (\<lambda>x. bindE (g x) h)"
  by (rule ext) (auto simp: bindE_def split: prod.split sum.split)

lemma bindE_returnE: "bindE (returnE x) f = f x"
  by (rule ext) (simp add: bindE_def)

lemma bindE_failE: "bindE (failE e) f = failE e"
  by (rule ext) (simp add: bindE_def)

lemma stays_read [inv_intros]:
  "(\<And>t a d. stmt t = Inr (a, d) \<Longrightarrow> d = t_db t) \<Longrightarrow> stays same_tables (sql env stmt)"
  by (rule staysI) (auto simp: sql_def same_tables_def split: option.split sum.split prod.split)

lemma stays_select_row [inv_intros]: "stays same_tables (select_row env q scan)"
  unfolding select_row_def by (intro inv_intros) auto

lemma stays_reads [inv_intros]:
  "stays same_tables (tx_GetByID env i)" "stays same_tables (acc_GetById env i)"
  "stays same_tables (acc_GetByEmail env email)" "stays same_tables (tx_TotalTransactions env i)"
  unfolding tx_GetByID_def acc_GetById_def acc_GetByEmail_def tx_TotalTransactions_def
  by (intro inv_intros; simp)+

lemma stays_tx_GetTransactions [inv_intros]: "stays same_tables (tx_GetTransactions env flt)"
  unfolding tx_GetTransactions_def by (intro inv_intros) (auto split: option.splits)

definition checkOwner :: "uuid \<Rightarrow> transaction \<Rightarrow> ('z, transaction) io" where
  "checkOwner userID x = (if tx_Sender_id x \<noteq> userID \<and> tx_Receiver_id x \<noteq> userID
     then failE (Sentinel ErrAccessDenied) else returnE x)"

lemma stays_checkOwner [inv_intros]: "stays same_tables (checkOwner u x)"
  unfolding checkOwner_def by (intro inv_intros)

interpretation read_transaction: read_only "bindE (tx_GetByID env i) (checkOwner u)" for env i u
  by unfold_locales (intro inv_intros)

interpretation read_transactions: read_only "tx_GetTransactions env flt" for env flt
  by unfold_locales (intro inv_intros)

interpretation read_account: read_only "acc_GetById env i" for env i
  by unfold_locales (intro inv_intros)

interpretation read_email: read_only "acc_GetByEmail env email" for env email
  by unfold_locales (intro inv_intros)

interpretation read_history: read_only
  "bindE (tx_TotalTransactions env i) (\<lambda>n. bindE (tx_GetTransactions env flt) (\<lambda>xs. returnE (n, xs)))" for env i flt
  by unfold_locales (intro inv_intros)

lemma GetTransaction_body:
  "bindE (tx_GetByID env i) (\<lambda>x. if tx_Sender_id x \<noteq> u \<and> tx_Receiver_id x \<noteq> u
      then failE (Sentinel ErrAccessDenied) else bindE (Commit env) (\<lambda>_. returnE x))
   = bindE (bindE (tx_GetByID env i) (checkOwner u)) (\<lambda>x. bindE (Commit env) (\<lambda>_. returnE x))"
  unfolding bindE_assoc checkOwner_def
  by (intro arg_cong [where f = "bindE (tx_GetByID env i)"] ext) (simp add: bindE_failE bindE_returnE)

lemma stays_CheckRateLimit_db [inv_intros]: "stays same_db (CheckRateLimit env cfg ident)"
  by (simp add: inv_intros same_sql_db)

lemma readers_keep_db:
  "stays same_db (GetTransaction env cfg i u k)" "stays same_db (GetTransactionFilter env cfg flt u k)"
  "stays same_db (GetAccount env cfg i)" "stays same_db (TransactionHistory env cfg i l off)"
proof -
  show "stays same_db (GetTransaction env cfg i u k)"
    unfolding GetTransaction_def GetTransaction_body
    by (intro inv_intros read_transaction.transaction_reads [where f = "\<lambda>x. x"])
  show "stays same_db (GetTransactionFilter env cfg flt u k)"
    unfolding GetTransactionFilter_def
    by (intro inv_intros read_transactions.transaction_reads [where f = "\<lambda>x. x"])
  show "stays same_db (GetAccount env cfg i)"
    unfolding GetAccount_def
    by (intro inv_intros read_account.transaction_reads [where f = "\<lambda>x. x"])
  show "stays same_db (TransactionHistory env cfg i l off)"
    unfolding TransactionHistory_def
    by (rule stays_bindE)
      (auto intro: inv_intros read_history.transaction_reads [where f = "\<lambda>x. x", unfolded bindE_assoc bindE_returnE])
qed

section \<open>What they return\<close>

lemma with_tx_Inr:
  assumes "with_tx env wrap body w = (Inr x, w')"
  obtains w1 w2 now where "on_tx w1 (w_db w) now" "w_db w1 = w_db w" "body w1 = (Inr x, w2)"
  using assms NewTX_on [of env w] by (auto simp: with_tx_def split: prod.splits sum.splits)

lemma limited_Inr:
  assumes "bindE (CheckRateLimit env cfg ident) (\<lambda>_. with_tx env wrap body) w = (Inr x, w')"
  obtains w1 w2 now where "on_tx w1 (w_db w) now" "body w1 = (Inr x, w2)"
  using assms staysD [OF stays_CheckRateLimit_db]
  by (fastforce elim!: bindE_InrE with_tx_Inr simp: same_db_def)

lemma select_row_on:
  assumes "select_row env q scan w = (Inr x, w')" "on_tx w d now"
  obtains r where "q d = Some r" "scan r = Inr x" "on_tx w' d now"
  using assms by (auto simp: select_row_def liftR_def elim!: bindE_InrE sql_on split: option.splits)

lemma select_row_calm:
  assumes "calm env" "on_tx w d now"
  shows "select_row env q scan w = (case q d of None \<Rightarrow> Inl NoRows | Some r \<Rightarrow> scan r, put_tx d now w)"
  by (simp add: select_row_def bindE_def sql_calm [OF assms] liftR_def split: option.split)

lemma scan_all_rows:
  assumes "\<forall>r\<in>set rs. storable (tr_amount r)"
  obtains xs where "scan_all scan_transaction rs = Inr xs" "list_all2 shows_row rs xs"
proof -
  have "\<exists>xs. scan_all scan_transaction rs = Inr xs \<and> list_all2 shows_row rs xs"
    using assms
  proof (induction rs)
    case (Cons r rs)
    then obtain xs where "scan_all scan_transaction rs = Inr xs" "list_all2 shows_row rs xs" by auto
    moreover obtain x where "scan_transaction r = Inr x" "shows_row r x"
      using Cons.prems scan_transaction_ok [of r] by auto
    ultimately show ?case by simp
  qed simp
  with that show ?thesis by blast
qed

definition listed_rows :: "transaction_filter \<Rightarrow> database \<Rightarrow> tx_row list" where
  "listed_rows flt d = filter_window flt (newest_first (filter (filter_matches flt) (transactions d)))"

lemma in_filter_window: "x \<in> set (filter_window flt xs) \<Longrightarrow> x \<in> set xs"
  by (auto simp: filter_window_def Let_def split: if_splits dest: in_set_takeD in_set_dropD)

lemma listed_rows_in: "r \<in> set (listed_rows flt d) \<Longrightarrow> r \<in> set (transactions d) \<and> filter_matches flt r"
  by (auto simp: listed_rows_def newest_first_def dest: in_filter_window)

lemma listed_storable: "db_inv d \<Longrightarrow> \<forall>r\<in>set (listed_rows flt d). storable (tr_amount r)"
  by (auto dest!: listed_rows_in simp: db_inv_def transactions_ok_def tx_row_ok_def)

lemma run_listed: "sqlrequest flt = Some q \<Longrightarrow> run_query q (transactions d) = Some (listed_rows flt d)"
  by (simp add: run_built [OF sqlrequest_built] listed_rows_def)

lemma tx_GetTransactions_on:
  assumes "tx_GetTransactions env flt w = (Inr xs, w')" "on_tx w d now" "db_inv d"
  shows "list_all2 shows_row (listed_rows flt d) xs \<and> on_tx w' d now"
proof -
  from assms(1) obtain q rows w1 where q: "sqlrequest flt = Some q" and
    s: "sql env (\<lambda>t. case run_query q (transactions (t_db t)) of
      None \<Rightarrow> Inl ''42P18'' | Some rs \<Rightarrow> Inr (rs, t_db t)) w = (Inr rows, w')" and
    x: "scan_all scan_transaction rows = Inr xs"
    by (auto simp: tx_GetTransactions_def liftR_def elim!: bindE_InrE split: option.splits)
  from s assms(2) have "rows = listed_rows flt d \<and> on_tx w' d now"
    by (auto simp: run_listed [OF q] elim!: sql_on)
  moreover obtain ys where "scan_all scan_transaction (listed_rows flt d) = Inr ys"
    "list_all2 shows_row (listed_rows flt d) ys"
    using listed_storable [OF assms(3)] by (rule scan_all_rows)
  ultimately show ?thesis using x by simp
qed

lemma tx_GetTransactions_calm:
  assumes "calm env" "on_tx w d now" "db_inv d" "bounds_parse flt"
  obtains xs where "tx_GetTransactions env flt w = (Inr xs, put_tx d now w)" "list_all2 shows_row (listed_rows flt d) xs"
proof -
  from assms(4) obtain q where q: "sqlrequest flt = Some q" using sqlrequest_None [of flt] by auto
  obtain xs where xs: "scan_all scan_transaction (listed_rows flt d) = Inr xs"
    "list_all2 shows_row (listed_rows flt d) xs"
    using listed_storable [OF assms(3)] by (rule scan_all_rows)
  have "tx_GetTransactions env flt w = (Inr xs, put_tx d now w)"
    by (simp add: tx_GetTransactions_def q bindE_def mapErr_def liftR_def sql_calm [OF assms(1,2)]
        run_listed [OF q] xs(1))
  with that xs(2) show ?thesis by blast
qed

lemma limited_calm:
  assumes "calm env" "CheckRateLimit env cfg ident w = (Inr (), w1)"
  shows "bindE (CheckRateLimit env cfg ident) (\<lambda>_. with_tx env (\<lambda>e. e) body) w
     = (case body (put_tx (w_db w) (e_pg_now env (w_tick w1)) w1) of (r, w2) \<Rightarrow> (r, Rollback w2))"
proof -
  have "w_db w1 = w_db w" using staysD [OF stays_CheckRateLimit_db assms(2)] by (simp add: same_db_def)
  with assms show ?thesis by (simp add: with_tx_def NewTX_calm)
qed

lemma GetTransaction_party:
  assumes "GetTransaction env cfg i u k w = (Inr x, w')"
  shows "tx_Sender_id x = u \<or> tx_Receiver_id x = u"
  using assms unfolding GetTransaction_def
  by (rule limited_Inr) (auto elim!: bindE_InrE split: if_splits)

lemma GetAccount_id:
  assumes "GetAccount env cfg i w = (Inr x, w')"
  shows "ac_ID x = i"
  using assms unfolding GetAccount_def
  by (rule limited_Inr)
    (auto simp: acc_GetById_def scan_account_def elim!: bindE_InrE select_row_on
      dest!: find_row_Some split: sum.splits)

section \<open>Properties of the reading services\<close>

text \<open>
  The reading services change no table, whatever faults occur: not the committed tables,
  in any of their branches, their commits included.
\<close>
lemma readers_change_nothing:
  "w_db (snd (GetTransaction env cfg i u k w)) = w_db w
   \<and> w_db (snd (GetTransactionFilter env cfg flt u k w)) = w_db w
   \<and> w_db (snd (GetAccount env cfg i w)) = w_db w
   \<and> w_db (snd (TransactionHistory env cfg i l off w)) = w_db w"
  by (simp add: readers_keep_db [unfolded stays_def same_db_def, rule_format])

text \<open>
  A transaction is shown to its parties only: whatever happens, when \<open>GetTransaction\<close>
  returns a transaction it is the row with the id asked for, with its exact amount, and the
  caller is its sender or its receiver.
\<close>
lemma get_transaction_authorised:
  fixes w w' :: "'z world_scheme"
  assumes "GetTransaction env cfg i u k w = (Inr x, w')" "db_inv (w_db w)"
  shows "\<exists>r\<in>set (transactions (w_db w)). tr_id r = i \<and> shows_row r x \<and> (u = tr_sender r \<or> u = tr_receiver r)"
proof -
  from assms(1) obtain w1 w2 :: "'z world_scheme" and now where on: "on_tx w1 (w_db w) now" and
    b: "bindE (tx_GetByID env i) (\<lambda>x. if tx_Sender_id x \<noteq> u \<and> tx_Receiver_id x \<noteq> u
      then failE (Sentinel ErrAccessDenied) else bindE (Commit env) (\<lambda>_. returnE x)) w1 = (Inr x, w2)"
    unfolding GetTransaction_def by (rule limited_Inr) blast
  from b obtain w3 :: "'z world_scheme" where g: "tx_GetByID env i w1 = (Inr x, w3)"
    and u: "tx_Sender_id x = u \<or> tx_Receiver_id x = u"
    by (auto elim!: bindE_InrE split: if_splits)
  from g on obtain r where r: "find_row (\<lambda>r. tr_id r = i) (transactions (w_db w)) = Some r" "scan_transaction r = Inr x"
    by (auto simp: tx_GetByID_def elim!: select_row_on)
  then have m: "r \<in> set (transactions (w_db w))" "tr_id r = i" by (auto dest: find_row_Some)
  with assms(2) have "storable (tr_amount r)" by (auto simp: db_inv_def transactions_ok_def tx_row_ok_def)
  with r(2) have "shows_row r x" by (auto elim: scan_transaction_ok)
  with m u show ?thesis by (auto simp: shows_row_def)
qed

text \<open>
  C33: the filtered listing is exact and is not restricted to its caller: in a run without
  faults \<open>GetTransactionFilter\<close> returns, for every user the rate limiter admits, all rows the
  filter describes, newest first and cut to its window, whoever their parties are.
\<close>
theorem filter_lists_all_matching:
  assumes "calm env" "db_inv (w_db w)" "bounds_parse flt"
    "fst (CheckRateLimit env cfg (e_uuid_text env u) w) = Inr ()"
  shows "\<exists>xs. fst (GetTransactionFilter env cfg flt u k w) = Inr xs
     \<and> list_all2 shows_row (listed_rows flt (w_db w)) xs"
proof -
  obtain w1 where c: "CheckRateLimit env cfg (e_uuid_text env u) w = (Inr (), w1)"
    using assms(4) by (metis prod.collapse)
  let ?w2 = "put_tx (w_db w) (e_pg_now env (w_tick w1)) w1"
  have on: "on_tx ?w2 (w_db w) (e_pg_now env (w_tick w1))" by simp
  obtain xs where xs: "tx_GetTransactions env flt ?w2 = (Inr xs, put_tx (w_db w) (e_pg_now env (w_tick w1)) ?w2)"
    "list_all2 shows_row (listed_rows flt (w_db w)) xs"
    using tx_GetTransactions_calm [OF assms(1) on assms(2,3)] by blast
  have on2: "on_tx (put_tx (w_db w) (e_pg_now env (w_tick w1)) ?w2) (w_db w) (e_pg_now env (w_tick w1))" by simp
  have "fst (GetTransactionFilter env cfg flt u k w) = Inr xs"
    unfolding GetTransactionFilter_def limited_calm [OF assms(1) c]
    by (simp add: xs(1) Commit_calm [OF assms(1) on2])
  with xs(2) show ?thesis by blast
qed

theorem filter_lists_all_matching_witness:
  "\<exists>x. fst (GetTransactionFilter sample_env sample_limits (sample_filter uuid_Nil []) eve ''k'' (sample_world traded_db)) = Inr [x]
     \<and> tx_Sender_id x = alice \<and> tx_Receiver_id x = bob \<and> eve \<noteq> alice \<and> eve \<noteq> bob"
proof -
  have "bounds_parse (sample_filter uuid_Nil [])" by (simp add: bounds_parse_def sample_filter_def)
  moreover have "fst (CheckRateLimit sample_env sample_limits (e_uuid_text sample_env eve) (sample_world traded_db)) = Inr ()"
    by (rule sample_admits) (simp_all add: sample_world_def)
  ultimately obtain xs where
    xs: "fst (GetTransactionFilter sample_env sample_limits (sample_filter uuid_Nil []) eve ''k'' (sample_world traded_db)) = Inr xs"
    "list_all2 shows_row (listed_rows (sample_filter uuid_Nil []) traded_db) xs"
    using filter_lists_all_matching [OF sample_calm, of "sample_world traded_db" "sample_filter uuid_Nil []" sample_limits eve "''k''"] traded_inv
    by auto
  have "listed_rows (sample_filter uuid_Nil []) traded_db = [traded_row]"
    by (simp add: listed_rows_def traded_transactions filter_matches_def sample_filter_def filter_window_def newest_first_def)
  with xs show ?thesis
    by (auto simp: list_all2_Cons1 shows_row_def traded_row_def alice_def bob_def eve_def)
qed

lemma TransactionHistory_Inr:
  fixes w w' :: "'z world_scheme"
  assumes "TransactionHistory env cfg i l off w = (Inr (n, xs), w')" "db_inv (w_db w)" "i \<noteq> uuid_Nil"
  shows "n = int (length (filter (\<lambda>r. tr_receiver r = i \<or> tr_sender r = i) (transactions (w_db w))))
    \<and> list_all2 shows_row (filter_window (history_filter i l off)
        (newest_first (filter (\<lambda>r. tr_receiver r = i \<or> tr_sender r = i) (transactions (w_db w))))) xs"
proof -
  from assms(1) obtain w1 w2 :: "'z world_scheme" and now where on: "on_tx w1 (w_db w) now" and
    b: "bindE (tx_TotalTransactions env i) (\<lambda>total.
          bindE (tx_GetTransactions env (history_filter i l off)) (\<lambda>transactions.
          bindE (Commit env) (\<lambda>_. returnE (total, transactions)))) w1 = (Inr (n, xs), w2)"
    unfolding TransactionHistory_def by (rule limited_Inr) blast
  from b obtain w3 w4 :: "'z world_scheme" where t: "tx_TotalTransactions env i w1 = (Inr n, w3)"
    and g: "tx_GetTransactions env (history_filter i l off) w3 = (Inr xs, w4)"
    by (auto elim!: bindE_InrE)
  from t on have n: "n = int (length (filter (\<lambda>r. tr_receiver r = i \<or> tr_sender r = i) (transactions (w_db w))))"
    and on3: "on_tx w3 (w_db w) now"
    by (auto simp: tx_TotalTransactions_def elim!: sql_on)
  have "filter_matches (history_filter i l off) = (\<lambda>r. tr_receiver r = i \<or> tr_sender r = i)"
    using assms(3) by (auto simp: filter_matches_def history_filter_def)
  with tx_GetTransactions_on [OF g on3 assms(2)] n show ?thesis by (simp add: listed_rows_def)
qed

text \<open>
  C32: an account's history is its own: when \<open>TransactionHistory\<close> returns, the total is the
  number of transactions the account took part in, and the page shows rows of the table of
  which the account is the sender or the receiver, newest first, within the window asked for.
\<close>
theorem history_is_own:
  fixes w w' :: "'z world_scheme"
  assumes "TransactionHistory env cfg i l off w = (Inr (n, xs), w')" "db_inv (w_db w)" "i \<noteq> uuid_Nil"
  shows "n = int (length (filter (\<lambda>r. tr_receiver r = i \<or> tr_sender r = i) (transactions (w_db w))))
    \<and> list_all2 shows_row (filter_window (history_filter i l off)
        (newest_first (filter (\<lambda>r. tr_receiver r = i \<or> tr_sender r = i) (transactions (w_db w))))) xs"
  using assms by (rule TransactionHistory_Inr)

theorem history_is_own_witness:
  "\<exists>xs w'. TransactionHistory sample_env sample_limits alice 20 0 (sample_world traded_db) = (Inr (1, xs), w')
     \<and> list_all2 shows_row [traded_row] xs"
proof -
  have "fst (CheckRateLimit sample_env sample_limits (e_uuid_text sample_env alice) (sample_world traded_db)) = Inr ()"
    by (rule sample_admits) (simp_all add: sample_world_def)
  then obtain w1 where c: "CheckRateLimit sample_env sample_limits (e_uuid_text sample_env alice) (sample_world traded_db) = (Inr (), w1)"
    by (metis prod.collapse)
  let ?n = "e_pg_now sample_env (w_tick w1)" and ?f = "history_filter alice 20 0"
  let ?w2 = "put_tx traded_db ?n w1" and ?w3 = "put_tx traded_db ?n (put_tx traded_db ?n w1)"
  have on: "on_tx ?w2 traded_db ?n" "on_tx ?w3 traded_db ?n" "on_tx (put_tx traded_db ?n ?w3) traded_db ?n" by simp_all
  have "bounds_parse ?f" by (simp add: bounds_parse_def history_filter_def)
  then obtain xs where xs: "tx_GetTransactions sample_env ?f ?w3 = (Inr xs, put_tx traded_db ?n ?w3)"
    using tx_GetTransactions_calm [OF sample_calm on(2) traded_inv] by blast
  have t: "tx_TotalTransactions sample_env alice ?w2 = (Inr 1, ?w3)"
    by (simp add: tx_TotalTransactions_def sql_calm [OF sample_calm on(1)] traded_transactions traded_row_def)
  have "\<exists>w'. TransactionHistory sample_env sample_limits alice 20 0 (sample_world traded_db) = (Inr (1, xs), w')"
    unfolding TransactionHistory_def limited_calm [OF sample_calm c]
    by (simp add: t xs Commit_calm [OF sample_calm on(3)])
  then obtain w' where h: "TransactionHistory sample_env sample_limits alice 20 0 (sample_world traded_db) = (Inr (1, xs), w')" by blast
  have "alice \<noteq> uuid_Nil" by (simp add: alice_def uuid_Nil_def)
  from history_is_own [OF h _ this] traded_inv have "list_all2 shows_row (filter_window ?f
      (newest_first (filter (\<lambda>r. tr_receiver r = alice \<or> tr_sender r = alice) (transactions traded_db)))) xs" by simp
  then have "list_all2 shows_row [traded_row] xs"
    by (simp add: traded_transactions traded_row_def filter_window_def history_filter_def newest_first_def)
  with h show ?thesis by blast
qed

end
