(* ===== verification/Http_Util.thy ===== *)
theory Http_Util
  imports World Json
begin

text \<open>
  The HTTP side shared by the handlers: the request as \<open>net/http\<close> presents it (segments of the
  clean path, parsed query, cookies and headers in order of appearance), the response writer,
  and package \<open>internal/delivery/http/helpers/httputil\<close>. A response body is the value handed to
  the JSON encoder: the fields its struct tags let through. Writing to the socket does not fail.
\<close>

record http_request =
  rq_method :: string
  rq_path :: "string list"
  rq_query :: "(string \<times> string) list"
  rq_headers :: "(string \<times> string) list"
  rq_cookies :: "(string \<times> string) list"
  rq_body :: string
  rq_remote :: string           \<comment> \<open>\<open>RemoteAddr\<close>\<close>

text \<open>\<open>url.Values.Get\<close>, \<open>http.Header.Get\<close>: the first value of a key, or the empty string.\<close>

definition get_first :: "(string \<times> string) list \<Rightarrow> string \<Rightarrow> string" where
  "get_first kvs k = (case map_of kvs k of Some v \<Rightarrow> v | None \<Rightarrow> [])"

section \<open>Response bodies\<close>

record account_view =
  av_id :: uuid
  av_username :: string
  av_email :: string
  av_balance :: decimal
  av_role :: string

definition view_account :: "account \<Rightarrow> account_view" where
  "view_account a = \<lparr>av_id = ac_ID a, av_username = ac_Name a, av_email = ac_Email a,
     av_balance = ac_Balance a, av_role = ac_Role a\<rparr>"

record transaction_view =
  tv_amount :: decimal
  tv_sender_id :: uuid
  tv_receiver_id :: uuid
  tv_status :: TransactionStatus
  tv_created_at :: time

definition view_transaction :: "transaction \<Rightarrow> transaction_view" where
  "view_transaction t = \<lparr>tv_amount = tx_Amount t, tv_sender_id = tx_Sender_id t,
     tv_receiver_id = tx_Receiver_id t, tv_status = tx_Status t, tv_created_at = tx_Created_at t\<rparr>"

record tokens_view =
  kv_access_token :: string
  kv_refresh_token :: string
  kv_expires_in :: int

definition view_tokens :: "token_pair \<Rightarrow> tokens_view" where
  "view_tokens p = \<lparr>kv_access_token = tp_AccessToken p, kv_refresh_token = tp_RefreshToken p,
     kv_expires_in = tp_ExpiresIn p\<rparr>"

datatype payload =
    ErrorBody string "error option"    \<comment> \<open>the error text, and the error whose message is shown\<close>
  | FieldBody string string            \<comment> \<open>an object of one field\<close>
  | AccountBody account_view
  | TokensBody tokens_view
  | RegisteredBody account_view tokens_view
  | TransactionBody transaction_view
  | TransactionsBody "transaction_view list"
  | HistoryBody "transaction_view list" int
  | PlainBody string                   \<comment> \<open>the text of the standard library's own replies\<close>

section \<open>The response writer\<close>

record cookie =
  ck_Name :: string
  ck_Value :: string
  ck_Path :: string
  ck_HttpOnly :: bool
  ck_Secure :: bool
  ck_SameSiteStrict :: bool
  ck_MaxAge :: int

text \<open>The status is fixed by the first \<open>WriteHeader\<close>; headers set after it are not sent.\<close>

record response =
  rp_code :: "int option"
  rp_headers :: "(string \<times> string) list"
  rp_cookies :: "cookie list"
  rp_body :: "payload list"

definition new_response :: response where
  "new_response = \<lparr>rp_code = None, rp_headers = [], rp_cookies = [], rp_body = []\<rparr>"

definition set_header :: "string \<Rightarrow> string \<Rightarrow> response \<Rightarrow> response" where
  "set_header k v w = (if rp_code w = None
     then w\<lparr>rp_headers := filter (\<lambda>(k', _). k' \<noteq> k) (rp_headers w) @ [(k, v)]\<rparr> else w)"

definition add_header :: "string \<Rightarrow> string \<Rightarrow> response \<Rightarrow> response" where
  "add_header k v w = (if rp_code w = None then w\<lparr>rp_headers := rp_headers w @ [(k, v)]\<rparr> else w)"

definition write_header :: "int \<Rightarrow> response \<Rightarrow> response" where
  "write_header code w = (if rp_code w = None then w\<lparr>rp_code := Some code\<rparr> else w)"

definition write_body :: "payload \<Rightarrow> response \<Rightarrow> response" where
  "write_body b w = w\<lparr>rp_body := rp_body w @ [b]\<rparr>"

definition content_type :: "string \<times> string" where
  "content_type = (''Content-Type'', ''application/json'')"

definition SetAuthCookie :: "string \<Rightarrow> string \<Rightarrow> string \<Rightarrow> int \<Rightarrow> response \<Rightarrow> response" where
  "SetAuthCookie path name token maxage w = (if rp_code w = None
     then w\<lparr>rp_cookies := rp_cookies w @ [\<lparr>ck_Name = name, ck_Value = token, ck_Path = path,
        ck_HttpOnly = True, ck_Secure = True, ck_SameSiteStrict = True, ck_MaxAge = maxage\<rparr>]\<rparr>
     else w)"

section \<open>Errors\<close>

definition status :: "int \<Rightarrow> string" where
  "status i = (case map_of
     [(200, ''OK''), (400, ''Bad Request''), (401, ''Unauthorized''), (403, ''Forbidden''),
      (404, ''Not Found''), (409, ''Conflict''), (422, ''Unprocessable Entity''),
      (429, ''Too Many Requests''), (500, ''Internal Server Error'')] i of
     Some v \<Rightarrow> v | None \<Rightarrow> [])"

definition WriteError :: "int \<Rightarrow> error \<Rightarrow> int \<Rightarrow> response \<Rightarrow> response" where
  "WriteError code err flag w =
     (let w1 = write_header code (set_header (fst content_type) (snd content_type) w) in
      if flag = 1 then write_body (ErrorBody (status code) (Some err)) w1
      else write_body (ErrorBody (status code) None) w1)"

definition is_any :: "error \<Rightarrow> domain_error list \<Rightarrow> bool" where
  "is_any err ds \<longleftrightarrow> list_ex (\<lambda>d. errors_is err (Sentinel d)) ds"

definition WriteAuthError :: "error \<Rightarrow> response \<Rightarrow> response" where
  "WriteAuthError err w =
     (if is_any err [ErrRateLimited] then WriteError 429 err 0 w
      else if is_any err [ErrAccountAlreadyExist] then WriteError 409 err 0 w
      else if is_any err [ErrInvalidEmail, ErrInvalidPassword, ErrInvalidName] then WriteError 422 err 0 w
      else if is_any err [ErrInvalidCredentials, ErrInvalidRefreshToken, ErrRefreshTokenExpired,
          ErrRefreshTokenRevoked, ErrRefreshTokenReuse] then WriteError 401 err 0 w
      else WriteError 500 err 0 w)"

section \<open>JSON replies\<close>

text \<open>
  What the encoder refuses: a time whose year (in UTC) is outside \<open>[0, 9999]\<close>. Every other
  value the handlers send is encoded.
\<close>

definition time_encodable :: "time \<Rightarrow> bool" where
  "time_encodable t \<longleftrightarrow> - 62167219200 * 1000000000 \<le> t \<and> t < 253402300800 * 1000000000"

fun encodable :: "payload \<Rightarrow> bool" where
  "encodable (TransactionBody t) \<longleftrightarrow> time_encodable (tv_created_at t)"
| "encodable (TransactionsBody ts) \<longleftrightarrow> list_all (\<lambda>t. time_encodable (tv_created_at t)) ts"
| "encodable (HistoryBody ts n) \<longleftrightarrow> list_all (\<lambda>t. time_encodable (tv_created_at t)) ts"
| "encodable _ \<longleftrightarrow> True"

text \<open>The error, if the value cannot be encoded, and the writer.\<close>

definition WriteJSON :: "int \<Rightarrow> payload \<Rightarrow> response \<Rightarrow> error option \<times> response" where
  "WriteJSON code v w =
     (let w1 = add_header (fst content_type) (snd content_type) w in
      if \<not> encodable v then (Some (Plain ''json: year outside of range''), write_header 500 w1)
      else (None, write_body v (write_header code w1)))"

section \<open>Reading a request\<close>

definition maxJSONBodyBytes :: int where "maxJSONBodyBytes = 64 * 1024"

text \<open>
  The body, at most 64 KiB, is exactly one value that fits the struct, with white space around
  it. Reading past the limit is an error, and the second \<open>Decode\<close> reads up to the end.
\<close>

definition DecodeJSON :: "'r struct \<Rightarrow> 'r \<Rightarrow> http_request \<Rightarrow> (error, 'r) result" where
  "DecodeJSON fs dst r =
     (if int (length (rq_body r)) > maxJSONBodyBytes then Inl (Plain ''http: request body too large'')
      else (case json_parse (rq_body r) of
          None \<Rightarrow> Inl (Plain ''json: syntax'')
        | Some (v, rest) \<Rightarrow>
            (case decode_struct fs dst v of
               None \<Rightarrow> Inl (Plain ''json: cannot unmarshal'')
             | Some x \<Rightarrow>
                 if skip_ws rest \<noteq> [] then Inl (Plain ''more than one JSON value'') else Inr x)))"

text \<open>\<open>net.SplitHostPort\<close>, with \<open>None\<close> for its errors.\<close>

fun index_of :: "char \<Rightarrow> string \<Rightarrow> nat option" where
  "index_of c [] = None"
| "index_of c (x # xs) = (if x = c then Some 0 else map_option Suc (index_of c xs))"

definition last_index_of :: "char \<Rightarrow> string \<Rightarrow> nat option" where
  "last_index_of c s = map_option (\<lambda>i. length s - 1 - i) (index_of c (rev s))"

definition SplitHostPort :: "string \<Rightarrow> (string \<times> string) option" where
  "SplitHostPort hostport =
     (case last_index_of (CHR '':'') hostport of
        None \<Rightarrow> None
      | Some i \<Rightarrow>
          if hd hostport = CHR ''['' then
            (case index_of (CHR '']'') hostport of
               None \<Rightarrow> None
             | Some e \<Rightarrow>
                 if e + 1 = length hostport then None
                 else if e + 1 = i then
                   (if CHR ''['' \<in> set (drop 1 hostport) \<or> CHR '']'' \<in> set (drop (e + 1) hostport)
                    then None else Some (take (e - 1) (drop 1 hostport), drop (i + 1) hostport))
                 else None)
          else if CHR '':'' \<in> set (take i hostport) then None
          else if CHR ''['' \<in> set hostport \<or> CHR '']'' \<in> set hostport then None
          else Some (take i hostport, drop (i + 1) hostport))"

definition trim_brackets :: "string \<Rightarrow> string" where
  "trim_brackets s = (let b = (\<lambda>c. c = CHR ''['' \<or> c = CHR '']'')
     in rev (dropWhile b (rev (dropWhile b s))))"

definition ClientIP :: "http_request \<Rightarrow> string" where
  "ClientIP r =
     (case SplitHostPort (TrimSpace (rq_remote r)) of
        Some (host, port) \<Rightarrow> host
      | None \<Rightarrow> trim_brackets (TrimSpace (rq_remote r)))"

section \<open>What the writers do to a fresh response\<close>

lemma is_any_simps [simp]:
  "is_any err [] \<longleftrightarrow> False"
  "is_any err (d # ds) \<longleftrightarrow> errors_is err (Sentinel d) \<or> is_any err ds"
  by (simp_all add: is_any_def)

lemma new_response_simps [simp]:
  "rp_code new_response = None" "rp_headers new_response = []"
  "rp_cookies new_response = []" "rp_body new_response = []"
  by (simp_all add: new_response_def)

lemma WriteError_simps [simp]:
  "rp_code w = None \<Longrightarrow> rp_code (WriteError code err flag w) = Some code"
  "rp_body (WriteError code err flag w) =
     rp_body w @ [ErrorBody (status code) (if flag = 1 then Some err else None)]"
  "rp_cookies (WriteError code err flag w) = rp_cookies w"
  by (simp_all add: WriteError_def write_body_def write_header_def set_header_def Let_def)

lemma SetAuthCookie_simps [simp]:
  "rp_code (SetAuthCookie p n t a w) = rp_code w" "rp_body (SetAuthCookie p n t a w) = rp_body w"
  by (simp_all add: SetAuthCookie_def)

lemma WriteJSON_simps [simp]:
  "rp_code w = None \<Longrightarrow> rp_code (snd (WriteJSON code v w)) = Some (if encodable v then code else 500)"
  "rp_body (snd (WriteJSON code v w)) = (if encodable v then rp_body w @ [v] else rp_body w)"
  "fst (WriteJSON code v w) = None \<longleftrightarrow> encodable v"
  by (simp_all add: WriteJSON_def write_body_def write_header_def add_header_def Let_def)

end
