(* ===== verification/Request_Filter.thy ===== *)
theory Request_Filter
  imports Http_Util Tx_Query
begin

text \<open>
  Package \<open>internal/delivery/http/helpers/request\<close>: the filter of \<open>GET /transactions\<close> from the
  query. \<open>uuid.Parse\<close> is a parameter. \<open>time.Parse\<close> with the layout \<open>2006-01-02\<close> is modelled
  on the bytes of the date, its result is the UTC midnight in nanoseconds.
\<close>

section \<open>Dates\<close>

definition leap_year :: "int \<Rightarrow> bool" where
  "leap_year y \<longleftrightarrow> y mod 4 = 0 \<and> (y mod 100 \<noteq> 0 \<or> y mod 400 = 0)"

definition days_in :: "int \<Rightarrow> int \<Rightarrow> int" where
  "days_in y m = (if m = 2 then (if leap_year y then 29 else 28)
     else if m = 4 \<or> m = 6 \<or> m = 9 \<or> m = 11 then 30 else 31)"

text \<open>The days from the start of the year 0 to the start of the year; of the month in its year.\<close>

definition days_before_year :: "int \<Rightarrow> int" where
  "days_before_year y = 365 * y + (y + 3) div 4 - (y + 99) div 100 + (y + 399) div 400"

definition days_before_month :: "int \<Rightarrow> int \<Rightarrow> int" where
  "days_before_month y m = sum_list (map (days_in y) [1..m - 1])"

text \<open>1970-01-01 is day 719528 from the start of the year 0.\<close>

definition unix_day :: "int \<Rightarrow> int \<Rightarrow> int \<Rightarrow> int" where
  "unix_day y m d = days_before_year y + days_before_month y m + (d - 1) - 719528"

definition midnight :: "int \<Rightarrow> int \<Rightarrow> int \<Rightarrow> time" where
  "midnight y m d = unix_day y m d * 86400 * 1000000000"

text \<open>The number read from exactly \<open>n\<close> digits, and the rest.\<close>

definition get_digits :: "nat \<Rightarrow> string \<Rightarrow> (int \<times> string) option" where
  "get_digits n s = (if length s < n \<or> \<not> list_all is_digit (take n s) then None
     else Some (digits_val 0 (take n s), drop n s))"

definition get_dash :: "string \<Rightarrow> string option" where
  "get_dash s = (case s of c # cs \<Rightarrow> if c = CHR ''-'' then Some cs else None | [] \<Rightarrow> None)"

definition parse_date :: "string \<Rightarrow> time option" where
  "parse_date val =
     (case get_digits 4 val of
        None \<Rightarrow> None
      | Some (year, v1) \<Rightarrow> (case get_dash v1 of
        None \<Rightarrow> None
      | Some v2 \<Rightarrow> (case get_digits 2 v2 of
        None \<Rightarrow> None
      | Some (month, v3) \<Rightarrow>
          if month \<le> 0 \<or> 12 < month then None
          else (case get_dash v3 of
        None \<Rightarrow> None
      | Some v4 \<Rightarrow> (case get_digits 2 v4 of
        None \<Rightarrow> None
      | Some (day, v5) \<Rightarrow>
          if v5 \<noteq> [] then None
          else if day < 1 \<or> day > days_in year month then None
          else Some (midnight year month day))))))"

section \<open>The filter\<close>

definition parseUUID :: "env \<Rightarrow> (string \<times> string) list \<Rightarrow> string \<Rightarrow> (error, uuid) result" where
  "parseUUID env query key =
     (let val = get_first query key in
      if val = [] then Inr uuid_Nil
      else (case e_uuid_parse env val of
          None \<Rightarrow> Inl (Plain (''uuid '' @ val))
        | Some i \<Rightarrow> Inr i))"

definition parseTime :: "(string \<times> string) list \<Rightarrow> string \<Rightarrow> (error, time) result" where
  "parseTime query key =
     (let val = get_first query key in
      if val = [] then Inr zero_time
      else (case parse_date val of
          None \<Rightarrow> Inl (Wrapped (''date '' @ key) (Plain ''parsing time''))
        | Some t \<Rightarrow> Inr t))"

definition parse_number :: "(string \<times> string) list \<Rightarrow> string \<Rightarrow> (error, int) result" where
  "parse_number query key =
     (case atoi (get_first query key) of
        Inl e \<Rightarrow> Inl (Wrapped key (Plain ''strconv.Atoi''))
      | Inr n \<Rightarrow> Inr n)"

definition NewTransactionFilter :: "env \<Rightarrow> (string \<times> string) list \<Rightarrow> (error, transaction_filter) result" where
  "NewTransactionFilter env query =
     (case parseUUID env query ''sender_id'' of Inl err \<Rightarrow> Inl err
      | Inr senderID \<Rightarrow>
     (case parseUUID env query ''receiver_id'' of Inl err \<Rightarrow> Inl err
      | Inr receiverID \<Rightarrow>
     (let minAmount = get_first query ''min_amount''; maxAmount = get_first query ''max_amount'' in
      case parse_number query ''limit'' of Inl err \<Rightarrow> Inl err
      | Inr limit \<Rightarrow>
     (case parse_number query ''offset'' of Inl err \<Rightarrow> Inl err
      | Inr offset \<Rightarrow>
     (case parseTime query ''from'' of Inl err \<Rightarrow> Inl err
      | Inr from \<Rightarrow>
     (case parseTime query ''to'' of Inl err \<Rightarrow> Inl err
      | Inr to \<Rightarrow>
          Inr \<lparr>f_AccountID = uuid_Nil, f_SenderID = senderID, f_ReceiverID = receiverID,
            f_MinAmount = minAmount, f_MaxAmount = maxAmount, f_From = from, f_To = to,
            f_Limit = limit, f_Offset = offset\<rparr>))))))"

end
