(* ===== verification/Http_Handlers.thy ===== *)
theory Http_Handlers
  imports Auth Transfers Read_Services Request_Filter
begin

text \<open>
  Package \<open>internal/delivery/http/handlers\<close>: one function per handler, from the request, the
  identity the middleware left in the context (if any) and the state to the response and the
  state after it. The log lines that follow a failed write are not modelled.
\<close>

record app =
  ap_limits :: redis_limits
  ap_manager :: manager

record Identity =
  id_UserID :: string
  id_Role :: string

type_synonym handler = "http_request \<Rightarrow> Identity option \<Rightarrow> world \<Rightarrow> response \<times> world"

definition reply_error :: "int \<Rightarrow> error \<Rightarrow> int \<Rightarrow> world \<Rightarrow> response \<times> world" where
  "reply_error code err flag w = (WriteError code err flag new_response, w)"

definition reply_auth_error :: "error \<Rightarrow> world \<Rightarrow> response \<times> world" where
  "reply_auth_error err w = (WriteAuthError err new_response, w)"

definition uuid_parse :: "env \<Rightarrow> string \<Rightarrow> (error, uuid) result" where
  "uuid_parse env s = (case e_uuid_parse env s of None \<Rightarrow> Inl (Plain ''invalid UUID'') | Some i \<Rightarrow> Inr i)"

text \<open>
  \<open>if err := WriteJSON(w, code, v); err != nil { WriteError(w, 500, err, flag) }\<close>, and the variant
  that only logs the error.
\<close>

definition json_or_error :: "int \<Rightarrow> payload \<Rightarrow> int \<Rightarrow> response \<Rightarrow> response" where
  "json_or_error code v flag w =
     (case WriteJSON code v w of
        (None, w1) \<Rightarrow> w1
      | (Some err, w1) \<Rightarrow> WriteError 500 err flag w1)"

definition json_or_log :: "int \<Rightarrow> payload \<Rightarrow> response \<Rightarrow> response" where
  "json_or_log code v w = snd (WriteJSON code v w)"

section \<open>Package \<open>handlers/auth\<close>\<close>

record AuthDTO =
  dto_Email :: string
  dto_Password :: string
  dto_Name :: string

definition AuthDTO_struct :: "AuthDTO struct" where
  "AuthDTO_struct =
     [(''email'', string_field (\<lambda>s d. d\<lparr>dto_Email := s\<rparr>)),
      (''password'', string_field (\<lambda>s d. d\<lparr>dto_Password := s\<rparr>)),
      (''username'', string_field (\<lambda>s d. d\<lparr>dto_Name := s\<rparr>))]"

definition decode_AuthDTO :: "http_request \<Rightarrow> (error, AuthDTO) result" where
  "decode_AuthDTO r = DecodeJSON AuthDTO_struct \<lparr>dto_Email = [], dto_Password = [], dto_Name = []\<rparr> r"

definition set_pair_cookies :: "token_pair \<Rightarrow> response \<Rightarrow> response" where
  "set_pair_cookies token w =
     SetAuthCookie ''/auth/refresh'' ''refresh_token'' (tp_RefreshToken token) 604800
       (SetAuthCookie ''/api'' ''access_token'' (tp_AccessToken token) 900 w)"

definition clear_cookies :: "response \<Rightarrow> response" where
  "clear_cookies w =
     SetAuthCookie ''/auth/refresh'' ''refresh_token'' [] (- 1)
       (SetAuthCookie ''/api'' ''access_token'' [] (- 1) w)"

definition handle_Register :: "env \<Rightarrow> app \<Rightarrow> handler" where
  "handle_Register env app r who w =
     (let ip = ClientIP r in
      case decode_AuthDTO r of
        Inl err \<Rightarrow> reply_error 400 err 0 w
      | Inr dto \<Rightarrow>
     (case Register env (ap_limits app) (dto_Email dto) (dto_Password dto) (dto_Name dto) ip w of
        (Inl err, w1) \<Rightarrow> reply_auth_error err w1
      | (Inr account, w1) \<Rightarrow>
     (case Login env (ap_limits app) (ap_manager app) (dto_Email dto) (dto_Password dto) ip w1 of
        (Inl err, w2) \<Rightarrow> reply_auth_error err w2
      | (Inr token, w2) \<Rightarrow>
          (json_or_error 201 (RegisteredBody (view_account account) (view_tokens token)) 1
             (set_pair_cookies token new_response), w2))))"

definition handle_Login :: "env \<Rightarrow> app \<Rightarrow> handler" where
  "handle_Login env app r who w =
     (let ip = ClientIP r in
      case decode_AuthDTO r of
        Inl err \<Rightarrow> reply_error 400 err 0 w
      | Inr dto \<Rightarrow>
     (case Login env (ap_limits app) (ap_manager app) (dto_Email dto) (dto_Password dto) ip w of
        (Inl err, w1) \<Rightarrow> reply_auth_error err w1
      | (Inr token, w1) \<Rightarrow>
          (json_or_error 200 (TokensBody (view_tokens token)) 1 (set_pair_cookies token new_response), w1)))"

text \<open>The refresh token: the cookie if there is one, otherwise the field of the body.\<close>

definition refresh_struct :: "string struct" where
  "refresh_struct = [(''refresh_token'', string_field (\<lambda>s _. s))]"

definition refresh_token_of :: "http_request \<Rightarrow> (error, string) result" where
  "refresh_token_of r =
     (case map_of (rq_cookies r) ''refresh_token'' of
        Some value \<Rightarrow> Inr value
      | None \<Rightarrow> DecodeJSON refresh_struct [] r)"

definition no_refresh_token :: error where
  "no_refresh_token = Plain ''no refresh token''"

definition handle_Refresh :: "env \<Rightarrow> app \<Rightarrow> handler" where
  "handle_Refresh env app r who w =
     (case refresh_token_of r of
        Inl err \<Rightarrow> reply_error 400 no_refresh_token 1 w
      | Inr refreshToken \<Rightarrow>
     (let ip = ClientIP r in
      if refreshToken = [] then reply_error 400 no_refresh_token 1 w
      else (case Refresh env (ap_limits app) (ap_manager app) refreshToken ip w of
          (Inl err, w1) \<Rightarrow> reply_auth_error err w1
        | (Inr token, w1) \<Rightarrow>
            (json_or_error 200 (TokensBody (view_tokens token)) 0 (set_pair_cookies token new_response), w1))))"

definition success_body :: payload where
  "success_body = FieldBody ''message'' ''success''"

definition handle_Logout :: "env \<Rightarrow> app \<Rightarrow> handler" where
  "handle_Logout env app r who w =
     (case refresh_token_of r of
        Inl err \<Rightarrow> reply_error 400 no_refresh_token 0 w
      | Inr refreshToken \<Rightarrow>
     (let ip = ClientIP r in
      if refreshToken = [] then reply_error 400 no_refresh_token 0 w
      else (case Logout env (ap_limits app) (ap_manager app) refreshToken ip w of
          (Inl err, w1) \<Rightarrow> reply_auth_error err w1
        | (Inr _, w1) \<Rightarrow> (json_or_error 200 success_body 0 (clear_cookies new_response), w1))))"

definition handle_LogoutAll :: "env \<Rightarrow> app \<Rightarrow> handler" where
  "handle_LogoutAll env app r who w =
     (case who of
        None \<Rightarrow> reply_error 400 (Plain ''no user_id'') 1 w
      | Some identity \<Rightarrow>
     (case uuid_parse env (id_UserID identity) of
        Inl err \<Rightarrow> reply_error 400 err 0 w
      | Inr userID \<Rightarrow>
     (case LogoutAll env userID w of
        (Inl err, w1) \<Rightarrow> reply_auth_error err w1
      | (Inr _, w1) \<Rightarrow> (json_or_error 200 success_body 0 (clear_cookies new_response), w1))))"

section \<open>Package \<open>handlers/transactions\<close>\<close>

record transferDTO =
  dto_Receiver_id :: uuid
  dto_Amount :: string

definition transferDTO_struct :: "env \<Rightarrow> transferDTO struct" where
  "transferDTO_struct env =
     [(''receiver_id'', text_field (e_uuid_parse env) (\<lambda>i d. d\<lparr>dto_Receiver_id := i\<rparr>)),
      (''amount'', string_field (\<lambda>s d. d\<lparr>dto_Amount := s\<rparr>))]"

definition decode_transferDTO :: "env \<Rightarrow> http_request \<Rightarrow> (error, transferDTO) result" where
  "decode_transferDTO env r =
     DecodeJSON (transferDTO_struct env) \<lparr>dto_Receiver_id = uuid_Nil, dto_Amount = []\<rparr> r"

definition idempotency_key :: "http_request \<Rightarrow> string" where
  "idempotency_key r = get_first (rq_headers r) ''Idempotency-Key''"

definition json_response :: response where
  "json_response = set_header (fst content_type) (snd content_type) new_response"

definition no_user :: error where
  "no_user = Plain ''no user_id in the context''"

definition transfer_error :: "error \<Rightarrow> response \<Rightarrow> response" where
  "transfer_error err w =
     (if errors_is err (Sentinel ErrIdempotencyConflict) \<or> errors_is err (Sentinel ErrIdempotencyInProgress)
      then WriteError 409 err 1 w
      else if errors_is err (Sentinel ErrSameAccount) \<or> errors_is err (Sentinel ErrInvalidAmount)
          \<or> errors_is err (Sentinel ErrInsufficientFunds) \<or> errors_is err (Sentinel ErrReceiverAccountNotFound)
      then WriteError 400 err 1 w
      else WriteError 500 err 1 w)"

definition handle_Transfer :: "env \<Rightarrow> app \<Rightarrow> handler" where
  "handle_Transfer env app r who w =
     (case who of
        None \<Rightarrow> (WriteError 401 no_user 0 json_response, w)
      | Some identity \<Rightarrow>
     (case uuid_parse env (id_UserID identity) of
        Inl err \<Rightarrow> (WriteError 400 err 0 json_response, w)
      | Inr senderID \<Rightarrow>
     (let key = idempotency_key r in
      case ValidateIdempotencyKey key of
        Some err \<Rightarrow> (WriteError 400 err 1 json_response, w)
      | None \<Rightarrow>
     (case decode_transferDTO env r of
        Inl err \<Rightarrow> (WriteError 400 err 0 json_response, w)
      | Inr dto \<Rightarrow>
     (case NewFromString (dto_Amount dto) of
        Inl err \<Rightarrow> (WriteError 400 (DecErr err) 0 json_response, w)
      | Inr amount \<Rightarrow>
     (case Transfer env (ap_limits app) senderID (dto_Receiver_id dto) key amount w of
        (Inl err, w1) \<Rightarrow> (transfer_error err json_response, w1)
      | (Inr transactionID, w1) \<Rightarrow>
          (json_or_log 201 (FieldBody ''transaction_id'' transactionID) json_response, w1)))))))"

text \<open>The segment the pattern \<open>{id}\<close> of the route matched.\<close>

definition path_value :: "http_request \<Rightarrow> string" where
  "path_value r = (case rq_path r of _ # i # _ \<Rightarrow> i | _ \<Rightarrow> [])"

definition handle_GetTransaction :: "env \<Rightarrow> app \<Rightarrow> handler" where
  "handle_GetTransaction env app r who w =
     (case uuid_parse env (path_value r) of
        Inl err \<Rightarrow> (WriteError 400 err 1 json_response, w)
      | Inr i \<Rightarrow>
     (case who of
        None \<Rightarrow> (WriteError 401 no_user 0 json_response, w)
      | Some identity \<Rightarrow>
     (case uuid_parse env (id_UserID identity) of
        Inl err \<Rightarrow> (WriteError 400 err 0 json_response, w)
      | Inr userID \<Rightarrow>
     (case GetTransaction env (ap_limits app) i userID (idempotency_key r) w of
        (Inl err, w1) \<Rightarrow>
          (if errors_is err (Sentinel ErrAccessDenied) then WriteError 404 err 0 json_response
           else WriteError 500 err 1 json_response, w1)
      | (Inr transaction, w1) \<Rightarrow>
          (json_or_log 200 (TransactionBody (view_transaction transaction)) json_response, w1)))))"

definition handle_TransactionFilter :: "env \<Rightarrow> app \<Rightarrow> handler" where
  "handle_TransactionFilter env app r who w =
     (case who of
        None \<Rightarrow> (WriteError 401 no_user 0 json_response, w)
      | Some identity \<Rightarrow>
     (case uuid_parse env (id_UserID identity) of
        Inl err \<Rightarrow> (WriteError 400 err 0 json_response, w)
      | Inr userID \<Rightarrow>
     (let key = idempotency_key r in
      case NewTransactionFilter env (rq_query r) of
        Inl err \<Rightarrow> (WriteError 400 err 1 json_response, w)
      | Inr flt \<Rightarrow>
     (case GetTransactionFilter env (ap_limits app) flt userID key w of
        (Inl err, w1) \<Rightarrow> (WriteError 500 err 1 json_response, w1)
      | (Inr txs, w1) \<Rightarrow>
          (json_or_log 200 (TransactionsBody (map view_transaction txs)) json_response, w1)))))"

section \<open>Package \<open>handlers/accounts\<close>\<close>

definition handle_GetAccount :: "env \<Rightarrow> app \<Rightarrow> handler" where
  "handle_GetAccount env app r who w =
     (case uuid_parse env (path_value r) of
        Inl err \<Rightarrow> reply_error 400 err 0 w
      | Inr accountID \<Rightarrow>
     (case who of
        None \<Rightarrow> reply_error 401 no_user 0 w
      | Some identity \<Rightarrow>
          if id_UserID identity \<noteq> e_uuid_text env accountID
          then reply_error 403 (Sentinel ErrAccessDenied) 0 w
          else (case GetAccount env (ap_limits app) accountID w of
              (Inl err, w1) \<Rightarrow> reply_error 500 err 1 w1
            | (Inr account, w1) \<Rightarrow> (json_or_log 200 (AccountBody (view_account account)) new_response, w1))))"

definition handle_AccountTransactions :: "env \<Rightarrow> app \<Rightarrow> handler" where
  "handle_AccountTransactions env app r who w =
     (case uuid_parse env (path_value r) of
        Inl err \<Rightarrow> reply_error 400 err 0 w
      | Inr accountID \<Rightarrow>
     (case who of
        None \<Rightarrow> reply_error 401 no_user 0 w
      | Some identity \<Rightarrow>
          if id_UserID identity \<noteq> e_uuid_text env accountID
          then reply_error 403 (Sentinel ErrAccessDenied) 0 w
          else
     (let l = (case atoi (get_first (rq_query r) ''limit'') of Inr n \<Rightarrow> n | Inl _ \<Rightarrow> 10);
          off = (case atoi (get_first (rq_query r) ''offset'') of Inr n \<Rightarrow> n | Inl _ \<Rightarrow> 0)
      in case TransactionHistory env (ap_limits app) accountID l off w of
           (Inl err, w1) \<Rightarrow> reply_error 500 err 0 w1
         | (Inr (n, txs), w1) \<Rightarrow>
             (json_or_log 200 (HistoryBody (map view_transaction txs) n) new_response, w1))))"

section \<open>Package \<open>handlers/health\<close>\<close>

definition handle_Health :: handler where
  "handle_Health r who w = (json_or_log 200 (FieldBody ''status'' ''ok'') new_response, w)"

text \<open>The readiness checks (pings of the stores) run in order until one fails.\<close>

fun run_checks :: "(nat \<Rightarrow> error option) list \<Rightarrow> world \<Rightarrow> bool \<times> world" where
  "run_checks [] w = (True, w)"
| "run_checks (check # cs) w =
     (case check (w_tick w) of Some err \<Rightarrow> (False, tick w) | None \<Rightarrow> run_checks cs (tick w))"

definition handle_Readiness :: "(nat \<Rightarrow> error option) list \<Rightarrow> handler" where
  "handle_Readiness checks r who w =
     (case run_checks checks w of
        (False, w1) \<Rightarrow> (json_or_log 503 (FieldBody ''status'' ''unavailable'') new_response, w1)
      | (True, w1) \<Rightarrow> (json_or_log 200 (FieldBody ''status'' ''ready'') new_response, w1))"

end
