(* ===== verification/Http_Server.thy ===== *)
theory Http_Server
  imports Http_Handlers
begin

text \<open>
  The middleware that authenticates a request, the router and the service of one request: the
  packages \<open>middleware\<close>, \<open>requestctx\<close> and \<open>router\<close>.
\<close>

section \<open>The middleware\<close>

text \<open>\<open>strings.Cut(header, " ")\<close>.\<close>

definition cut_space :: "string \<Rightarrow> (string \<times> string) option" where
  "cut_space s = (case index_of (CHR '' '') s of None \<Rightarrow> None | Some i \<Rightarrow> Some (take i s, drop (i + 1) s))"

text \<open>\<open>strings.EqualFold(s, "Bearer")\<close>: no rune outside ASCII folds to one of its letters.\<close>

definition is_bearer :: "string \<Rightarrow> bool" where
  "is_bearer s \<longleftrightarrow> map lower_char s = ''bearer''"

definition bearerToken :: "http_request \<Rightarrow> (error, string) result" where
  "bearerToken r =
     (case cut_space (get_first (rq_headers r) ''Authorization'') of
        None \<Rightarrow> Inl (Plain ''no Authorization header'')
      | Some (scheme, token) \<Rightarrow>
          if \<not> is_bearer scheme then Inl (Plain ''scheme Bearer expected'')
          else if token = [] then Inl (Plain ''empty token'')
          else Inr token)"

definition unauthorized :: "string \<Rightarrow> response" where
  "unauthorized message =
     write_body (ErrorBody message None)
       (write_header 401
         (set_header ''WWW-Authenticate'' (''Bearer error='' @ [CHR 0x22] @ ''invalid_token'' @ [CHR 0x22])
           (set_header (fst content_type) (snd content_type) new_response)))"

text \<open>\<open>WithIdentity\<close> puts the identity where \<open>IdentityFrom\<close> finds it: the handler's argument.\<close>

definition Middleware :: "env \<Rightarrow> app \<Rightarrow> handler \<Rightarrow> handler" where
  "Middleware env app next_handler r who w =
     (case bearerToken r of
        Inl err \<Rightarrow> (unauthorized ''authorization required'', w)
      | Inr token \<Rightarrow>
     (case ValidateAccessToken env (ap_manager app) token w of
        (Inl err, w1) \<Rightarrow>
          (if errors_is err (Sentinel ErrTokenExpired) then unauthorized ''token expired''
           else unauthorized ''invalid token'', w1)
      | (Inr claims, w1) \<Rightarrow>
          next_handler r (Some \<lparr>id_UserID = jc_UserID claims, id_Role = jc_Role claims\<rparr>) w1))"

section \<open>The router\<close>

datatype segment = Lit string | Wild

datatype endpoint =
    EHealth | EReady | ERegister | ELogin | ERefresh | ELogout | ELogoutAll
  | EGetAccount | EAccountTransactions | ETransfer | EGetTransaction | ETransactionFilter

definition routes :: "(string \<times> segment list \<times> endpoint) list" where
  "routes =
     [(''GET'', [Lit ''health''], EHealth),
      (''GET'', [Lit ''health'', Lit ''live''], EHealth),
      (''GET'', [Lit ''health'', Lit ''ready''], EReady),
      (''POST'', [Lit ''auth'', Lit ''register''], ERegister),
      (''POST'', [Lit ''auth'', Lit ''login''], ELogin),
      (''POST'', [Lit ''auth'', Lit ''refresh''], ERefresh),
      (''POST'', [Lit ''auth'', Lit ''logout''], ELogout),
      (''POST'', [Lit ''auth'', Lit ''logout-all''], ELogoutAll),
      (''GET'', [Lit ''accounts'', Wild], EGetAccount),
      (''GET'', [Lit ''accounts'', Wild, Lit ''transactions''], EAccountTransactions),
      (''POST'', [Lit ''transactions''], ETransfer),
      (''GET'', [Lit ''transactions'', Wild], EGetTransaction),
      (''GET'', [Lit ''transactions''], ETransactionFilter)]"

fun path_matches :: "segment list \<Rightarrow> string list \<Rightarrow> bool" where
  "path_matches [] [] \<longleftrightarrow> True"
| "path_matches (Lit s # ps) (x # xs) \<longleftrightarrow> s = x \<and> path_matches ps xs"
| "path_matches (Wild # ps) (x # xs) \<longleftrightarrow> x \<noteq> [] \<and> path_matches ps xs"
| "path_matches _ _ \<longleftrightarrow> False"

text \<open>A pattern with the method GET also matches HEAD.\<close>

definition method_matches :: "string \<Rightarrow> string \<Rightarrow> bool" where
  "method_matches pattern m \<longleftrightarrow> pattern = m \<or> pattern = ''GET'' \<and> m = ''HEAD''"

text \<open>No two patterns match the same request (\<open>routes_disjoint\<close>), so their order plays no role.\<close>

definition find_route :: "http_request \<Rightarrow> endpoint option" where
  "find_route r =
     map_option (\<lambda>(_, _, e). e)
       (find (\<lambda>(m, p, _). method_matches m (rq_method r) \<and> path_matches p (rq_path r)) routes)"

fun endpoint_handler :: "env \<Rightarrow> app \<Rightarrow> (nat \<Rightarrow> error option) list \<Rightarrow> endpoint \<Rightarrow> handler" where
  "endpoint_handler env app checks EHealth = handle_Health"
| "endpoint_handler env app checks EReady = handle_Readiness checks"
| "endpoint_handler env app checks ERegister = handle_Register env app"
| "endpoint_handler env app checks ELogin = handle_Login env app"
| "endpoint_handler env app checks ERefresh = handle_Refresh env app"
| "endpoint_handler env app checks ELogout = Middleware env app (handle_Logout env app)"
| "endpoint_handler env app checks ELogoutAll = Middleware env app (handle_LogoutAll env app)"
| "endpoint_handler env app checks EGetAccount = Middleware env app (handle_GetAccount env app)"
| "endpoint_handler env app checks EAccountTransactions =
     Middleware env app (handle_AccountTransactions env app)"
| "endpoint_handler env app checks ETransfer = Middleware env app (handle_Transfer env app)"
| "endpoint_handler env app checks EGetTransaction = Middleware env app (handle_GetTransaction env app)"
| "endpoint_handler env app checks ETransactionFilter =
     Middleware env app (handle_TransactionFilter env app)"

text \<open>The replies of the mux itself: a path of another method, or no path at all.\<close>

definition no_route :: "http_request \<Rightarrow> response" where
  "no_route r =
     (if list_ex (\<lambda>(_, p, _). path_matches p (rq_path r)) routes
      then write_body (PlainBody ''Method Not Allowed'') (write_header 405 new_response)
      else write_body (PlainBody ''404 page not found'') (write_header 404 new_response))"

definition serve_http ::
  "env \<Rightarrow> app \<Rightarrow> (nat \<Rightarrow> error option) list \<Rightarrow> http_request \<Rightarrow> world \<Rightarrow> response \<times> world" where
  "serve_http env app checks r w =
     (case find_route r of
        None \<Rightarrow> (no_route r, w)
      | Some e \<Rightarrow> endpoint_handler env app checks e r None w)"

section \<open>The table of routes\<close>

instantiation endpoint :: enum
begin

definition enum_endpoint :: "endpoint list" where
  "enum_endpoint = [EHealth, EReady, ERegister, ELogin, ERefresh, ELogout, ELogoutAll,
     EGetAccount, EAccountTransactions, ETransfer, EGetTransaction, ETransactionFilter]"

definition enum_all_endpoint :: "(endpoint \<Rightarrow> bool) \<Rightarrow> bool" where
  "enum_all_endpoint P \<longleftrightarrow> list_all P enum_class.enum"

definition enum_ex_endpoint :: "(endpoint \<Rightarrow> bool) \<Rightarrow> bool" where
  "enum_ex_endpoint P \<longleftrightarrow> list_ex P enum_class.enum"

instance
proof
  show univ: "(UNIV :: endpoint set) = set enum_class.enum"
  proof (rule set_eqI)
    fix e :: endpoint
    show "e \<in> UNIV \<longleftrightarrow> e \<in> set enum_class.enum" by (cases e) (simp_all add: enum_endpoint_def)
  qed
  show "distinct (enum_class.enum :: endpoint list)" by (simp add: enum_endpoint_def)
  show "enum_class.enum_all P \<longleftrightarrow> Ball UNIV P" for P :: "endpoint \<Rightarrow> bool"
    unfolding univ by (simp add: enum_all_endpoint_def list_all_iff)
  show "enum_class.enum_ex P \<longleftrightarrow> Bex UNIV P" for P :: "endpoint \<Rightarrow> bool"
    unfolding univ by (simp add: enum_ex_endpoint_def list_ex_iff)
qed

end

lemma every_endpoint_routed: "\<forall>e. \<exists>r\<in>set routes. snd (snd r) = e"
  by code_simp

text \<open>
  Two patterns overlap when some path matches both. No two patterns of the table with a method in
  common do, so registering them is never a conflict, on which \<open>ServeMux\<close> would panic.
\<close>

fun overlap :: "segment list \<Rightarrow> segment list \<Rightarrow> bool" where
  "overlap [] [] \<longleftrightarrow> True"
| "overlap (Lit s # ps) (Lit t # qs) \<longleftrightarrow> s = t \<and> overlap ps qs"
| "overlap (Lit s # ps) (Wild # qs) \<longleftrightarrow> s \<noteq> [] \<and> overlap ps qs"
| "overlap (Wild # ps) (Lit t # qs) \<longleftrightarrow> t \<noteq> [] \<and> overlap ps qs"
| "overlap (Wild # ps) (Wild # qs) \<longleftrightarrow> overlap ps qs"
| "overlap _ _ \<longleftrightarrow> False"

fun_cases path_matches_NilE: "path_matches [] xs"
fun_cases path_matches_ConsE: "path_matches (s # ps) xs"

lemma overlap_if_common: "path_matches ps xs \<Longrightarrow> path_matches qs xs \<Longrightarrow> overlap ps qs"
  by (induction ps qs arbitrary: xs rule: overlap.induct)
    (auto elim!: path_matches_NilE path_matches_ConsE)

lemma routes_apart:
  "\<forall>r\<in>set routes. \<forall>r'\<in>set routes. fst r = fst r' \<and> overlap (fst (snd r)) (fst (snd r')) \<longrightarrow> r = r'"
  by code_simp

lemma route_methods: "\<forall>r\<in>set routes. fst r = ''GET'' \<or> fst r = ''POST''"
  by code_simp

lemma routes_disjoint:
  assumes "(m, p, e) \<in> set routes" "(m', p', e') \<in> set routes" "method_matches m x" "method_matches m' x"
    "path_matches p xs" "path_matches p' xs"
  shows "(m, p, e) = (m', p', e')"
proof -
  have "m = m'"
    using route_methods [THEN bspec, OF assms(1)] route_methods [THEN bspec, OF assms(2)] assms(3,4)
    by (auto simp: method_matches_def)
  with routes_apart [THEN bspec, OF assms(1), THEN bspec, OF assms(2)] overlap_if_common [OF assms(5,6)]
  show ?thesis by simp
qed

end
