(* ===== verification/Json_Props.thy ===== *)
theory Json_Props
  imports Json
begin

text \<open>
  Facts about the reader of \<open>Json\<close>: the counter of its recursion is never what stops it, and it
  reads back an object of strings written in the plain way.
\<close>

section \<open>The counter is enough\<close>

lemma skip_ws_length: "length (skip_ws s) \<le> length s"
  by (simp add: skip_ws_def length_dropWhile_le)

lemma json_string_shorter: "json_string s = Some (t, r) \<Longrightarrow> length r < length s"
proof (induction s arbitrary: t r rule: length_induct)
  case (1 s)
  have IH: "length r' < length y" if "length y < length s" "json_string y = Some (t', r')" for y t' r'
    using 1(1) that by blast
  have sub: "length r < n"
    if "json_string y = Some (a, r)" "length y \<le> m" "m < length s" "m \<le> n" for y a m n
    using IH [of y a r] that by simp
  note step = 1(2) [unfolded json_string.simps [of s]]
  from step show ?case
  proof (cases s)
    case s: (Cons c cs)
    show ?thesis
    proof (cases "c = CHR 0x22 \<or> (of_char c :: int) < 0x20 \<or> c = CHR 0x5C")
      case True
      with step s show ?thesis
        apply (auto split: if_splits list.splits option.splits prod.splits dest!: hex4_length)
         apply (rule sub [OF _ unicode_escape_length], assumption, simp, simp)
        apply (rule sub [OF _ order_refl], assumption, simp, simp)
        done
    next
      case False
      with step s rune_len_pos [of s] show ?thesis
        by (auto simp: Let_def split: if_splits dest!: IH [rotated])
    qed
  qed simp
qed

lemma span_length: "span P s = (a, b) \<Longrightarrow> length s = length a + length b"
  by (induction s arbitrary: a b) (auto split: if_splits prod.splits)

lemma json_number_shorter:
  assumes "json_number s = Some (t, r)"
  shows "length r < length s"
proof -
  obtain sign s0 where s0: "(if s \<noteq> [] \<and> hd s = CHR ''-'' then ([hd s], tl s) else ([], s)) = (sign, s0)" by force
  then have le: "length s0 \<le> length s" by (auto split: if_splits)
  from assms s0 obtain i s1 f s2 e
    where p: "number_integer s0 = Some (i, s1)" "number_fraction s1 = Some (f, s2)" "number_exponent s2 = Some (e, r)"
    by (auto simp: json_number_def split: option.splits)
  from p(1) have "length s1 < length s0"
    by (auto simp: number_integer_def split: list.splits if_splits prod.splits dest!: span_length)
  moreover from p(2) have "length s2 \<le> length s1"
    by (auto simp: number_fraction_def split: list.splits if_splits prod.splits dest!: span_length)
  moreover have "length r \<le> length s2" if c: "s2 = c # cs" for c cs
  proof -
    obtain g u where g: "span (\<lambda>x. x = CHR ''+'' \<or> x = CHR ''-'') (take 1 cs) = (g, u)" by force
    with p(3) c show ?thesis
      by (auto simp: number_exponent_def split: if_splits prod.splits dest!: span_length)
  qed
  with p(3) have "length r \<le> length s2" by (cases s2) (auto simp: number_exponent_def)
  ultimately show ?thesis using le by simp
qed

lemma prefix_rest_shorter: "prefix_rest (p # ps) s = Some r \<Longrightarrow> length r < length s"
  by (auto dest: prefix_rest_length)

lemma json_shorter:
  "json_value n s = Some (v, r) \<Longrightarrow> length r < length s"
  "json_items n s = Some (vs, r) \<Longrightarrow> length r < length s"
  "json_members n s = Some (ms, r) \<Longrightarrow> length r < length s"
proof (induction n arbitrary: s v vs ms r)
  case (Suc n)
  have ws: "length ds < length cs" if "skip_ws cs = d # ds" for cs :: string and d ds
    using skip_ws_length [of cs] that by simp
  have skip: "length (skip_ws cs) \<le> length cs" for cs by (rule skip_ws_length)
  {
    case 1
    then obtain c cs where s: "s = c # cs" by (cases s) auto
    have "(\<exists>t. json_string cs = Some (t, r)) \<or> (\<exists>d. skip_ws cs = d # r)
      \<or> (\<exists>us. json_items n (skip_ws cs) = Some (us, r)) \<or> (\<exists>us. json_members n (skip_ws cs) = Some (us, r))
      \<or> (\<exists>p ps. prefix_rest (p # ps) s = Some r) \<or> (\<exists>t. json_number s = Some (t, r))"
      using 1 unfolding s json_value.simps list.case
      by (simp split: list.splits if_splits option.splits del: prefix_rest.simps; blast)
    then consider t where "json_string cs = Some (t, r)" | d where "skip_ws cs = d # r"
      | us where "json_items n (skip_ws cs) = Some (us, r)"
      | us where "json_members n (skip_ws cs) = Some (us, r)"
      | p ps where "prefix_rest (p # ps) s = Some r" | t where "json_number s = Some (t, r)"
      by blast
    then show ?case
    proof cases
      case 3
      with Suc.IH(2) skip [of cs] show ?thesis unfolding s by fastforce
    next
      case 4
      with Suc.IH(3) skip [of cs] show ?thesis unfolding s by fastforce
    next
      case 5
      then show ?thesis by (rule prefix_rest_shorter)
    qed (use s in \<open>auto dest: json_string_shorter json_number_shorter ws\<close>)
  next
    case 2
    then obtain v' s1 where v: "json_value n s = Some (v', s1)" by (auto split: option.splits)
    with 2 obtain c cs where c: "skip_ws s1 = c # cs" by (auto split: list.splits)
    from 2 v c consider "r = cs" | us where "json_items n (skip_ws cs) = Some (us, r)"
      by (auto split: if_splits)
    then show ?case
      using Suc.IH(1) [OF v] ws [OF c] skip [of cs] Suc.IH(2) [of "skip_ws cs" _ r] by cases force+
  next
    case 3
    then obtain qs k s1 where k: "s = CHR 0x22 # qs" "json_string qs = Some (k, s1)"
      by (auto split: list.splits if_splits option.splits)
    with 3 obtain cs v' s2 where c: "skip_ws s1 = CHR '':'' # cs" "json_value n (skip_ws cs) = Some (v', s2)"
      by (auto split: list.splits if_splits option.splits)
    with 3 k obtain d ds where d: "skip_ws s2 = d # ds" by (auto split: list.splits)
    from 3 k c d consider "r = ds" | us where "json_members n (skip_ws ds) = Some (us, r)"
      by (auto split: if_splits)
    then show ?case
      using k(1) json_string_shorter [OF k(2)] Suc.IH(1) [OF c(2)] ws [OF c(1)] ws [OF d] skip [of cs]
        skip [of ds] Suc.IH(3) [of "skip_ws ds" _ r] by cases force+
  }
qed simp_all

lemma json_fuel_step:
  "2 * length s < n \<Longrightarrow> json_value (Suc n) s = json_value n s"
  "2 * length s + 1 < n \<Longrightarrow> json_items (Suc n) s = json_items n s"
  "2 * length s < n \<Longrightarrow> json_members (Suc n) s = json_members n s"
proof (induction n arbitrary: s)
  case (Suc n)
  {
    case 1
    show ?case
    proof (cases s)
      case (Cons c cs)
      with 1 skip_ws_length [of cs] have l: "2 * length (skip_ws cs) + 1 < n" by simp
      then have "json_items (Suc n) (skip_ws cs) = json_items n (skip_ws cs)" by (rule Suc.IH)
      moreover from l have "json_members (Suc n) (skip_ws cs) = json_members n (skip_ws cs)"
        by (intro Suc.IH) linarith
      ultimately show ?thesis
        unfolding Cons json_value.simps(2) [of "Suc n"] json_value.simps(2) [of n] list.case
        by (auto split: list.split)
    qed simp
  next
    case 2
    then have v: "json_value (Suc n) s = json_value n s" by (intro Suc.IH) simp
    have "json_items (Suc n) (skip_ws cs) = json_items n (skip_ws cs)"
      if "json_value n s = Some (x, s1)" "skip_ws s1 = c # cs" for x s1 c cs
    proof (rule Suc.IH(2))
      from json_shorter(1) [OF that(1)] skip_ws_length [of s1] skip_ws_length [of cs] that(2) 2
      show "2 * length (skip_ws cs) + 1 < n" by simp
    qed
    then show ?case
      unfolding json_items.simps(2) [of "Suc n"] json_items.simps(2) [of n] v
      by (auto split: option.split list.split)
  next
    case 3
    have v: "json_value (Suc n) (skip_ws cs) = json_value n (skip_ws cs)"
      "json_value n (skip_ws cs) = Some (x, s2) \<Longrightarrow> skip_ws s2 = d # ds \<Longrightarrow>
         json_members (Suc n) (skip_ws ds) = json_members n (skip_ws ds)"
      if "s = q # qs" "json_string qs = Some (k, s1)" "skip_ws s1 = c # cs" for q qs k s1 c cs x s2 d ds
    proof -
      have l: "2 * length (skip_ws cs) < n"
        using json_string_shorter [OF that(2)] skip_ws_length [of s1] skip_ws_length [of cs] that 3 by simp
      then show "json_value (Suc n) (skip_ws cs) = json_value n (skip_ws cs)" by (rule Suc.IH)
      assume a: "json_value n (skip_ws cs) = Some (x, s2)" "skip_ws s2 = d # ds"
      from json_shorter(1) [OF a(1)] skip_ws_length [of s2] skip_ws_length [of ds] a(2) l
      show "json_members (Suc n) (skip_ws ds) = json_members n (skip_ws ds)" by (intro Suc.IH) simp
    qed
    then show ?case
      unfolding json_members.simps(2) [of "Suc n"] json_members.simps(2) [of n]
      by (auto split: option.split list.split)
  }
qed simp_all

text \<open>A larger counter changes nothing: the bound of \<open>json_parse\<close> is no bound on the text.\<close>

lemma json_fuel: "2 * length s < n \<Longrightarrow> json_value (n + k) s = json_value n s"
proof (induction k)
  case (Suc k)
  then have "json_value (Suc (n + k)) s = json_value (n + k) s" by (intro json_fuel_step) simp
  with Suc show ?case by (simp only: add_Suc_right)
qed simp

section \<open>The length of a decoded string\<close>

lemma encode_rune_length: "length (encode_rune r) \<le> 4"
  by (simp add: encode_rune_def)

lemma rune_len_le: "s = c # cs \<Longrightarrow> rune_len s \<le> length s"
  by (cases s rule: rune_len.cases) auto

lemma json_string_bound: "json_string s = Some (t, r) \<Longrightarrow> length t \<le> 3 * length s"
proof (induction s arbitrary: t r rule: length_induct)
  case (1 s)
  have IH: "length t' \<le> 3 * length y" if "json_string y = Some (t', r')" "length y < length s" for y t' r'
    using 1(1) that by blast
  have sub: "length t' + k \<le> n"
    if "json_string y = Some (t', r')" "length y \<le> m" "m < length s" "3 * m + k \<le> n" for y t' r' m k n
    using IH [of y t' r'] that by simp
  note step = 1(2) [unfolded json_string.simps [of s]]
  from step show ?case
  proof (cases s)
    case s: (Cons c cs)
    show ?thesis
    proof (cases "c = CHR 0x22 \<or> (of_char c :: int) < 0x20 \<or> c = CHR 0x5C")
      case True
      with step s show ?thesis
        apply (auto split: if_splits list.splits option.splits prod.splits dest!: hex4_length)
        subgoal for es p s1 t1
          using encode_rune_length [of "fst (unicode_escape p s1)"]
            sub [OF _ unicode_escape_length, of p s1 t1 r 4 "3 * length s1 + 4"] by simp
        subgoal for e es x t1 by (drule sub [OF _ order_refl, of _ _ _ 1 "3 * length es + 1"]; simp)
        done
    next
      case False
      show ?thesis
      proof (cases "ascii c")
        case True
        with False step s obtain t1 where "json_string cs = Some (t1, r)" "t = c # t1" by auto
        with IH [of cs t1 r] s show ?thesis by simp
      next
        case not_ascii: False
        define rune where "rune = (if rune_len s = 1 then encode_rune replacement_rune else take (rune_len s) s)"
        have "length rune \<le> 3 * rune_len s" by (auto simp: rune_def encode_rune_def replacement_rune_def)
        moreover from not_ascii False step s obtain t1
          where "json_string (drop (rune_len s) s) = Some (t1, r)" "t = rune @ t1"
          by (auto simp: Let_def rune_def)
        moreover have "rune_len s \<le> length s" using s rune_len_le by blast
        ultimately show ?thesis using IH [of "drop (rune_len s) s" t1 r] rune_len_pos [of s] s by simp
      qed
    qed
  qed simp
qed

lemma json_value_string_bound:
  assumes "json_value n s = Some (JString t, r)"
  shows "length t \<le> 3 * length s"
proof -
  obtain m c cs where n: "n = Suc m" "s = c # cs" using assms by (cases n; cases s) auto
  from assms have "json_string cs = Some (t, r)"
    unfolding n json_value.simps list.case
    by (auto split: list.splits if_splits option.splits simp del: prefix_rest.simps)
  then show ?thesis using json_string_bound [of cs t r] n by simp
qed

lemma json_members_bound:
  "json_members n s = Some (ms, r) \<Longrightarrow> (k, JString t) \<in> set ms \<Longrightarrow> length t \<le> 3 * length s"
proof (induction n arbitrary: s ms r)
  case (Suc n)
  from Suc.prems(1) obtain qs k1 s1 where q: "s = CHR 0x22 # qs" "json_string qs = Some (k1, s1)"
    by (auto split: list.splits if_splits option.splits)
  with Suc.prems(1) obtain cs v s2 where v: "skip_ws s1 = CHR '':'' # cs" "json_value n (skip_ws cs) = Some (v, s2)"
    by (auto split: list.splits if_splits option.splits)
  with Suc.prems(1) q obtain d ds where d: "skip_ws s2 = d # ds" by (auto split: list.splits)
  from Suc.prems(1) q v d consider "ms = [(k1, v)]"
    | ms' where "ms = (k1, v) # ms'" "json_members n (skip_ws ds) = Some (ms', r)"
    by (auto split: if_splits)
  note parts = this
  have len: "length (skip_ws cs) \<le> length s" "length (skip_ws ds) \<le> length s"
    using q(1) json_string_shorter [OF q(2)] skip_ws_length [of s1] v(1) skip_ws_length [of cs]
      json_shorter(1) [OF v(2)] skip_ws_length [of s2] d skip_ws_length [of ds] by simp_all
  have "v = JString t \<Longrightarrow> length t \<le> 3 * length (skip_ws cs)"
    using v(2) json_value_string_bound by blast
  with parts Suc.prems(2) Suc.IH [of "skip_ws ds" _ r] len show ?case by cases force+
qed simp

lemma json_parse_bound:
  assumes "json_parse s = Some (JObject ms, r)" "(k, JString t) \<in> set ms"
  shows "length t \<le> 3 * length s"
proof -
  obtain c cs where s: "skip_ws s = c # cs" using assms(1) by (cases "skip_ws s") (auto simp: json_parse_def)
  from assms have "json_members (2 * length s) (skip_ws cs) = Some (ms, r)"
    unfolding json_parse_def json_value.simps s list.case
    by (auto split: list.splits if_splits option.splits simp del: prefix_rest.simps)
  from json_members_bound [OF this assms(2)] skip_ws_length [of cs] skip_ws_length [of s] s show ?thesis by simp
qed

text \<open>What every field's store keeps, the decoded struct has.\<close>

lemma store_members_keep:
  assumes "store_members fs ms x = Some y" "P x"
    "\<And>k v f x y. (k, v) \<in> set ms \<Longrightarrow> f \<in> snd ` set fs \<Longrightarrow> P x \<Longrightarrow> f v x = Some y \<Longrightarrow> P y"
  shows "P y"
  using assms
proof (induction ms arbitrary: x)
  case (Cons m ms)
  obtain k v where m: "m = (k, v)" by force
  with Cons.prems(1) obtain f z where f: "struct_field fs k = Some f" "f v x = Some z" "store_members fs ms z = Some y"
    by (auto split: option.splits)
  from f(1) have "f \<in> snd ` set fs"
    by (auto simp: struct_field_def find_Some_iff split: option.splits)
      (metis image_eqI map_of_SomeD nth_mem snd_conv)+
  with Cons.prems(2,3) f(2) m have "P z" by (metis list.set_intros(1))
  with Cons.IH [OF f(3)] Cons.prems(3) show ?case by (metis list.set_intros(2))
qed simp

section \<open>Reading back an object of strings\<close>

text \<open>Characters that stand for themselves in a literal.\<close>

definition plain_char :: "char \<Rightarrow> bool" where
  "plain_char c \<longleftrightarrow> ascii c \<and> \<not> (of_char c :: int) < 0x20 \<and> c \<noteq> CHR 0x22 \<and> c \<noteq> CHR 0x5C"

definition json_quote :: "string \<Rightarrow> string" where
  "json_quote t = CHR 0x22 # t @ [CHR 0x22]"

fun object_members :: "(string \<times> string) list \<Rightarrow> string" where
  "object_members [] = []"
| "object_members ((k, v) # ms) =
     json_quote k @ CHR '':'' # json_quote v @ (if ms = [] then [] else CHR '','' # object_members ms)"

definition object_text :: "(string \<times> string) list \<Rightarrow> string" where
  "object_text ms = CHR ''{'' # object_members ms @ [CHR ''}'']"

abbreviation string_members :: "(string \<times> string) list \<Rightarrow> (string \<times> json) list" where
  "string_members ms \<equiv> map (\<lambda>(k, v). (k, JString v)) ms"

lemma json_string_plain: "list_all plain_char t \<Longrightarrow> json_string (t @ CHR 0x22 # r) = Some (t, r)"
proof (induction t)
  case Nil
  then show ?case by (simp add: json_string.simps)
next
  case (Cons c t)
  then show ?case by (subst json_string.simps) (simp add: plain_char_def)
qed

lemma skip_ws_stop [simp]: "\<not> json_space c \<Longrightarrow> skip_ws (c # s) = c # s"
  by (simp add: skip_ws_def)

lemma not_space [simp]:
  "\<not> json_space (CHR 0x22)" "\<not> json_space (CHR '':'')" "\<not> json_space (CHR '','')"
  "\<not> json_space (CHR ''{'')" "\<not> json_space (CHR ''}'')"
  by (simp_all add: json_space_def)

lemma object_members_start: "ms \<noteq> [] \<Longrightarrow> \<exists>s. object_members ms = CHR 0x22 # s"
  by (cases ms) (auto simp: json_quote_def)

lemma json_value_plain:
  "list_all plain_char v \<Longrightarrow> json_value (Suc n) (json_quote v @ r) = Some (JString v, r)"
  by (simp add: json_quote_def json_string_plain)

lemma json_members_plain:
  "ms \<noteq> [] \<Longrightarrow> list_all (\<lambda>(k, v). list_all plain_char k \<and> list_all plain_char v) ms \<Longrightarrow> length ms < n \<Longrightarrow>
     json_members n (object_members ms @ CHR ''}'' # r) = Some (string_members ms, r)"
proof (induction ms arbitrary: n)
  case (Cons m ms)
  obtain k v where m: "m = (k, v)" by force
  from Cons.prems(3) obtain n' where n: "n = Suc (Suc n')" by (cases n; cases "n - 1") auto
  have p: "list_all plain_char k" "list_all plain_char v" using Cons.prems(2) m by auto
  have key: "json_string (k @ CHR 0x22 # s) = Some (k, s)" for s using p(1) by (rule json_string_plain)
  have val: "json_value (Suc n') (CHR 0x22 # v @ CHR 0x22 # s) = Some (JString v, s)" for s
    using json_value_plain [OF p(2), of n' s] by (simp only: json_quote_def append_Cons append_assoc append_Nil)
  show ?case
  proof (cases "ms = []")
    case True
    then show ?thesis by (simp add: m n key val json_quote_def del: json_value.simps)
  next
    case False
    then obtain s where s: "object_members ms = CHR 0x22 # s" using object_members_start by blast
    have "json_members (Suc n') (object_members ms @ CHR ''}'' # r) = Some (string_members ms, r)"
      using Cons.prems False n by (intro Cons.IH) auto
    then show ?thesis
      by (simp add: m n key val json_quote_def False s del: json_value.simps json_members.simps(2) [of "Suc n'"]
          flip: s) (simp add: json_members.simps(2) [of "Suc n'"] key val s del: json_value.simps)
  qed
qed simp

end
