(* ===== verification/Auth_Frame.thy ===== *)
theory Auth_Frame
  imports Auth Ledger Contracts Transfer_Refine
begin

text \<open>
  Frame reasoning for the services of \<open>Auth\<close>: a predicate on databases that every SQL
  statement of a service keeps is kept by the service, faults, rollbacks and ambiguous commits
  included. Instances: the integrity of the tables and the history of the refresh tokens.
\<close>

section \<open>Predicates that statements keep\<close>

definition good_world :: "(database \<Rightarrow> bool) \<Rightarrow> 'z world_scheme \<Rightarrow> bool" where
  "good_world G w \<longleftrightarrow> G (w_db w) \<and> (\<forall>t. w_tx w = Some t \<longrightarrow> G (t_db t))"

definition keeps :: "(database \<Rightarrow> bool) \<Rightarrow> 'z world_scheme \<Rightarrow> 'z world_scheme \<Rightarrow> bool" where
  "keeps G w w' \<longleftrightarrow> (good_world G w \<longrightarrow> good_world G w')"

lemma keeps_refl_trans [inv_intros]: "reflp (keeps G)" "transp (keeps G)"
  by (auto simp: keeps_def reflp_def transp_def)

lemma keeps_sql:
  "(\<And>t a d. G (t_db t) \<Longrightarrow> stmt t = Inr (a, d) \<Longrightarrow> G d) \<Longrightarrow> stays (keeps G) (sql env stmt)"
  by (rule staysI) (auto simp: sql_def keeps_def good_world_def split: option.split sum.split prod.split)

lemma keeps_read [inv_intros]: "stays (keeps G) (sql env (\<lambda>t. Inr (q t, t_db t)))"
  by (rule keeps_sql) auto

lemma keeps_Commit [inv_intros]: "stays (keeps G) (Commit env)"
  by (rule staysI) (auto simp: Commit_def keeps_def good_world_def split: option.split commit_outcome.split)

lemma keeps_same_sql: "stays same_sql f \<Longrightarrow> stays (keeps G) f"
  by (auto simp: stays_def same_sql_def keeps_def good_world_def)

lemma keeps_same_stores: "stays same_stores f \<Longrightarrow> stays (keeps G) f"
  by (auto simp: stays_def same_stores_def keeps_def good_world_def)

lemma keeps_with_tx [inv_intros]:
  assumes "stays (keeps G) body"
  shows "stays (keeps G) (with_tx env wrap body)"
  using assms
  by (intro stays_with_tx) (auto simp: keeps_refl_trans keeps_def good_world_def NewTX_def split: option.split)

text \<open>A service starts and ends with no transaction open, so it keeps \<open>G\<close> of the committed tables.\<close>

lemma keeps_db:
  assumes "stays (keeps G) f" "G (w_db w)" "w_tx w = None"
  shows "G (w_db (snd (f w)))"
  using assms by (auto simp: stays_def keeps_def good_world_def)

lemma keeps_checkRateLimit [inv_intros]: "stays (keeps G) (checkRateLimit env cfg op i)"
  unfolding checkRateLimit_def by (intro inv_intros keeps_same_sql)

lemma keeps_tokens [inv_intros]:
  "stays (keeps G) (GenerateTokenPair env m u r)" "stays (keeps G) (ValidateRefreshToken env m t)"
  by (intro keeps_same_stores inv_intros)+

lemma keeps_gen_uuid [inv_intros]: "stays (keeps G) (gen_uuid env)"
  by (rule staysI) (simp add: gen_uuid_def new_uuid_def keeps_def good_world_def)

lemma keeps_hash [inv_intros]: "stays (keeps G) (hash_password env p)"
  by (rule staysI) (simp add: hash_password_def keeps_def good_world_def)

lemma keeps_select_row [inv_intros]: "stays (keeps G) (select_row env q scan)"
  unfolding select_row_def by (intro inv_intros)

lemma keeps_tick: "keeps G (tick w) v \<Longrightarrow> keeps G w v"
  unfolding keeps_def good_world_def tick_simps .

lemma keeps_clock [inv_intros]:
  fixes f :: "time \<Rightarrow> ('z, 'a) io"
  assumes "\<And>now. stays (keeps G) (f now)"
  shows "stays (keeps G) (\<lambda>w. case now_nano env w of (now, w1) \<Rightarrow> f now w1)"
proof (rule staysI)
  fix w :: "'z world_scheme"
  have "keeps G (tick w) (snd (f (e_clock env (w_tick w)) (tick w)))"
    by (rule assms [unfolded stays_def, rule_format])
  then have "keeps G w (snd (f (e_clock env (w_tick w)) (tick w)))" by (rule keeps_tick)
  then show "keeps G w (snd (case now_nano env w of (now, w1) \<Rightarrow> f now w1))"
    unfolding now_nano_def by simp
qed

text \<open>
  The services of \<open>Auth\<close> keep whatever their four writing statements keep: inserting an
  account, inserting a token, revoking tokens.
\<close>

definition auth_statements_keep :: "env \<Rightarrow> (database \<Rightarrow> bool) \<Rightarrow> bool" where
  "auth_statements_keep env G \<longleftrightarrow>
     (\<forall>t ac d. G (t_db t) \<longrightarrow> insert_account env ac t = Inr ((), d) \<longrightarrow> G d)
     \<and> (\<forall>t j u f e n d. G (t_db t) \<longrightarrow> insert_token j u f e t = Inr (n, d) \<longrightarrow> G d)
     \<and> (\<forall>t P n d. G (t_db t) \<longrightarrow> revoke_tokens P t = Inr (n, d) \<longrightarrow> G d)"

lemma auth_repositories_keep:
  assumes "auth_statements_keep env G"
  shows "stays (keeps G) (acc_Create env ac)" "stays (keeps G) (tok_SaveRefreshToken env j u f e)"
    "stays (keeps G) (tok_RevokeRefreshToken env j)" "stays (keeps G) (tok_RevokeAllUserTokens env u)"
    "stays (keeps G) (tok_RevokeTokenFamily env f)"
proof -
  note k = assms [unfolded auth_statements_keep_def]
  have ac: "G d" if "G (t_db t)" "insert_account env ac t = Inr (a, d)" for t ac a d
    using k [THEN conjunct1, rule_format, OF that(1)] that(2) by simp
  note tok = k [THEN conjunct2, THEN conjunct1, rule_format]
  note rev = k [THEN conjunct2, THEN conjunct2, rule_format]
  show "stays (keeps G) (acc_Create env ac)" "stays (keeps G) (tok_SaveRefreshToken env j u f e)"
    unfolding acc_Create_def tok_SaveRefreshToken_def
    by (intro inv_intros keeps_sql; (erule (1) ac | erule (1) tok))+
  show "stays (keeps G) (tok_RevokeRefreshToken env j)" "stays (keeps G) (tok_RevokeAllUserTokens env u)"
    "stays (keeps G) (tok_RevokeTokenFamily env f)"
    unfolding tok_RevokeRefreshToken_def tok_RevokeAllUserTokens_def tok_RevokeTokenFamily_def
    by (intro inv_intros keeps_sql; erule (1) rev)+
qed

lemma auth_services_keep:
  assumes "auth_statements_keep env G"
  shows "stays (keeps G) (Register env cfg email pw name ip)" "stays (keeps G) (Login env cfg m email pw ip)"
    "stays (keeps G) (Refresh env cfg m t ip)" "stays (keeps G) (Logout env cfg m t ip)"
    "stays (keeps G) (LogoutAll env u)"
proof -
  note repo = auth_repositories_keep [OF assms]
  have reuse: "stays (keeps G) (revokeFamilyAfterReuse env f)" for f
    unfolding revokeFamilyAfterReuse_def by (intro inv_intros repo)
  show "stays (keeps G) (Register env cfg email pw name ip)"
    unfolding Register_def Let_def
    by (cases "validateRegistration (normalizeEmail env email) pw (TrimSpace name)") (auto intro!: inv_intros repo)
  show "stays (keeps G) (Login env cfg m email pw ip)"
    unfolding Login_def Let_def loadAccountForLogin_def saveRefreshSession_def acc_GetByEmail_def
    by (intro inv_intros repo)
  show "stays (keeps G) (Refresh env cfg m t ip)"
    unfolding Refresh_def refreshBody_def tok_GetRefreshToken_def acc_GetById_def
    by (intro inv_intros repo reuse)
  show "stays (keeps G) (Logout env cfg m t ip)"
    unfolding Logout_def logoutBody_def tok_GetRefreshToken_def by (intro inv_intros repo)
  show "stays (keeps G) (LogoutAll env u)"
    unfolding LogoutAll_def by (intro inv_intros repo)
qed

section \<open>The integrity of the tables\<close>

lemma db_inv_frame:
  assumes "db_inv d" "accounts_ok d'" "tokens_ok d'" "transactions d' = transactions d"
    "idempotency d' = idempotency d" "\<And>i. account_exists d i \<Longrightarrow> account_exists d' i"
  shows "db_inv d'"
proof -
  have "idem_row_ok d' r" if "idem_row_ok d r" for r
    using that assms(4,6) by (auto simp: idem_row_ok_def split: option.splits)
  with assms show ?thesis by (simp add: db_inv_def transactions_ok_def tx_row_ok_def idempotency_ok_def)
qed

lemma insert_account_inv:
  assumes "db_inv d" "insert_account env ac t = Inr ((), d')" "t_db t = d"
  shows "db_inv d'"
proof -
  from assms obtain b where b: "numeric_36_18 (dec_rat (ac_Balance ac)) = Inr b" "0 \<le> b"
    and fresh: "\<forall>r\<in>set (accounts d). ar_id r \<noteq> ac_ID ac \<and> ar_email r \<noteq> ac_Email ac"
    and d': "d' = d\<lparr>accounts := accounts d @ [\<lparr>ar_id = ac_ID ac, ar_name = ac_Name ac, ar_email = ac_Email ac,
      ar_password_hash = ac_PasswordHash ac, ar_role = ac_Role ac, ar_balance = b\<rparr>]\<rparr>"
    by (auto simp: insert_account_def Let_def split: sum.splits if_splits)
  have ex: "account_exists d i \<Longrightarrow> account_exists d' i" for i
    by (auto simp: account_exists_def d')
  have "accounts_ok d'"
    using assms(1) b fresh numeric_storable [OF b(1)] by (auto simp: db_inv_def accounts_ok_def d')
  moreover have "tokens_ok d'" using assms(1) ex by (auto simp: db_inv_def tokens_ok_def d')
  ultimately show ?thesis using ex by (intro db_inv_frame [OF assms(1)]) (simp_all add: d')
qed

lemma insert_token_inv:
  assumes "db_inv d" "insert_token j u f e t = Inr (n, d')" "t_db t = d"
  shows "db_inv d'"
proof -
  from assms have d': "d' = d\<lparr>tokens := tokens d @ [\<lparr>rt_jti = j, rt_user = u, rt_family = f,
      rt_revoked = False, rt_expires_at = pg_time e, rt_created_at = t_now t\<rparr>]\<rparr>"
    and j: "\<forall>r\<in>set (tokens d). rt_jti r \<noteq> j" and u: "account_exists d u"
    by (auto simp: insert_token_def Let_def split: if_splits)
  have ex: "account_exists d' i = account_exists d i" for i by (simp add: account_exists_def d')
  have "accounts_ok d'" "tokens_ok d'"
    using assms(1) j u ex by (auto simp: db_inv_def accounts_ok_def tokens_ok_def d')
  then show ?thesis using ex by (intro db_inv_frame [OF assms(1)]) (simp_all add: d')
qed

text \<open>Revoking changes the flag of the matching rows and nothing else.\<close>

definition revoke :: "(token_row \<Rightarrow> bool) \<Rightarrow> database \<Rightarrow> database" where
  "revoke P d = d\<lparr>tokens := map (\<lambda>r. if P r then r\<lparr>rt_revoked := True\<rparr> else r) (tokens d)\<rparr>"

lemma revoke_statement:
  "revoke_tokens P t = Inr (length (filter (\<lambda>r. P r \<and> \<not> rt_revoked r) (tokens (t_db t))), revoke P (t_db t))"
proof -
  have "(\<lambda>r. if P r \<and> \<not> rt_revoked r then r\<lparr>rt_revoked := True\<rparr> else r)
      = (\<lambda>r. if P r then r\<lparr>rt_revoked := True\<rparr> else r)"
    by (rule ext) (rename_tac r, case_tac r, auto)
  then show ?thesis by (simp add: revoke_tokens_def update_rows_total revoke_def)
qed

lemma revoke_tables [simp]:
  "accounts (revoke P d) = accounts d" "transactions (revoke P d) = transactions d"
  "idempotency (revoke P d) = idempotency d" "account_exists (revoke P d) i = account_exists d i"
  by (simp_all add: revoke_def account_exists_def)

lemma revoke_inv: "db_inv d \<Longrightarrow> db_inv (revoke P d)"
proof -
  assume i: "db_inv d"
  have "map rt_jti (tokens (revoke P d)) = map rt_jti (tokens d)" by (simp add: revoke_def)
  then have "tokens_ok (revoke P d)"
    using i by (auto simp: db_inv_def tokens_ok_def) (auto simp: revoke_def)
  moreover have "accounts_ok (revoke P d)" using i by (simp add: db_inv_def accounts_ok_def)
  ultimately show ?thesis by (intro db_inv_frame [OF i]) simp_all
qed

lemma auth_keeps_inv: "auth_statements_keep env db_inv"
  unfolding auth_statements_keep_def
proof (intro conjI allI impI)
  fix t ac d assume "db_inv (t_db t)" "insert_account env ac t = Inr ((), d)"
  then show "db_inv d" by (rule insert_account_inv) (rule refl)
next
  fix t j u f e n d assume "db_inv (t_db t)" "insert_token j u f e t = Inr (n, d)"
  then show "db_inv d" by (rule insert_token_inv) (rule refl)
next
  fix t P n d assume "db_inv (t_db t)" "revoke_tokens P t = Inr (n, d)"
  then show "db_inv d" by (simp add: revoke_statement) (metis revoke_inv)
qed

end
