(* ===== verification/Session_Spec.thy ===== *)
theory Session_Spec
  imports Auth_Frame Read_Services
begin

text \<open>
  Refresh sessions as an abstract machine: the events that register an account, open, rotate
  and close sessions, when each may happen and what it does to the tables. The invariants are
  proved once, on the events; \<open>Session_Refine\<close> shows that every run of every service of
  \<open>auth.go\<close> is one event.
\<close>

section \<open>Events\<close>

datatype session_event =
    Unchanged
  | Registered account_row
  | Opened token_row
  | Rotated string token_row    \<comment> \<open>the id that was presented, the row that replaces it\<close>
  | Closed string
  | ClosedFamily uuid
  | ClosedUser uuid

definition token_of :: "database \<Rightarrow> string \<Rightarrow> token_row option" where
  "token_of d jti = find_row (\<lambda>r. rt_jti r = jti) (tokens d)"

definition add_token :: "token_row \<Rightarrow> database \<Rightarrow> database" where
  "add_token r d = d\<lparr>tokens := tokens d @ [r]\<rparr>"

fun apply_event :: "session_event \<Rightarrow> database \<Rightarrow> database" where
  "apply_event Unchanged d = d"
| "apply_event (Registered a) d = d\<lparr>accounts := accounts d @ [a]\<rparr>"
| "apply_event (Opened r) d = add_token r d"
| "apply_event (Rotated jti r) d = add_token r (revoke (\<lambda>x. rt_jti x = jti) d)"
| "apply_event (Closed jti) d = revoke (\<lambda>x. rt_jti x = jti) d"
| "apply_event (ClosedFamily f) d = revoke (\<lambda>x. rt_family x = f) d"
| "apply_event (ClosedUser u) d = revoke (\<lambda>x. rt_user x = u) d"

text \<open>An active session: not revoked. Its expiry is looked at when it is presented.\<close>

fun enabled :: "session_event \<Rightarrow> database \<Rightarrow> bool" where
  "enabled (Registered a) d \<longleftrightarrow> ar_balance a = 0 \<and> ar_role a = RoleUser
     \<and> (\<forall>r\<in>set (accounts d). ar_id r \<noteq> ar_id a \<and> ar_email r \<noteq> ar_email a)"
| "enabled (Opened r) d \<longleftrightarrow> \<not> rt_revoked r \<and> account_exists d (rt_user r)
     \<and> token_of d (rt_jti r) = None"
| "enabled (Rotated jti r) d \<longleftrightarrow> \<not> rt_revoked r \<and> account_exists d (rt_user r)
     \<and> token_of d (rt_jti r) = None
     \<and> (\<exists>s. token_of d jti = Some s \<and> \<not> rt_revoked s \<and> rt_user s = rt_user r \<and> rt_family s = rt_family r)"
| "enabled (Closed jti) d \<longleftrightarrow> (\<exists>s. token_of d jti = Some s \<and> \<not> rt_revoked s)"
| "enabled (ClosedFamily f) d \<longleftrightarrow> (\<exists>s\<in>set (tokens d). rt_family s = f \<and> rt_revoked s)"
| "enabled _ d = True"

text \<open>A session that \<open>Login\<close> opens starts a family of its own when its fresh id is new.\<close>

definition fresh_family :: "session_event \<Rightarrow> database \<Rightarrow> bool" where
  "fresh_family ev d \<longleftrightarrow> (\<forall>r. ev = Opened r \<longrightarrow> rt_family r \<notin> rt_family ` set (tokens d))"

lemma add_token_tables [simp]:
  "accounts (add_token r d) = accounts d" "transactions (add_token r d) = transactions d"
  "idempotency (add_token r d) = idempotency d" "account_exists (add_token r d) i = account_exists d i"
  "tokens (add_token r d) = tokens d @ [r]"
  by (simp_all add: add_token_def account_exists_def)

lemma token_of_None: "token_of d jti = None \<longleftrightarrow> jti \<notin> rt_jti ` set (tokens d)"
  by (auto simp: token_of_def find_row_None)

lemma token_of_Some: "token_of d jti = Some r \<Longrightarrow> r \<in> set (tokens d) \<and> rt_jti r = jti"
  by (auto simp: token_of_def dest: find_row_Some)

section \<open>The history of the sessions\<close>

text \<open>
  \<open>evolves\<close>: the rows of a table stay, in order, with their ids, users, families and expiries;
  a row may only become revoked; new rows come after them.
\<close>

definition close_row :: "token_row \<Rightarrow> token_row" where
  "close_row r = r\<lparr>rt_revoked := True\<rparr>"

lemma close_row_simps [simp]:
  "rt_jti (close_row r) = rt_jti r" "rt_user (close_row r) = rt_user r"
  "rt_family (close_row r) = rt_family r" "rt_revoked (close_row r)"
  "rt_expires_at (close_row r) = rt_expires_at r" "close_row (close_row r) = close_row r"
  by (simp_all add: close_row_def)

lemma close_row_revoked [simp]: "rt_revoked r \<Longrightarrow> close_row r = r"
  by (cases r) (simp add: close_row_def)

definition same_session :: "token_row \<Rightarrow> token_row \<Rightarrow> bool" where
  "same_session r r' \<longleftrightarrow> r' = r \<or> r' = close_row r"

definition evolves :: "token_row list \<Rightarrow> token_row list \<Rightarrow> bool" where
  "evolves ts ts' \<longleftrightarrow> (\<exists>us new. ts' = us @ new \<and> list_all2 same_session ts us)"

lemma same_session_trans: "same_session r s \<Longrightarrow> same_session s t \<Longrightarrow> same_session r t"
  by (auto simp: same_session_def)

lemma evolves_refl [simp]: "evolves ts ts"
  unfolding evolves_def by (rule exI [of _ ts]) (simp add: list.rel_refl same_session_def)

lemma evolves_app [simp]: "evolves ts (ts @ new)"
  unfolding evolves_def by (rule exI [of _ ts]) (simp add: list.rel_refl same_session_def)

lemma evolves_trans:
  assumes "evolves ts us" "evolves us vs"
  shows "evolves ts vs"
proof -
  from assms obtain a new b new' where a: "us = a @ new" "list_all2 same_session ts a"
    and b: "vs = b @ new'" "list_all2 same_session us b" by (auto simp: evolves_def)
  from b(2) a(1) obtain b1 b2 where b12: "b = b1 @ b2" "list_all2 same_session a b1"
    by (auto simp: list_all2_append1)
  from a(2) b12(2) have "list_all2 same_session ts b1"
    by (rule list_all2_trans [rotated]) (rule same_session_trans)
  with b12(1) b(1) show ?thesis by (auto simp: evolves_def)
qed

lemma revoke_rows: "tokens (revoke P d) = map (\<lambda>r. if P r then close_row r else r) (tokens d)"
  by (simp add: revoke_def close_row_def)

lemma evolves_revoke: "evolves (tokens d) (tokens (revoke P d))"
proof -
  have "list_all2 same_session (tokens d) (tokens (revoke P d))"
    by (auto simp: revoke_rows list_all2_map2 same_session_def intro: list.rel_refl_strong)
  then show ?thesis unfolding evolves_def by (metis append_Nil2)
qed

lemma evolves_event: "evolves (tokens d) (tokens (apply_event ev d))"
proof (cases ev)
  case (Rotated jti r)
  have "evolves (tokens d) (tokens (revoke (\<lambda>x. rt_jti x = jti) d) @ [r])"
    using evolves_revoke evolves_app by (rule evolves_trans)
  with Rotated show ?thesis by simp
qed (simp_all add: evolves_revoke)

lemma token_of_revoke:
  "token_of (revoke P d) jti = map_option (\<lambda>r. if P r then close_row r else r) (token_of d jti)"
  unfolding token_of_def revoke_rows by (rule find_map_row) simp

lemma token_of_add: "token_of d jti = Some r \<Longrightarrow> token_of (add_token x d) jti = Some r"
  by (simp add: token_of_def find_row_app_Some)

text \<open>What a client may rely on: a closed session stays closed, an open one keeps its identity.\<close>

lemma evolves_token:
  assumes "evolves (tokens d) (tokens d')" "token_of d jti = Some r"
  obtains r' where "token_of d' jti = Some r'" "same_session r r'"
proof -
  from assms(1) obtain us new where us: "tokens d' = us @ new" "list_all2 same_session (tokens d) us"
    by (auto simp: evolves_def)
  have "list_all2 same_session ts us \<Longrightarrow> find_row (\<lambda>r. rt_jti r = jti) ts = Some r \<Longrightarrow>
      \<exists>r'. find_row (\<lambda>r. rt_jti r = jti) us = Some r' \<and> same_session r r'" for ts us
    by (induction ts us rule: list_all2_induct) (auto simp: find_row_def same_session_def split: if_splits)
  from this [OF us(2) assms(2) [unfolded token_of_def]] obtain r' where
    "find_row (\<lambda>r. rt_jti r = jti) us = Some r'" "same_session r r'" by blast
  with that us(1) show ?thesis by (auto simp: token_of_def find_row_app_Some)
qed

section \<open>One open session per family\<close>

definition active_in :: "database \<Rightarrow> uuid \<Rightarrow> token_row list" where
  "active_in d f = filter (\<lambda>r. rt_family r = f \<and> \<not> rt_revoked r) (tokens d)"

definition families_ok :: "database \<Rightarrow> bool" where
  "families_ok d \<longleftrightarrow> (\<forall>f. length (active_in d f) \<le> 1)"

lemma active_in_add: "active_in (add_token r d) f = active_in d f
    @ (if rt_family r = f \<and> \<not> rt_revoked r then [r] else [])"
  by (simp add: active_in_def)

lemma active_in_revoke: "active_in (revoke P d) f = filter (\<lambda>r. \<not> P r) (active_in d f)"
proof -
  have "filter (\<lambda>r. rt_family r = f \<and> \<not> rt_revoked r) (map (\<lambda>r. if P r then close_row r else r) ts)
      = filter (\<lambda>r. \<not> P r) (filter (\<lambda>r. rt_family r = f \<and> \<not> rt_revoked r) ts)" for ts
    by (induction ts) auto
  then show ?thesis by (simp add: active_in_def revoke_rows)
qed

lemma families_revoke: "families_ok d \<Longrightarrow> families_ok (revoke P d)"
  unfolding families_ok_def active_in_revoke by (meson length_filter_le order_trans)

lemma families_event:
  assumes "families_ok d" "enabled ev d" "fresh_family ev d"
  shows "families_ok (apply_event ev d)"
proof (cases ev)
  case (Registered a)
  with assms show ?thesis by (simp add: families_ok_def active_in_def)
next
  case (Opened r)
  with assms(3) have "\<forall>s\<in>set (tokens d). rt_family s \<noteq> rt_family r"
    by (simp add: fresh_family_def image_iff) metis
  then have "active_in d (rt_family r) = []" by (simp add: active_in_def filter_empty_conv)
  with assms(1) Opened show ?thesis by (auto simp: families_ok_def active_in_add)
next
  case (Rotated jti r)
  from assms(2) Rotated obtain s where s: "token_of d jti = Some s" "\<not> rt_revoked s" "rt_family s = rt_family r"
    by auto
  then have "s \<in> set (active_in d (rt_family r))" "rt_jti s = jti"
    using token_of_Some [of d jti s] by (auto simp: active_in_def)
  moreover have "length (active_in d (rt_family r)) \<le> 1" using assms(1) by (simp add: families_ok_def)
  ultimately have "active_in d (rt_family r) = [s]"
    by (cases "active_in d (rt_family r)") auto
  then have "active_in (revoke (\<lambda>x. rt_jti x = jti) d) (rt_family r) = []"
    using \<open>rt_jti s = jti\<close> by (simp add: active_in_revoke)
  with families_revoke [OF assms(1), of "\<lambda>x. rt_jti x = jti"] Rotated show ?thesis
    by (auto simp: families_ok_def active_in_add)
qed (use assms(1) in \<open>simp_all add: families_revoke\<close>)

section \<open>The integrity of the tables\<close>

lemma storable_zero: "storable 0"
  by (simp add: storable_iff)

lemma add_token_inv:
  assumes "db_inv d" "account_exists d (rt_user r)" "token_of d (rt_jti r) = None"
  shows "db_inv (add_token r d)"
proof (rule db_inv_frame [OF assms(1)])
  show "accounts_ok (add_token r d)" using assms(1) by (simp add: db_inv_def accounts_ok_def)
  show "tokens_ok (add_token r d)"
    using assms by (auto simp: db_inv_def tokens_ok_def token_of_None)
qed simp_all

lemma token_of_revoke_None: "token_of (revoke P d) jti = None \<longleftrightarrow> token_of d jti = None"
proof -
  have "rt_jti ` set (tokens (revoke P d)) = rt_jti ` set (tokens d)"
    unfolding revoke_rows list.set_map image_image by (rule image_cong) simp_all
  then show ?thesis by (simp add: token_of_None)
qed

lemma event_inv:
  assumes "db_inv d" "enabled ev d"
  shows "db_inv (apply_event ev d)"
proof (cases ev)
  case (Registered a)
  have ex: "account_exists d i \<Longrightarrow> account_exists (d\<lparr>accounts := accounts d @ [a]\<rparr>) i" for i
    by (auto simp: account_exists_def)
  have "db_inv (d\<lparr>accounts := accounts d @ [a]\<rparr>)"
  proof (rule db_inv_frame [OF assms(1)])
    show "accounts_ok (d\<lparr>accounts := accounts d @ [a]\<rparr>)"
      using assms Registered storable_zero by (auto simp: db_inv_def accounts_ok_def)
    show "tokens_ok (d\<lparr>accounts := accounts d @ [a]\<rparr>)"
      using assms(1) ex by (simp add: db_inv_def tokens_ok_def)
  qed (use ex in simp_all)
  with Registered show ?thesis by simp
next
  case (Opened r)
  with assms show ?thesis by (simp add: add_token_inv)
next
  case (Rotated jti r)
  with assms revoke_inv [OF assms(1)] show ?thesis
    by (auto simp: token_of_revoke_None intro!: add_token_inv)
qed (use assms(1) revoke_inv in simp_all)

end
