(* ===== verification/Session_Refine.thy ===== *)
theory Session_Refine
  imports Session_Spec
begin

text \<open>
  Every run of a service of \<open>auth.go\<close>, whatever the environment does, is one event of
  \<open>Session_Spec\<close>. \<open>ends d d1 body Q\<close>: started in an open transaction whose working copy is
  \<open>d1\<close> while \<open>d\<close> is committed, the body leaves the committed tables as one event does that
  \<open>Q\<close> allows for its reply. Its rules follow the statements of a body; \<open>serves\<close> is the same
  outside a transaction. A commit whose outcome is unknown to the client may have happened:
  each outcome comes with the error and the event together.
\<close>

section \<open>Following a body\<close>

type_synonym 'a outcome = "(error, 'a) result \<Rightarrow> session_event \<Rightarrow> bool"

definition ends :: "database \<Rightarrow> database \<Rightarrow> ('z, 'a) io \<Rightarrow> 'a outcome \<Rightarrow> bool" where
  "ends d d1 body Q \<longleftrightarrow> (\<forall>w now r w'. w_db w = d \<longrightarrow> on_tx w d1 now \<longrightarrow> body w = (r, w') \<longrightarrow>
     (\<exists>ev. enabled ev d \<and> w_db w' = apply_event ev d \<and> Q r ev))"

definition serves :: "database \<Rightarrow> ('z, 'a) io \<Rightarrow> 'a outcome \<Rightarrow> bool" where
  "serves d f Q \<longleftrightarrow> (\<forall>w r w'. w_db w = d \<longrightarrow> f w = (r, w') \<longrightarrow>
     (\<exists>ev. enabled ev d \<and> w_db w' = apply_event ev d \<and> Q r ev))"

text \<open>\<open>P x d2\<close>: what is known when \<open>f\<close> has answered \<open>x\<close> with the working copy \<open>d2\<close>.\<close>

definition does :: "('z, 'a) io \<Rightarrow> database \<Rightarrow> ('a \<Rightarrow> database \<Rightarrow> bool) \<Rightarrow> bool" where
  "does f d1 P \<longleftrightarrow> stays same_db f \<and> (\<forall>w now x w'. on_tx w d1 now \<longrightarrow> f w = (Inr x, w') \<longrightarrow>
     (\<exists>d2. on_tx w' d2 now \<and> P x d2))"

definition refusable :: "'a outcome \<Rightarrow> bool" where
  "refusable Q \<longleftrightarrow> (\<forall>e. Q (Inl e) Unchanged)"

lemma ends_fail: "refusable Q \<Longrightarrow> ends d d1 (failE e) Q"
  unfolding ends_def refusable_def by (auto intro!: exI [of _ Unchanged])

lemma serves_fail: "refusable Q \<Longrightarrow> serves d (failE e) Q"
  unfolding serves_def refusable_def by (auto intro!: exI [of _ Unchanged])

lemma ends_bind:
  fixes f :: "('z, 'b) io"
  assumes "refusable Q" "does f d1 P" "\<And>x d2. P x d2 \<Longrightarrow> ends d d2 (g x) Q"
  shows "ends d d1 (bindE f g) Q"
  unfolding ends_def
proof (intro allI impI)
  fix w :: "'z world_scheme" and now r w'
  assume w: "w_db w = d" "on_tx w d1 now" "bindE f g w = (r, w')"
  obtain q w1 where f: "f w = (q, w1)" by force
  have d1: "w_db w1 = d" using assms(2) w(1) staysD [of same_db f w q w1] f by (simp add: does_def same_db_def)
  show "\<exists>ev. enabled ev d \<and> w_db w' = apply_event ev d \<and> Q r ev"
  proof (cases q)
    case (Inl e)
    with f w(3) d1 assms(1) show ?thesis by (auto simp: refusable_def intro!: exI [of _ Unchanged])
  next
    case (Inr x)
    with assms(2) f w(2) obtain d2 where d2: "on_tx w1 d2 now" "P x d2"
      unfolding does_def by blast
    from w(3) f Inr have "g x w1 = (r, w')" by simp
    with assms(3) [OF d2(2)] d1 d2(1) show ?thesis unfolding ends_def by blast
  qed
qed

lemma ends_clock:
  fixes f :: "time \<Rightarrow> ('z, 'a) io"
  assumes "\<And>n. ends d d1 (f (e_clock env n)) Q"
  shows "ends d d1 (\<lambda>w. case now_nano env w of (t, w1) \<Rightarrow> f t w1) Q"
  unfolding ends_def
proof (intro allI impI)
  fix w :: "'z world_scheme" and now r w'
  assume w: "w_db w = d" "on_tx w d1 now" "(case now_nano env w of (t, w1) \<Rightarrow> f t w1) = (r, w')"
  then have "f (e_clock env (w_tick w)) (tick w) = (r, w')" "on_tx (tick w) d1 now" "w_db (tick w) = d"
    by (simp_all add: now_nano_def on_tx_def)
  with assms [of "w_tick w"] show "\<exists>ev. enabled ev d \<and> w_db w' = apply_event ev d \<and> Q r ev"
    unfolding ends_def by blast
qed

text \<open>The commit: the working copy is what the event leaves.\<close>

lemma ends_commit:
  fixes k :: "('z, 'a) io"
  assumes "refusable Q" "enabled ev d" "d1 = apply_event ev d" "\<And>e. Q (Inl e) ev"
    "stays same_db k" "\<And>w. Q (fst (k w)) ev"
  shows "ends d d1 (bindE (mapErr m (Commit env)) (\<lambda>_. k)) Q"
  unfolding ends_def
proof (intro allI impI)
  fix w :: "'z world_scheme" and now r w'
  assume w: "w_db w = d" "on_tx w d1 now" "bindE (mapErr m (Commit env)) (\<lambda>_. k) w = (r, w')"
  obtain c w1 where c: "Commit env w = (c, w1)" by force
  from Commit_cases [OF c w(2)] consider
      "w_db w1 = d1" "c = Inr ()" | e where "w_db w1 = d1" "c = Inl e" | e where "w_db w1 = d" "c = Inl e"
    using w(1) by auto
  then show "\<exists>ev. enabled ev d \<and> w_db w' = apply_event ev d \<and> Q r ev"
  proof cases
    case 1
    with c w(3) have k: "k w1 = (r, w')" by (simp add: bindE_def mapErr_def)
    then have "w_db w' = d1" using assms(5) 1(1) staysD [of same_db k w1 r w'] by (simp add: same_db_def)
    with assms(2,3) assms(6) [of w1] k show ?thesis by auto
  next
    case 2
    with c w(3) have "w' = w1" "r = Inl (m e)" by (simp_all add: bindE_def mapErr_def)
    with 2(1) assms(2-4) show ?thesis by auto
  next
    case 3
    with c w(3) assms(1) show ?thesis
      by (auto simp: bindE_def mapErr_def refusable_def intro!: exI [of _ Unchanged])
  qed
qed

lemma ends_commit_last:
  assumes "refusable Q" "enabled ev d" "d1 = apply_event ev d" "\<And>e. Q (Inl e) ev" "Q (Inr ()) ev"
  shows "ends d d1 (mapErr m (Commit env) :: ('z, unit) io) Q"
proof -
  have eq: "(mapErr m (Commit env) :: ('z, unit) io) = bindE (mapErr m (Commit env)) (\<lambda>_. returnE ())"
    by (rule ext) (auto simp: bindE_def mapErr_def split: prod.split sum.split)
  have "ends d d1 (bindE (mapErr m (Commit env)) (\<lambda>_. returnE ()) :: ('z, unit) io) Q"
    using assms by (intro ends_commit) (auto simp: inv_intros)
  then show ?thesis by (subst eq)
qed

lemma serves_bind:
  fixes f :: "('z, 'b) io"
  assumes "refusable Q" "stays same_db f" "\<And>w x w'. w_db w = d \<Longrightarrow> f w = (Inr x, w') \<Longrightarrow> serves d (g x) Q"
  shows "serves d (bindE f g) Q"
  unfolding serves_def
proof (intro allI impI)
  fix w :: "'z world_scheme" and r w'
  assume w: "w_db w = d" "bindE f g w = (r, w')"
  obtain q w1 where f: "f w = (q, w1)" by force
  have d1: "w_db w1 = d" using assms(2) w(1) staysD [of same_db f w q w1] f by (simp add: same_db_def)
  show "\<exists>ev. enabled ev d \<and> w_db w' = apply_event ev d \<and> Q r ev"
  proof (cases q)
    case (Inl e)
    with f w(2) d1 assms(1) show ?thesis by (auto simp: refusable_def intro!: exI [of _ Unchanged])
  next
    case (Inr x)
    with w(2) f have "g x w1 = (r, w')" by simp
    with assms(3) [OF w(1) f [unfolded Inr]] d1 show ?thesis unfolding serves_def by blast
  qed
qed

lemma serves_tx:
  fixes body :: "('z, 'a) io"
  assumes "refusable Q" "ends d d body Q"
  shows "serves d (with_tx env wrap body) Q"
  unfolding serves_def
proof (intro allI impI)
  fix w :: "'z world_scheme" and r w'
  assume w: "w_db w = d" "with_tx env wrap body w = (r, w')"
  obtain q w1 where n: "NewTX env w = (q, w1)" by force
  show "\<exists>ev. enabled ev d \<and> w_db w' = apply_event ev d \<and> Q r ev"
  proof (cases q)
    case (Inl e)
    with n w staysD [OF stays_NewTX(1) n] assms(1) show ?thesis
      by (auto simp: with_tx_def refusable_def same_db_def intro!: exI [of _ Unchanged])
  next
    case (Inr u)
    obtain p w2 where b: "body w1 = (p, w2)" by force
    with n Inr w(2) have "r = p" "w_db w' = w_db w2" by (auto simp: with_tx_def)
    with assms(2) NewTX_on [OF n [unfolded Inr]] b w(1) show ?thesis unfolding ends_def by metis
  qed
qed

text \<open>A service whose transaction is all it does to the tables ends without one or with an error.\<close>

lemma serves_quiet:
  assumes "stays same_db f" "\<And>w. Q (fst (f w)) Unchanged"
  shows "serves d f Q"
  unfolding serves_def
proof (intro allI impI)
  fix w r w'
  assume "w_db w = d" "f w = (r, w')"
  then show "\<exists>ev. enabled ev d \<and> w_db w' = apply_event ev d \<and> Q r ev"
    using assms(2) [of w] staysD [OF assms(1)] by (auto simp: same_db_def intro!: exI [of _ Unchanged])
qed

section \<open>What the statements do\<close>

lemma does_mapErr: "does f d1 P \<Longrightarrow> does (mapErr m f) d1 P"
  by (auto simp: does_def stays_mapErr)

lemma does_weaken: "does f d1 P \<Longrightarrow> (\<And>x d2. P x d2 \<Longrightarrow> P' x d2) \<Longrightarrow> does f d1 P'"
  unfolding does_def by blast

lemma does_same_sql:
  assumes "stays same_sql f"
  shows "does f d1 (\<lambda>x d2. d2 = d1)"
  using assms staysD [OF assms] on_tx_same_sql by (fastforce simp: does_def same_sql_db)

lemma same_stores_sql: "stays same_stores f \<Longrightarrow> stays same_sql f"
  by (auto simp: stays_def same_stores_def same_sql_def)

lemma does_select:
  assumes "\<And>x a. q d1 = Some x \<Longrightarrow> scan x = Inr a \<Longrightarrow> P a d1"
  shows "does (select_row env q scan) d1 P"
  unfolding does_def
proof (intro conjI allI impI)
  show "stays same_db (select_row env q scan)" unfolding select_row_def by (intro inv_intros)
next
  fix w now a w'
  assume on: "on_tx w d1 now" and s: "select_row env q scan w = (Inr a, w')"
  from s obtain x w1 where w1: "sql env (\<lambda>t. Inr (q (t_db t), t_db t)) w = (Inr (Some x), w1)"
    "scan x = Inr a" "w' = w1"
    by (auto simp: select_row_def liftR_def elim!: bindE_InrE split: option.splits)
  from w1(1) on obtain d2 where "Inr (q d1, d1) = Inr (Some x, d2)" "on_tx w1 d2 now"
    by (rule sql_on) simp
  with assms [of x a] w1 show "\<exists>d2. on_tx w' d2 now \<and> P a d2" by auto
qed

lemma does_sql:
  assumes "\<And>now x d2. stmt \<lparr>t_db = d1, t_now = now, t_aborted = False\<rparr> = Inr (x, d2) \<Longrightarrow> P x d2"
  shows "does (sql env stmt) d1 P"
  unfolding does_def by (intro conjI allI impI stays_sql) (metis assms sql_on)

text \<open>A check of the row count after a statement.\<close>

lemma does_check:
  assumes "does f d1 P" "\<And>x d2. P x d2 \<Longrightarrow> \<not> bad x \<Longrightarrow> P' () d2"
  shows "does (bindE f (\<lambda>x. if bad x then failE e else returnE ())) d1 P'"
  unfolding does_def
proof (intro conjI allI impI)
  show "stays same_db (bindE f (\<lambda>x. if bad x then failE e else returnE ()))"
    using assms(1) by (intro inv_intros) (simp add: does_def)
next
  fix w now x w'
  assume on: "on_tx w d1 now" and s: "bindE f (\<lambda>x. if bad x then failE e else returnE ()) w = (Inr x, w')"
  from s obtain y where "f w = (Inr y, w')" "\<not> bad y" by (auto elim!: bindE_InrE split: if_splits)
  with assms on show "\<exists>d2. on_tx w' d2 now \<and> P' x d2" unfolding does_def by (metis old.unit.exhaust)
qed

lemma does_then:
  "does f d1 P \<Longrightarrow> (\<And>x d2. P x d2 \<Longrightarrow> P' () d2) \<Longrightarrow> does (bindE f (\<lambda>_. returnE ())) d1 P'"
  using does_check [of f d1 P "\<lambda>_. False" P'] by simp

section \<open>The token and account repositories\<close>

lemma does_GetRefreshToken: "does (tok_GetRefreshToken env jti) d1
    (\<lambda>s d2. d2 = d1 \<and> (\<exists>r. token_of d1 jti = Some r \<and> s = \<lparr>rs_UserID = rt_user r, rs_FamilyID = rt_family r,
       rs_Revoked = rt_revoked r, rs_ExpiresAt = rt_expires_at r\<rparr>))"
  unfolding tok_GetRefreshToken_def
  by (intro does_mapErr does_select) (auto simp: scan_session_def token_of_def)

lemma does_SaveRefreshToken: "does (tok_SaveRefreshToken env jti u f e) d1
    (\<lambda>_ d2. \<exists>r. d2 = add_token r d1 \<and> rt_jti r = jti \<and> rt_user r = u \<and> rt_family r = f \<and> \<not> rt_revoked r
       \<and> rt_expires_at r = pg_time e \<and> account_exists d1 u \<and> token_of d1 jti = None)"
  unfolding tok_SaveRefreshToken_def
proof (rule does_check)
  show "does (mapErr (\<lambda>e. Sentinel ErrSaveRefreshToken) (sql env (insert_token jti u f e))) d1
    (\<lambda>_ d2. \<exists>r. d2 = add_token r d1 \<and> rt_jti r = jti \<and> rt_user r = u \<and> rt_family r = f \<and> \<not> rt_revoked r
       \<and> rt_expires_at r = pg_time e \<and> account_exists d1 u \<and> token_of d1 jti = None)"
    by (intro does_mapErr does_sql)
      (force simp: insert_token_def Let_def add_token_def token_of_None split: if_splits)
qed

lemma does_RevokeTokenFamily: "does (tok_RevokeTokenFamily env f) d1
    (\<lambda>_ d2. d2 = revoke (\<lambda>r. rt_family r = f) d1)"
  unfolding tok_RevokeTokenFamily_def
  by (rule does_then, rule does_mapErr, rule does_sql [where P = "\<lambda>_ d2. d2 = revoke (\<lambda>r. rt_family r = f) d1"])
    (auto simp: revoke_statement)

lemma does_GetById: "does (acc_GetById env i) d1
    (\<lambda>ac d2. d2 = d1 \<and> (\<exists>a\<in>set (accounts d1). ar_id a = i \<and> ac_ID ac = i \<and> ac_Role ac = ar_role a))"
  unfolding acc_GetById_def
  by (intro does_mapErr does_select) (auto simp: scan_account_def split: sum.splits dest!: find_row_Some)

lemma does_GetByEmail: "does (acc_GetByEmail env email) d1
    (\<lambda>ac d2. d2 = d1 \<and> (\<exists>a\<in>set (accounts d1). e_pg_lower env (ar_email a) = e_pg_lower env email
       \<and> ac_ID ac = ar_id a \<and> ac_Role ac = ar_role a \<and> ac_PasswordHash ac = ar_password_hash a))"
  unfolding acc_GetByEmail_def
  by (intro does_mapErr does_select) (auto simp: scan_account_def split: sum.splits dest!: find_row_Some)

lemma numeric_zero: "numeric_36_18 0 = Inr 0"
  using storable_zero by (simp add: storable_def)

lemma does_Create:
  assumes "dec_rat (ac_Balance ac) = 0" "ac_Role ac = RoleUser"
  shows "does (acc_Create env ac) d1 (\<lambda>_ d2. \<exists>a. d2 = apply_event (Registered a) d1 \<and> enabled (Registered a) d1
     \<and> a = \<lparr>ar_id = ac_ID ac, ar_name = ac_Name ac, ar_email = ac_Email ac,
         ar_password_hash = ac_PasswordHash ac, ar_role = ac_Role ac, ar_balance = 0\<rparr>)"
  unfolding acc_Create_def
  by (intro does_mapErr does_sql)
    (auto simp: insert_account_def Let_def assms numeric_zero split: if_splits)

text \<open>
  Revoking with a row count. Without an open row there is nothing to change; a failed
  statement leaves the transaction \<open>stuck\<close>, and then nothing more can be committed.
\<close>

definition stuck :: "'z world_scheme \<Rightarrow> bool" where
  "stuck w \<longleftrightarrow> (\<exists>t. w_tx w = Some t \<and> t_aborted t)"

lemma revoke_nothing: "\<forall>r\<in>set (tokens d). P r \<longrightarrow> rt_revoked r \<Longrightarrow> revoke P d = d"
proof -
  assume a: "\<forall>r\<in>set (tokens d). P r \<longrightarrow> rt_revoked r"
  have same: "tokens (revoke P d) = tokens d"
    unfolding revoke_rows using a by (intro map_idI) auto
  have "revoke P d = d\<lparr>tokens := tokens (revoke P d)\<rparr>" by (simp add: revoke_def)
  then show ?thesis unfolding same by simp
qed

lemma revoke_count:
  assumes "bindE (mapErr m (sql env (revoke_tokens P)))
      (\<lambda>rows. if rows = 0 then failE (Sentinel E) else returnE ()) w = (r, w')" "on_tx w d1 now"
  shows "(r = Inr () \<and> on_tx w' (revoke P d1) now \<and> (\<exists>x\<in>set (tokens d1). P x \<and> \<not> rt_revoked x))
     \<or> (r = Inl (Sentinel E) \<and> on_tx w' d1 now \<and> revoke P d1 = d1 \<and> (\<forall>x\<in>set (tokens d1). P x \<longrightarrow> rt_revoked x))
     \<or> (\<exists>e. r = Inl e \<and> stuck w')"
proof -
  obtain q w1 where s: "sql env (revoke_tokens P) w = (q, w1)" by force
  show ?thesis
  proof (cases q)
    case (Inl e)
    with s assms have "r = Inl (m e) \<and> stuck w'"
      by (auto simp: bindE_def mapErr_def sql_def on_tx_def stuck_def revoke_statement
        split: option.splits sum.splits)
    then show ?thesis by blast
  next
    case (Inr n)
    from s [unfolded Inr] assms(2) obtain d2 where n: "n = length (filter (\<lambda>r. P r \<and> \<not> rt_revoked r) (tokens d1))"
      and on: "on_tx w1 (revoke P d1) now" by (rule sql_on) (simp add: revoke_statement)
    show ?thesis
    proof (cases "n = 0")
      case True
      with n have none: "\<forall>x\<in>set (tokens d1). P x \<longrightarrow> rt_revoked x" by (auto simp: filter_empty_conv)
      with revoke_nothing [OF this] True on s Inr assms(1) show ?thesis
        by (simp add: bindE_def mapErr_def)
    next
      case False
      with n have "\<exists>x\<in>set (tokens d1). P x \<and> \<not> rt_revoked x" by (auto simp: filter_empty_conv)
      with False on s Inr assms(1) show ?thesis by (simp add: bindE_def mapErr_def)
    qed
  qed
qed

lemma stuck_commit:
  assumes "stuck w"
  shows "\<exists>e. Commit env w = (Inl e, (tick w)\<lparr>w_tx := None\<rparr>)"
  using assms by (auto simp: stuck_def Commit_def)

lemma stuck_sql: "stuck w \<Longrightarrow> \<exists>e. sql env stmt w = (Inl e, tick w)"
  by (auto simp: stuck_def sql_def)

text \<open>
  A revocation whose failure is looked at: the row was open and is closed now, or no such row
  is open, or the transaction is stuck.
\<close>

definition closes :: "database \<Rightarrow> (token_row \<Rightarrow> bool) \<Rightarrow> ('z, 'b) io \<Rightarrow> 'b \<Rightarrow> bool" where
  "closes d1 P f yes \<longleftrightarrow> stays same_db f \<and> (\<forall>w now r w'. on_tx w d1 now \<longrightarrow> f w = (r, w') \<longrightarrow>
     (r = Inr yes \<and> on_tx w' (revoke P d1) now \<and> (\<exists>x\<in>set (tokens d1). P x \<and> \<not> rt_revoked x))
     \<or> (\<exists>e. r = Inl e \<and> on_tx w' d1 now \<and> (\<forall>x\<in>set (tokens d1). P x \<longrightarrow> rt_revoked x))
     \<or> (\<exists>e. r = Inl e \<and> stuck w'))"

lemma closes_tokens:
  "closes d1 (\<lambda>r. rt_jti r = j) (tok_RevokeRefreshToken env j) ()"
  "closes d1 (\<lambda>r. rt_user r = u) (tok_RevokeAllUserTokens env u) ()"
  unfolding closes_def tok_RevokeRefreshToken_def tok_RevokeAllUserTokens_def
  by (intro conjI allI impI; (intro inv_intros | drule (1) revoke_count, blast))+

lemma closes_return:
  assumes "closes d1 P f ()"
  shows "closes d1 P (bindE f (\<lambda>_. returnE yes)) yes"
  unfolding closes_def
proof (intro conjI allI impI)
  show "stays same_db (bindE f (\<lambda>_. returnE yes))" using assms by (intro inv_intros) (simp add: closes_def)
next
  fix w now r w'
  assume on: "on_tx w d1 now" and b: "bindE f (\<lambda>_. returnE yes) w = (r, w')"
  obtain q w1 where f: "f w = (q, w1)" by force
  from b f have r: "w' = w1" "r = (case q of Inl e \<Rightarrow> Inl e | Inr _ \<Rightarrow> Inr yes)"
    by (auto simp: bindE_def split: sum.splits)
  from assms on f have
    "(q = Inr () \<and> on_tx w1 (revoke P d1) now \<and> (\<exists>x\<in>set (tokens d1). P x \<and> \<not> rt_revoked x))
     \<or> (\<exists>e. q = Inl e \<and> on_tx w1 d1 now \<and> (\<forall>x\<in>set (tokens d1). P x \<longrightarrow> rt_revoked x))
     \<or> (\<exists>e. q = Inl e \<and> stuck w1)" unfolding closes_def by blast
  then show "(r = Inr yes \<and> on_tx w' (revoke P d1) now \<and> (\<exists>x\<in>set (tokens d1). P x \<and> \<not> rt_revoked x))
     \<or> (\<exists>e. r = Inl e \<and> on_tx w' d1 now \<and> (\<forall>x\<in>set (tokens d1). P x \<longrightarrow> rt_revoked x))
     \<or> (\<exists>e. r = Inl e \<and> stuck w')" unfolding r by auto
qed

definition ends_stuck :: "database \<Rightarrow> ('z, 'a) io \<Rightarrow> 'a outcome \<Rightarrow> bool" where
  "ends_stuck d body Q \<longleftrightarrow> (\<forall>w r w'. w_db w = d \<longrightarrow> stuck w \<longrightarrow> body w = (r, w') \<longrightarrow>
     w_db w' = d \<and> Q r Unchanged)"

lemma ends_closes:
  fixes f :: "('z, 'b) io" and g :: "'b \<Rightarrow> ('z, 'a) io"
  assumes "refusable Q" "closes d1 P f yes"
    "\<And>x. x \<in> set (tokens d1) \<Longrightarrow> P x \<Longrightarrow> \<not> rt_revoked x \<Longrightarrow> ends d (revoke P d1) (g yes) Q"
    "\<forall>x\<in>set (tokens d1). P x \<longrightarrow> rt_revoked x \<Longrightarrow> ends d d1 (g no) Q"
    "ends_stuck d (g no) Q"
  shows "ends d d1 (bindE (catchE f (\<lambda>err. if known err then returnE no else failE (m err))) g) Q"
    (is "ends d d1 (bindE ?h g) Q")
  unfolding ends_def
proof (intro allI impI)
  fix w :: "'z world_scheme" and now r w'
  assume w: "w_db w = d" "on_tx w d1 now" "bindE ?h g w = (r, w')"
  obtain q w1 where f: "f w = (q, w1)" by force
  have d1: "w_db w1 = d" using assms(2) w(1) staysD [of same_db f w q w1] f by (simp add: closes_def same_db_def)
  have unchanged: "\<exists>ev. enabled ev d \<and> w_db w' = apply_event ev d \<and> Q r ev"
    if "w_db w' = d" "Q r Unchanged" using that by (intro exI [of _ Unchanged]) simp
  have failed: "r = Inl (m e) \<and> w' = w1 \<or> g no w1 = (r, w')" if "q = Inl e" for e
    using w(3) f that by (auto simp: bindE_def catchE_def split: if_splits)
  from assms(2) w(2) f consider
      (closed) x where "q = Inr yes" "on_tx w1 (revoke P d1) now" "x \<in> set (tokens d1)" "P x" "\<not> rt_revoked x"
    | (none) e where "q = Inl e" "on_tx w1 d1 now" "\<forall>x\<in>set (tokens d1). P x \<longrightarrow> rt_revoked x"
    | (broken) e where "q = Inl e" "stuck w1" unfolding closes_def by blast
  then show "\<exists>ev. enabled ev d \<and> w_db w' = apply_event ev d \<and> Q r ev"
  proof cases
    case closed
    then have "g yes w1 = (r, w')" using w(3) f by (simp add: bindE_def catchE_def)
    with assms(3) [OF closed(3-5)] d1 closed(2) show ?thesis unfolding ends_def by blast
  next
    case none
    from failed [OF none(1)] show ?thesis
    proof
      assume "g no w1 = (r, w')"
      with assms(4) [OF none(3)] d1 none(2) show ?thesis unfolding ends_def by blast
    qed (use unchanged d1 assms(1) in \<open>auto simp: refusable_def\<close>)
  next
    case broken
    from failed [OF broken(1)] show ?thesis
    proof
      assume "g no w1 = (r, w')"
      with assms(5) d1 broken(2) have "w_db w' = d \<and> Q r Unchanged" unfolding ends_stuck_def by blast
      then show ?thesis using unchanged by blast
    qed (use unchanged d1 assms(1) in \<open>auto simp: refusable_def\<close>)
  qed
qed

lemma stuck_Commit_body:
  "refusable Q \<Longrightarrow> ends_stuck d (bindE (mapErr m (Commit env)) k) Q"
  unfolding ends_stuck_def refusable_def
  by (auto simp: bindE_def mapErr_def dest!: stuck_commit [of _ env])

lemma stuck_Commit_last: "refusable Q \<Longrightarrow> ends_stuck d (mapErr m (Commit env)) Q"
  unfolding ends_stuck_def refusable_def by (auto simp: mapErr_def dest!: stuck_commit [of _ env])

lemma stuck_sql_body: "refusable Q \<Longrightarrow> ends_stuck d (bindE (mapErr m1 (bindE (mapErr m2 (sql env stmt)) k1)) k) Q"
  unfolding ends_stuck_def refusable_def
  by (auto simp: bindE_def mapErr_def dest!: stuck_sql [of _ env stmt])

end
