(* ===== verification/Auth_Refine.thy ===== *)
theory Auth_Refine
  imports Session_Refine
begin

text \<open>
  What each service of \<open>auth.go\<close> may do, as an inductive relation between its reply and the
  event it stands for, and the proofs that every run is covered. A reply with an error can
  come with an event only where a commit's outcome stayed unknown, or where the code closes
  sessions on purpose before it refuses.
\<close>

section \<open>Tokens and their rows\<close>

definition issued :: "env \<Rightarrow> manager \<Rightarrow> string \<Rightarrow> string \<Rightarrow> token_pair \<Rightarrow> bool" where
  "issued env m user role p \<longleftrightarrow> (\<exists>t.
     e_jwt_sign env (m_accessSecret m) (access_claims m user role t) = Inr (tp_AccessToken p)
     \<and> e_jwt_sign env (m_refreshSecret m) (refresh_claims m user (tp_JTI p) t) = Inr (tp_RefreshToken p)
     \<and> tp_ExpiresAt p = t + m_refreshTTL m \<and> tp_ExpiresIn p = whole_seconds (m_accessTTL m))"

definition session_row :: "token_pair \<Rightarrow> uuid \<Rightarrow> uuid \<Rightarrow> token_row \<Rightarrow> bool" where
  "session_row p u f r \<longleftrightarrow> rt_jti r = tp_JTI p \<and> rt_user r = u \<and> rt_family r = f \<and> \<not> rt_revoked r
     \<and> rt_expires_at r = pg_time (tp_ExpiresAt p)"

lemma GenerateTokenPair_issued:
  "GenerateTokenPair env m user role w = (Inr p, w') \<Longrightarrow> issued env m user role p"
  by (auto simp: GenerateTokenPair_def now_nano_def new_uuid_def issued_def split: sum.splits)

lemma does_GenerateTokenPair:
  "does (GenerateTokenPair env m user role) d1 (\<lambda>p d2. d2 = d1 \<and> issued env m user role p)"
  using does_same_sql [OF same_stores_sql [OF stays_GenerateTokenPair]] GenerateTokenPair_issued
  unfolding does_def by metis

text \<open>A session an account presented: the row its claims name, of the user they name.\<close>

definition presented :: "env \<Rightarrow> jwt_claims \<Rightarrow> database \<Rightarrow> token_row \<Rightarrow> bool" where
  "presented env c d s \<longleftrightarrow> token_of d (jc_ID c) = Some s \<and> jc_UserID c = e_uuid_text env (rt_user s)"

definition valid_refresh :: "env \<Rightarrow> manager \<Rightarrow> string \<Rightarrow> jwt_claims \<Rightarrow> bool" where
  "valid_refresh env m tok c \<longleftrightarrow>
     (\<exists>n. e_jwt_parse env (m_refreshSecret m) (m_issuer m) (e_clock env n) tok = Inr c)
     \<and> jc_ID c \<noteq> [] \<and> jc_UserID c \<noteq> [] \<and> jc_Subject c = jc_UserID c"

lemma ValidateRefreshToken_valid:
  "ValidateRefreshToken env m tok w = (Inr c, w') \<Longrightarrow> valid_refresh env m tok c"
  by (auto simp: ValidateRefreshToken_def jwt_parse_def now_nano_def valid_refresh_def elim!: bindE_InrE
    split: sum.splits jwt_error.splits if_splits)

text \<open>
  The claims of a token are its signed payload: whenever the library accepts the token, it
  answers the same claims.
\<close>

definition jwt_stable :: "env \<Rightarrow> bool" where
  "jwt_stable env \<longleftrightarrow> (\<forall>s i t n n' c c'. e_jwt_parse env s i n t = Inr c \<longrightarrow> e_jwt_parse env s i n' t = Inr c' \<longrightarrow> c = c')"

section \<open>Refresh\<close>

definition rotation :: "env \<Rightarrow> manager \<Rightarrow> jwt_claims \<Rightarrow> database \<Rightarrow> token_pair \<Rightarrow> token_row \<Rightarrow> bool" where
  "rotation env m c d p r \<longleftrightarrow> (\<exists>s a n. presented env c d s \<and> \<not> rt_revoked s
     \<and> e_clock env n < rt_expires_at s \<and> a \<in> set (accounts d) \<and> ar_id a = rt_user s
     \<and> issued env m (e_uuid_text env (rt_user s)) (ar_role a) p \<and> session_row p (rt_user s) (rt_family s) r)"

inductive refresh_outcome :: "env \<Rightarrow> manager \<Rightarrow> jwt_claims \<Rightarrow> database \<Rightarrow> token_pair outcome"
  for env m c d where
  refused: "refresh_outcome env m c d (Inl e) Unchanged"
| rotated: "rotation env m c d p r \<Longrightarrow> refresh_outcome env m c d (Inr (publicTokenPair p)) (Rotated (jc_ID c) r)"
| rotated_unknown: "rotation env m c d p r \<Longrightarrow> refresh_outcome env m c d (Inl e) (Rotated (jc_ID c) r)"
| expired: "presented env c d s \<Longrightarrow> \<not> rt_revoked s \<Longrightarrow> \<not> e_clock env n < rt_expires_at s
     \<Longrightarrow> refresh_outcome env m c d (Inl e) (Closed (jc_ID c))"
| reused: "presented env c d s \<Longrightarrow> rt_revoked s \<Longrightarrow> refresh_outcome env m c d (Inl e) (ClosedFamily (rt_family s))"

inductive_cases refresh_outcomeE: "refresh_outcome env m c d r ev"
inductive_cases refresh_outcome_okE: "refresh_outcome env m c d (Inr p) ev"

lemma refresh_refusable: "refusable (refresh_outcome env m c d)"
  by (simp add: refusable_def refresh_outcome.refused)

lemma ends_revokeFamily:
  assumes "refusable Q" "enabled (ClosedFamily f) d" "\<And>e. Q (Inl e) (ClosedFamily f)"
  shows "ends d d (revokeFamilyAfterReuse env f) Q"
  unfolding revokeFamilyAfterReuse_def
  by (rule ends_bind [OF assms(1) does_mapErr [OF does_RevokeTokenFamily]],
      rule ends_commit [where ev = "ClosedFamily f"])
    (use assms in \<open>auto intro: inv_intros\<close>)

text \<open>The only row with an id is the one that \<open>token_of\<close> finds, where ids are unique.\<close>

lemma open_row_is_token:
  assumes "tokens_ok d" "x \<in> set (tokens d)" "rt_jti x = jti"
  shows "token_of d jti = Some x"
  using find_row_unique [of rt_jti "tokens d" x] assms by (simp add: token_of_def tokens_ok_def)

lemma ends_rotate:
  fixes env m c
  defines "Q \<equiv> refresh_outcome env m c"
  assumes "presented env c d s" "\<not> rt_revoked s" "e_clock env n < rt_expires_at s"
  shows "ends d (revoke (\<lambda>x. rt_jti x = jc_ID c) d)
    (bindE (mapErr (Wrapped e1) (acc_GetById env (rt_user s))) (\<lambda>account.
     bindE (mapErr (Wrapped e2)
         (GenerateTokenPair env m (e_uuid_text env (ac_ID account)) (ac_Role account))) (\<lambda>newPair.
     bindE (mapErr (Wrapped e3)
         (tok_SaveRefreshToken env (tp_JTI newPair) (ac_ID account) (rt_family s)
            (tp_ExpiresAt newPair))) (\<lambda>_.
     bindE (mapErr (Wrapped e4) (Commit env)) (\<lambda>_.
     returnE (publicTokenPair newPair)))))) (Q d)"
proof -
  have q: "refusable (Q d)" by (simp add: Q_def refresh_refusable)
  show ?thesis
  proof (rule ends_bind [OF q does_mapErr [OF does_GetById]], elim conjE bexE)
    fix ac d2 a
    assume d2: "d2 = revoke (\<lambda>x. rt_jti x = jc_ID c) d" and a: "a \<in> set (accounts (revoke (\<lambda>x. rt_jti x = jc_ID c) d))"
      "ar_id a = rt_user s" and ac: "ac_ID ac = rt_user s" "ac_Role ac = ar_role a"
    show "ends d d2 (bindE (mapErr (Wrapped e2)
         (GenerateTokenPair env m (e_uuid_text env (ac_ID ac)) (ac_Role ac))) (\<lambda>newPair.
       bindE (mapErr (Wrapped e3)
         (tok_SaveRefreshToken env (tp_JTI newPair) (ac_ID ac) (rt_family s) (tp_ExpiresAt newPair))) (\<lambda>_.
       bindE (mapErr (Wrapped e4) (Commit env)) (\<lambda>_. returnE (publicTokenPair newPair))))) (Q d)"
    proof (rule ends_bind [OF q does_mapErr [OF does_GenerateTokenPair]], elim conjE)
      fix p d3 assume d3: "d3 = d2" and p: "issued env m (e_uuid_text env (ac_ID ac)) (ac_Role ac) p"
      show "ends d d3 (bindE (mapErr (Wrapped e3)
         (tok_SaveRefreshToken env (tp_JTI p) (ac_ID ac) (rt_family s) (tp_ExpiresAt p))) (\<lambda>_.
       bindE (mapErr (Wrapped e4) (Commit env)) (\<lambda>_. returnE (publicTokenPair p)))) (Q d)"
      proof (rule ends_bind [OF q does_mapErr [OF does_SaveRefreshToken]], elim exE conjE)
        fix d4 r assume d4: "d4 = add_token r d3" and r: "rt_jti r = tp_JTI p" "rt_user r = ac_ID ac"
          "rt_family r = rt_family s" "\<not> rt_revoked r" "rt_expires_at r = pg_time (tp_ExpiresAt p)"
          and new: "account_exists d3 (ac_ID ac)" "token_of d3 (tp_JTI p) = None"
        have rot: "rotation env m c d p r"
          unfolding rotation_def using assms a ac p r by (force simp: session_row_def)
        show "ends d d4 (bindE (mapErr (Wrapped e4) (Commit env)) (\<lambda>_. returnE (publicTokenPair p))) (Q d)"
        proof (rule ends_commit [OF q, where ev = "Rotated (jc_ID c) r"])
          show "enabled (Rotated (jc_ID c) r) d"
            using assms r new ac by (auto simp: d3 d2 presented_def token_of_revoke_None)
        qed (use rot in \<open>auto simp: Q_def d4 d3 d2 intro: refresh_outcome.intros inv_intros\<close>)
      qed
    qed
  qed
qed

lemma stuck_family: "ends_stuck d (revokeFamilyAfterReuse env f) (refresh_outcome env m c d)"
  unfolding revokeFamilyAfterReuse_def tok_RevokeTokenFamily_def by (rule stuck_sql_body [OF refresh_refusable])

lemma ends_refreshBody: "ends d d (refreshBody env m c) (refresh_outcome env m c d)"
  unfolding refreshBody_def
proof (rule ends_bind [OF refresh_refusable does_mapErr [OF does_GetRefreshToken]], elim conjE exE, goal_cases)
  case (1 session d2 s)
  let ?Q = "refresh_outcome env m c d"
  have s: "token_of d (jc_ID c) = Some s" using 1 by simp
  have s_in: "s \<in> set (tokens d)" "rt_jti s = jc_ID c" using token_of_Some [OF s] by simp_all
  consider (other) "jc_UserID c \<noteq> e_uuid_text env (rt_user s)"
    | (reused) "presented env c d s" "rt_revoked s"
    | (open_row) "presented env c d s" "\<not> rt_revoked s"
    using s by (auto simp: presented_def)
  then show ?case
  proof cases
    case other
    with 1 show ?thesis by (simp add: ends_fail refresh_refusable)
  next
    case reused
    then have "ends d d (revokeFamilyAfterReuse env (rt_family s)) ?Q"
      using s_in by (intro ends_revokeFamily refresh_refusable) (auto intro: refresh_outcome.reused)
    with reused 1 show ?thesis by (simp add: presented_def)
  next
    case open_row
    have not_none: "\<not> (\<forall>x\<in>set (tokens d). rt_jti x = jc_ID c \<longrightarrow> rt_revoked x)"
      using s_in open_row(2) by blast
    have user: "jc_UserID c = e_uuid_text env (rt_user s)" using open_row(1) by (simp add: presented_def)
    show ?thesis
      unfolding 1
    proof (simp only: refresh_session.simps user open_row(2) if_False if_True not_True_eq_False simp_thms,
        rule ends_clock, goal_cases)
      case (1 n)
      show ?case
      proof (cases "e_clock env n < rt_expires_at s")
        case False
        have "ends d (revoke (\<lambda>x. rt_jti x = jc_ID c) d)
            (bindE (mapErr (Wrapped e1) (Commit env)) (\<lambda>_. failE (Sentinel ErrRefreshTokenExpired))) ?Q" for e1
          using open_row s False
          by (intro ends_commit [OF refresh_refusable, where ev = "Closed (jc_ID c)"])
            (auto intro: refresh_outcome.expired inv_intros)
        with False not_none show ?thesis
          by (simp, intro ends_closes [OF refresh_refusable closes_tokens(1), where no = "()"])
            (simp_all add: stuck_Commit_body refresh_refusable)
      next
        case True
        from ends_rotate [OF open_row True] not_none True show ?thesis
          by (simp, intro ends_closes [OF refresh_refusable closes_return [OF closes_tokens(1)], where no = False])
            (simp_all add: stuck_family)
      qed
    qed
  qed
qed

lemma stays_checkRateLimit [inv_intros]: "stays same_sql (checkRateLimit env cfg op i)"
  unfolding checkRateLimit_def by (intro inv_intros)

text \<open>A whole \<open>Refresh\<close>: refused, or the outcome for the claims of the token.\<close>

definition refresh_served :: "env \<Rightarrow> manager \<Rightarrow> string \<Rightarrow> database \<Rightarrow> token_pair outcome" where
  "refresh_served env m tok d r ev \<longleftrightarrow> (\<exists>e. r = Inl e \<and> ev = Unchanged)
     \<or> (\<exists>c. valid_refresh env m tok c \<and> refresh_outcome env m c d r ev)"

lemma refresh_served_refusable: "refusable (refresh_served env m tok d)"
  by (simp add: refusable_def refresh_served_def)

lemma ends_weaken: "ends d d1 f Q \<Longrightarrow> (\<And>r ev. Q r ev \<Longrightarrow> Q' r ev) \<Longrightarrow> ends d d1 f Q'"
  unfolding ends_def by blast

lemma Refresh_serves: "serves d (Refresh env cfg m tok ip :: ('z, token_pair) io) (refresh_served env m tok d)"
proof (cases "tok = []")
  case True
  then show ?thesis by (simp add: Refresh_def serves_fail refresh_served_refusable)
next
  case False
  have "serves d (with_tx env wrap (refreshBody env m c) :: ('z, token_pair) io) (refresh_served env m tok d)"
    if "valid_refresh env m tok c" for wrap c
    using that
    by (intro serves_tx refresh_served_refusable ends_weaken [OF ends_refreshBody])
      (auto simp: refresh_served_def)
  then show ?thesis
    unfolding Refresh_def using False
    by (auto intro!: serves_bind refresh_served_refusable same_sql_db inv_intros same_stores_sql
        dest!: ValidateRefreshToken_valid)
qed

section \<open>Login\<close>

definition login_session :: "env \<Rightarrow> manager \<Rightarrow> string \<Rightarrow> string \<Rightarrow> database \<Rightarrow> token_pair \<Rightarrow> token_row \<Rightarrow> bool" where
  "login_session env m email password d p r \<longleftrightarrow> (\<exists>a n. a \<in> set (accounts d)
     \<and> e_pg_lower env (ar_email a) = e_pg_lower env (normalizeEmail env email)
     \<and> e_bcrypt_compare env (ar_password_hash a) password
     \<and> issued env m (e_uuid_text env (ar_id a)) (ar_role a) p
     \<and> session_row p (ar_id a) (rt_family r) r \<and> e_uuid env n = Inr (rt_family r))"

inductive login_outcome :: "env \<Rightarrow> manager \<Rightarrow> string \<Rightarrow> string \<Rightarrow> database \<Rightarrow> token_pair outcome"
  for env m email password d where
  refused: "login_outcome env m email password d (Inl e) Unchanged"
| opened: "login_session env m email password d p r
     \<Longrightarrow> login_outcome env m email password d (Inr (publicTokenPair p)) (Opened r)"
| opened_unknown: "login_session env m email password d p r
     \<Longrightarrow> login_outcome env m email password d (Inl e) (Opened r)"

inductive_cases login_outcomeE: "login_outcome env m email password d r ev"
inductive_cases login_outcome_okE: "login_outcome env m email password d (Inr p) ev"

lemma login_refusable: "refusable (login_outcome env m email password d)"
  by (simp add: refusable_def login_outcome.refused)

text \<open>Reading the account: a transaction that commits nothing new.\<close>

lemma loadAccount_found:
  assumes "loadAccountForLogin env email w = (Inr ac, w')"
  shows "\<exists>a\<in>set (accounts (w_db w)). e_pg_lower env (ar_email a) = e_pg_lower env email
     \<and> ac_ID ac = ar_id a \<and> ac_Role ac = ar_role a \<and> ac_PasswordHash ac = ar_password_hash a"
proof -
  obtain q w1 where n: "NewTX env w = (q, w1)" by force
  with assms obtain w2 where g: "acc_GetByEmail env email w1 = (Inr ac, w2)"
    by (auto simp: loadAccountForLogin_def with_tx_def elim!: bindE_InrE split: sum.splits prod.splits)
  from n assms have "q = Inr ()" by (cases q) (auto simp: loadAccountForLogin_def with_tx_def)
  with n have "on_tx w1 (w_db w) (e_pg_now env (w_tick w))" using NewTX_on by metis
  with g does_GetByEmail [of env email "w_db w"] show ?thesis unfolding does_def by blast
qed

lemma stays_loadAccount [inv_intros]: "stays same_db (loadAccountForLogin env email)"
  unfolding loadAccountForLogin_def by (rule read_email.transaction_reads_wrapped [where f = "\<lambda>x. x"])

lemma ends_saveSession:
  assumes "refusable Q" "\<And>r. session_row p u f r \<Longrightarrow> Q (Inr ()) (Opened r) \<and> (\<forall>e. Q (Inl e) (Opened r))"
  shows "serves d (saveRefreshSession env p u f) Q"
  unfolding saveRefreshSession_def
proof (intro serves_tx assms(1) ends_bind [OF assms(1) does_mapErr [OF does_SaveRefreshToken]], elim exE conjE, goal_cases)
  case (1 x d2 r)
  then have "session_row p u f r" by (simp add: session_row_def)
  with assms 1 show ?case
    by (intro ends_commit_last [where ev = "Opened r"]) auto
qed

text \<open>A continuation that only shapes the reply.\<close>

lemma serves_map:
  assumes "serves d f (\<lambda>r ev. Q (case r of Inl e \<Rightarrow> Inl e | Inr x \<Rightarrow> Inr (h x)) ev)"
  shows "serves d (bindE f (\<lambda>x. returnE (h x))) Q"
  unfolding serves_def
proof (intro allI impI)
  fix w r w'
  assume w: "w_db w = d" "bindE f (\<lambda>x. returnE (h x)) w = (r, w')"
  obtain q w1 where f: "f w = (q, w1)" by force
  with w(2) have "w1 = w'" "r = (case q of Inl e \<Rightarrow> Inl e | Inr x \<Rightarrow> Inr (h x))"
    by (auto simp: bindE_def split: sum.splits)
  with assms w(1) f show "\<exists>ev. enabled ev d \<and> w_db w' = apply_event ev d \<and> Q r ev"
    unfolding serves_def by blast
qed

lemma stays_gen_uuid [inv_intros]: "stays same_db (gen_uuid env)"
  by (rule staysI) (simp add: gen_uuid_def new_uuid_def same_db_def)

text \<open>The account \<open>a\<close> that logs in, as the code reads it, and the rest of \<open>Login\<close> from there.\<close>

definition logs_in :: "env \<Rightarrow> string \<Rightarrow> string \<Rightarrow> database \<Rightarrow> account \<Rightarrow> account_row \<Rightarrow> bool" where
  "logs_in env email password d ac a \<longleftrightarrow> a \<in> set (accounts d)
     \<and> e_pg_lower env (ar_email a) = e_pg_lower env (normalizeEmail env email)
     \<and> e_bcrypt_compare env (ar_password_hash a) password \<and> ac_ID ac = ar_id a \<and> ac_Role ac = ar_role a"

lemma Login_opens:
  assumes "logs_in env email password d ac a" "issued env m (e_uuid_text env (ar_id a)) (ar_role a) p"
    "e_uuid env n = Inr f"
  shows "serves d (bindE (saveRefreshSession env p (ac_ID ac) f) (\<lambda>_. returnE (publicTokenPair p)) :: ('z, token_pair) io)
    (login_outcome env m email password d)"
proof (rule serves_map, rule ends_saveSession)
  fix r assume r: "session_row p (ac_ID ac) f r"
  then have "rt_family r = f" by (simp add: session_row_def)
  with assms r have "login_session env m email password d p r" unfolding login_session_def logs_in_def by metis
  then show "login_outcome env m email password d (case Inr () of Inl e \<Rightarrow> Inl e | Inr x \<Rightarrow> Inr (publicTokenPair p)) (Opened r)
      \<and> (\<forall>e. login_outcome env m email password d (case Inl e of Inl e \<Rightarrow> Inl e | Inr x \<Rightarrow> Inr (publicTokenPair p)) (Opened r))"
    by (auto intro: login_outcome.intros)
qed (simp add: refusable_def login_outcome.refused)

lemma Login_issues:
  assumes "logs_in env email password d ac a"
  shows "serves d (bindE (mapErr (Wrapped e1)
          (GenerateTokenPair env m (e_uuid_text env (ac_ID ac)) (ac_Role ac))) (\<lambda>pair.
        bindE (mapErr (Wrapped e2) (gen_uuid env)) (\<lambda>familyID.
        bindE (saveRefreshSession env pair (ac_ID ac) familyID) (\<lambda>_. returnE (publicTokenPair pair)))) :: ('z, token_pair) io)
    (login_outcome env m email password d)"
proof (rule serves_bind [OF login_refusable], goal_cases)
  case 1
  show ?case by (intro same_sql_db same_stores_sql inv_intros)
next
  case (2 w p w1)
  then have p: "issued env m (e_uuid_text env (ar_id a)) (ar_role a) p"
    using GenerateTokenPair_issued assms by (auto simp: logs_in_def)
  show ?case
  proof (rule serves_bind [OF login_refusable stays_mapErr [OF stays_gen_uuid]], goal_cases)
    case (1 w2 f w3)
    then have "e_uuid env (w_tick w2) = Inr f" by (simp add: gen_uuid_def new_uuid_def)
    with assms p show ?case by (rule Login_opens)
  qed
qed

lemma Login_serves: "serves d (Login env cfg m email password ip :: ('z, token_pair) io) (login_outcome env m email password d)"
  unfolding Login_def Let_def
proof (intro serves_bind login_refusable, goal_cases)
  case 1
  then show ?case by (intro same_sql_db inv_intros)
next
  case (2 w u w')
  show ?case
  proof (cases "\<not> validEmail (normalizeEmail env email) \<or> length password < minPasswordLen
      \<or> length password > maxPasswordLen")
    case False
    have "serves d (bindE (mapErr h (loadAccountForLogin env (normalizeEmail env email))) (\<lambda>account.
      if \<not> e_bcrypt_compare env (ac_PasswordHash account) password
      then failE (Sentinel ErrInvalidCredentials)
      else bindE (mapErr (Wrapped ''generate tokens'')
            (GenerateTokenPair env m (e_uuid_text env (ac_ID account)) (ac_Role account))) (\<lambda>pair.
        bindE (mapErr (Wrapped ''generate family ID'') (gen_uuid env)) (\<lambda>familyID.
        bindE (saveRefreshSession env pair (ac_ID account) familyID) (\<lambda>_.
        returnE (publicTokenPair pair))))) :: ('z, token_pair) io) (login_outcome env m email password d)" for h
    proof (intro serves_bind login_refusable stays_mapErr stays_loadAccount, goal_cases)
      case (1 v ac v')
      then have "loadAccountForLogin env (normalizeEmail env email) v = (Inr ac, v')" by simp
      note found = loadAccount_found [OF this]
      show ?case
      proof (cases "e_bcrypt_compare env (ac_PasswordHash ac) password")
        case True
        with found 1(1) obtain a where "logs_in env email password d ac a" by (auto simp: logs_in_def)
        from Login_issues [OF this] True show ?thesis by (simp only: not_True_eq_False if_False)
      qed (simp add: serves_fail login_refusable)
    qed
    with False show ?thesis by (simp only: if_False)
  qed (simp add: serves_fail login_refusable)
qed

section \<open>Register\<close>

definition registration :: "env \<Rightarrow> string \<Rightarrow> string \<Rightarrow> string \<Rightarrow> account \<Rightarrow> account_row \<Rightarrow> bool" where
  "registration env email password name ac a \<longleftrightarrow>
     validateRegistration (normalizeEmail env email) password (TrimSpace name) = None
     \<and> ac_Name ac = TrimSpace name \<and> ac_Email ac = normalizeEmail env email \<and> ac_Role ac = RoleUser
     \<and> ac_Balance ac = dec_Zero \<and> (\<exists>n. e_bcrypt_hash env n password = Inr (ac_PasswordHash ac))
     \<and> (\<exists>n. e_uuid env n = Inr (ac_ID ac))
     \<and> a = \<lparr>ar_id = ac_ID ac, ar_name = ac_Name ac, ar_email = ac_Email ac,
         ar_password_hash = ac_PasswordHash ac, ar_role = RoleUser, ar_balance = 0\<rparr>"

inductive register_outcome :: "env \<Rightarrow> string \<Rightarrow> string \<Rightarrow> string \<Rightarrow> account outcome"
  for env email password name where
  refused: "register_outcome env email password name (Inl e) Unchanged"
| registered: "registration env email password name ac a
     \<Longrightarrow> register_outcome env email password name (Inr ac) (Registered a)"
| registered_unknown: "registration env email password name ac a
     \<Longrightarrow> register_outcome env email password name (Inl e) (Registered a)"

inductive_cases register_outcomeE: "register_outcome env email password name r ev"
inductive_cases register_outcome_okE: "register_outcome env email password name (Inr ac) ev"

lemma register_refusable: "refusable (register_outcome env email password name)"
  by (simp add: refusable_def register_outcome.refused)

lemma dec_rat_Zero: "dec_rat dec_Zero = 0"
  by (simp add: dec_rat_def dec_Zero_def)

lemma does_gen_uuid: "does (gen_uuid env) d1 (\<lambda>i d2. d2 = d1 \<and> (\<exists>n. e_uuid env n = Inr i))"
  unfolding does_def
  by (intro conjI allI impI stays_gen_uuid) (auto simp: gen_uuid_def new_uuid_def on_tx_def)

lemma Register_serves:
  "serves d (Register env cfg email password name ip :: ('z, account) io) (register_outcome env email password name)"
proof (cases "validateRegistration (normalizeEmail env email) password (TrimSpace name)")
  case (Some e)
  then show ?thesis by (simp add: Register_def Let_def serves_fail register_refusable)
next
  case None
  let ?Q = "register_outcome env email password name"
  let ?ac = "\<lambda>i h. \<lparr>ac_ID = i, ac_Name = TrimSpace name, ac_Email = normalizeEmail env email,
    ac_Balance = dec_Zero, ac_PasswordHash = h, ac_Role = RoleUser\<rparr>"
  have create: "ends d d (bindE (mapErr (Wrapped e1) (acc_Create env (?ac i h))) (\<lambda>_.
      bindE (mapErr (Wrapped e2) (Commit env)) (\<lambda>_. returnE (?ac i h))) :: ('z, account) io) ?Q"
    if fresh: "e_uuid env n = Inr i" "e_bcrypt_hash env k password = Inr h" for i h n k e1 e2
  proof (rule ends_bind [OF register_refusable does_mapErr [OF does_Create]], goal_cases)
    case (3 u d2)
    then obtain a where a: "registration env email password name (?ac i h) a"
      "enabled (Registered a) d" "d2 = apply_event (Registered a) d"
      using None fresh by (auto simp: registration_def)
    then show ?case
      by (intro ends_commit [OF register_refusable, where ev = "Registered a"])
        (auto intro: register_outcome.intros inv_intros)
  qed (simp_all add: dec_rat_Zero)
  have uuid: "does (mapErr f (gen_uuid env) :: ('z, uuid) io) d (\<lambda>i d2. d2 = d \<and> (\<exists>n. e_uuid env n = Inr i))" for f
    by (intro does_mapErr does_gen_uuid)
  show ?thesis
    unfolding Register_def Let_def None option.case
  proof (intro serves_bind register_refusable, goal_cases)
    case 1
    show ?case by (intro same_sql_db inv_intros)
  next
    case (2 w u w')
    show ?case by (rule staysI) (simp add: hash_password_def same_db_def)
  next
    case (3 w u w' v h v')
    then have "\<exists>k. e_bcrypt_hash env k password = Inr h" by (auto simp: hash_password_def)
    with create show ?case
      by (auto intro!: serves_tx register_refusable ends_bind [OF register_refusable uuid])
  qed
qed

section \<open>Logout\<close>

lemma ends_test:
  fixes f :: "('z, bool) io" and k :: "('z, 'a) io"
  assumes "refusable Q" "stays same_db f"
    "\<And>(w :: 'z world_scheme) now w'. on_tx w d1 now \<Longrightarrow> f w = (Inr True, w') \<Longrightarrow> on_tx w' d2 now \<and> P"
    "P \<Longrightarrow> ends d d2 g Q" "stays same_db k" "\<And>w. Q (fst (k w)) Unchanged"
  shows "ends d d1 (bindE f (\<lambda>b. if b then g else k)) Q"
  unfolding ends_def
proof (intro allI impI)
  fix w :: "'z world_scheme" and now r w'
  assume w: "w_db w = d" "on_tx w d1 now" "bindE f (\<lambda>b. if b then g else k) w = (r, w')"
  obtain q w1 where f: "f w = (q, w1)" by force
  have d1: "w_db w1 = d" using assms(2) w(1) staysD [of same_db f w q w1] f by (simp add: same_db_def)
  consider e where "q = Inl e" | "q = Inr True" | "q = Inr False" by (cases q) auto
  then show "\<exists>ev. enabled ev d \<and> w_db w' = apply_event ev d \<and> Q r ev"
  proof cases
    case 1
    with f w(3) d1 assms(1) show ?thesis by (auto simp: refusable_def intro!: exI [of _ Unchanged])
  next
    case 2
    with assms(3) [OF w(2)] f have "on_tx w1 d2 now" P by simp_all
    with assms(4) d1 f 2 w(3) show ?thesis unfolding ends_def by force
  next
    case 3
    with f w(3) have "k w1 = (r, w')" by (simp add: bindE_def)
    with assms(5) assms(6) [of w1] d1 staysD [of same_db k w1 r w'] show ?thesis
      by (auto simp: same_db_def intro!: exI [of _ Unchanged])
  qed
qed

inductive logout_outcome :: "env \<Rightarrow> manager \<Rightarrow> string \<Rightarrow> database \<Rightarrow> unit outcome" for env m tok d where
  nothing: "logout_outcome env m tok d r Unchanged"
| closed: "valid_refresh env m tok c \<Longrightarrow> presented env c d s \<Longrightarrow> \<not> rt_revoked s
     \<Longrightarrow> logout_outcome env m tok d r (Closed (jc_ID c))"

inductive_cases logout_outcomeE: "logout_outcome env m tok d r ev"

lemma stays_tokens [inv_intros]:
  "stays same_db (tok_GetRefreshToken env jti)" "stays same_db (tok_RevokeRefreshToken env jti)"
  "stays same_db (tok_RevokeAllUserTokens env u)"
  unfolding tok_GetRefreshToken_def tok_RevokeRefreshToken_def tok_RevokeAllUserTokens_def select_row_def
  by (intro inv_intros)+

lemma ends_logoutBody:
  assumes "valid_refresh env m tok c"
  shows "ends d d (logoutBody env c) (logout_outcome env m tok d)"
  unfolding logoutBody_def
proof (rule ends_test [where P = "\<exists>s. presented env c d s \<and> \<not> rt_revoked s"
      and ?d2.0 = "revoke (\<lambda>x. rt_jti x = jc_ID c) d"], goal_cases)
  case 2
  show ?case by (intro inv_intros)
next
  case (3 w now w')
  from 3(2) obtain session w1 where g: "tok_GetRefreshToken env (jc_ID c) w = (Inr session, w1)"
    and ok: "jc_UserID c = e_uuid_text env (rs_UserID session)" "\<not> rs_Revoked session"
    and rv: "tok_RevokeRefreshToken env (jc_ID c) w1 = (Inr (), w')"
    by (auto simp: catchE_def bindE_def split: prod.splits sum.splits if_splits)
  from does_GetRefreshToken [of env "jc_ID c" d] g 3(1) obtain s where on: "on_tx w1 d now"
    and s: "token_of d (jc_ID c) = Some s" "session = \<lparr>rs_UserID = rt_user s, rs_FamilyID = rt_family s,
      rs_Revoked = rt_revoked s, rs_ExpiresAt = rt_expires_at s\<rparr>"
    unfolding does_def by blast
  from closes_tokens(1) [of d "jc_ID c" env] on rv have "on_tx w' (revoke (\<lambda>x. rt_jti x = jc_ID c) d) now"
    unfolding closes_def by fastforce
  with s ok show ?case by (auto simp: presented_def)
next
  case 4
  then obtain s where "presented env c d s" "\<not> rt_revoked s" by blast
  with assms show ?case
    by (intro ends_commit_last [where ev = "Closed (jc_ID c)"])
      (auto simp: refusable_def presented_def intro: logout_outcome.intros)
qed (auto simp: refusable_def intro: logout_outcome.intros inv_intros)

lemma Logout_serves:
  "serves d (Logout env cfg m tok ip :: ('z, unit) io) (logout_outcome env m tok d)"
proof -
  let ?Q = "logout_outcome env m tok d"
  have q: "refusable ?Q" by (simp add: refusable_def logout_outcome.nothing)
  have body: "serves d ((case oc of None \<Rightarrow> returnE ()
      | Some c \<Rightarrow> with_tx env wrap (logoutBody env c)) :: ('z, unit) io) ?Q"
    if "\<And>c. oc = Some c \<Longrightarrow> valid_refresh env m tok c" for oc wrap
    using that by (cases oc)
      (auto intro!: serves_tx [OF q] ends_logoutBody serves_quiet logout_outcome.nothing inv_intros)
  show ?thesis
    unfolding Logout_def
  proof (rule serves_bind [OF q], goal_cases)
    case 1
    show ?case by (intro inv_intros same_sql_db)
  next
    case (2 w u w1)
    show ?case
    proof (rule serves_bind [OF q], goal_cases)
      case 1
      show ?case by (intro inv_intros same_sql_db same_stores_sql)
    next
      case (2 w2 oc w3)
      then show ?case
        by (intro body) (auto simp: catchE_def bindE_def dest: ValidateRefreshToken_valid
          split: prod.splits sum.splits)
    qed
  qed
qed

inductive logout_all_outcome :: "uuid \<Rightarrow> unit outcome" for u where
  nothing: "logout_all_outcome u (Inl e) Unchanged"
| closed: "logout_all_outcome u r (ClosedUser u)"

inductive_cases logout_all_outcomeE: "logout_all_outcome u r ev"

lemma LogoutAll_serves: "serves d (LogoutAll env u) (logout_all_outcome u)"
proof -
  have q: "refusable (logout_all_outcome u)" by (simp add: refusable_def logout_all_outcome.nothing)
  have commit: "ends d (revoke (\<lambda>r. rt_user r = u) d) (mapErr f (Commit env)) (logout_all_outcome u)" for f
    using q by (intro ends_commit_last [where ev = "ClosedUser u"]) (auto intro: logout_all_outcome.closed)
  have none: "ends d d (mapErr f (Commit env)) (logout_all_outcome u)"
    if "\<forall>x\<in>set (tokens d). rt_user x = u \<longrightarrow> rt_revoked x" for f
    using commit [of f] revoke_nothing [OF that] by simp
  show ?thesis
    unfolding LogoutAll_def
    by (intro serves_tx [OF q] ends_closes [OF q closes_tokens(2)] commit none stuck_Commit_last q) auto
qed

end
