(* ===== verification/Http_Frame.thy ===== *)
theory Http_Frame
  imports Http_Server Json_Props Auth_Refine Transfer_Props
begin

text \<open>
  What serving one HTTP request does to the state, under every schedule of faults: nothing to
  the tables, a run of session events, or one call of \<open>Transfer\<close> for the authenticated caller.
  The properties of the server rest on this case distinction.
\<close>

section \<open>The middleware\<close>

definition identity_of :: "jwt_claims \<Rightarrow> Identity" where
  "identity_of claims = \<lparr>id_UserID = jc_UserID claims, id_Role = jc_Role claims\<rparr>"

text \<open>The request carries an access token that is valid now, with these claims.\<close>

definition authenticated :: "env \<Rightarrow> app \<Rightarrow> http_request \<Rightarrow> world \<Rightarrow> jwt_claims \<Rightarrow> world \<Rightarrow> bool" where
  "authenticated env app r w claims w1 \<longleftrightarrow>
     (\<exists>token. bearerToken r = Inr token \<and> ValidateAccessToken env (ap_manager app) token w = (Inr claims, w1))"

lemma unauthorized_code: "rp_code (unauthorized m) = Some 401" "rp_body (unauthorized m) = [ErrorBody m None]"
  by (simp_all add: unauthorized_def write_body_def write_header_def set_header_def)

lemma authenticated_stores: "authenticated env app r w claims w1 \<Longrightarrow> same_stores w w1"
  by (auto simp: authenticated_def dest: staysD [OF stays_ValidateToken(1)])

lemma Middleware_cases:
  assumes "Middleware env app h r who w = (rp, w')"
  obtains (refused) m where "rp = unauthorized m" "same_stores w w'"
  | (passed) claims w1 where "authenticated env app r w claims w1" "h r (Some (identity_of claims)) w1 = (rp, w')"
proof (cases "bearerToken r")
  case (Inl e)
  with assms same_stores_refl_trans(1) refused show ?thesis by (auto simp: Middleware_def reflp_def)
next
  case token: (Inr token)
  obtain q w1 where v: "ValidateAccessToken env (ap_manager app) token w = (q, w1)" by force
  show ?thesis
  proof (cases q)
    case (Inl e)
    with assms token v staysD [OF stays_ValidateToken(1) v] refused show ?thesis
      by (auto simp: Middleware_def split: if_splits)
  next
    case (Inr claims)
    with assms token v passed show ?thesis by (auto simp: Middleware_def authenticated_def identity_of_def)
  qed
qed

section \<open>The handlers and the tables\<close>

text \<open>The tables after a run of session events, each enabled when it happens.\<close>

inductive session_run :: "database \<Rightarrow> database \<Rightarrow> bool" where
  session_start: "session_run d d"
| session_step: "session_run d d' \<Longrightarrow> enabled ev d' \<Longrightarrow> session_run d (apply_event ev d')"

lemma session_event: "enabled ev d \<Longrightarrow> session_run d (apply_event ev d)"
  by (intro session_run.intros)

lemma session_run_trans: "session_run d' d'' \<Longrightarrow> session_run d d' \<Longrightarrow> session_run d d''"
  by (induction rule: session_run.induct) (auto intro: session_run.intros)

lemma services_run:
  "Register env cfg email pw name ip w = (r1, w') \<Longrightarrow> session_run (w_db w) (w_db w')"
  "Login env cfg m email pw ip w = (r2, w') \<Longrightarrow> session_run (w_db w) (w_db w')"
  "Refresh env cfg m tok ip w = (r2, w') \<Longrightarrow> session_run (w_db w) (w_db w')"
  "Logout env cfg m tok ip w = (r3, w') \<Longrightarrow> session_run (w_db w) (w_db w')"
  "LogoutAll env u w = (r3, w') \<Longrightarrow> session_run (w_db w) (w_db w')"
  using Register_serves Login_serves Refresh_serves Logout_serves LogoutAll_serves
  unfolding serves_def by (metis session_event)+

lemma readers_same_db:
  "GetTransaction env cfg i u k w = (q1, w') \<Longrightarrow> w_db w' = w_db w"
  "GetTransactionFilter env cfg flt u k w = (q2, w') \<Longrightarrow> w_db w' = w_db w"
  "GetAccount env cfg i w = (q3, w') \<Longrightarrow> w_db w' = w_db w"
  "TransactionHistory env cfg i l off w = (q4, w') \<Longrightarrow> w_db w' = w_db w"
  by (drule staysD [OF readers_keep_db(1)] staysD [OF readers_keep_db(2)] staysD [OF readers_keep_db(3)]
      staysD [OF readers_keep_db(4)], simp add: same_db_def)+

lemma run_checks_db: "w_db (snd (run_checks cs w)) = w_db w"
  by (induction cs w rule: run_checks.induct) (simp_all split: option.split)

lemmas handler_cases = prod.splits sum.splits option.splits if_splits

lemma auth_handlers_run:
  "handle_Register env app r who w = (rp, w') \<Longrightarrow> session_run (w_db w) (w_db w')"
  "handle_Login env app r who w = (rp, w') \<Longrightarrow> session_run (w_db w) (w_db w')"
  "handle_Refresh env app r who w = (rp, w') \<Longrightarrow> session_run (w_db w) (w_db w')"
  "handle_Logout env app r who w = (rp, w') \<Longrightarrow> session_run (w_db w) (w_db w')"
  "handle_LogoutAll env app r who w = (rp, w') \<Longrightarrow> session_run (w_db w) (w_db w')"
proof -
  show "handle_Register env app r who w = (rp, w') \<Longrightarrow> session_run (w_db w) (w_db w')"
    by (auto simp: handle_Register_def reply_error_def reply_auth_error_def Let_def session_start
        split: handler_cases dest: services_run(1) intro: session_run_trans [OF services_run(2) services_run(1)])
  show "handle_Login env app r who w = (rp, w') \<Longrightarrow> session_run (w_db w) (w_db w')"
    by (auto simp: handle_Login_def reply_error_def reply_auth_error_def Let_def session_start
        split: handler_cases dest: services_run(2))
  show "handle_Refresh env app r who w = (rp, w') \<Longrightarrow> session_run (w_db w) (w_db w')"
    by (auto simp: handle_Refresh_def reply_error_def reply_auth_error_def Let_def session_start
        split: handler_cases dest: services_run(3))
  show "handle_Logout env app r who w = (rp, w') \<Longrightarrow> session_run (w_db w) (w_db w')"
    by (auto simp: handle_Logout_def reply_error_def reply_auth_error_def Let_def session_start
        split: handler_cases dest: services_run(4))
  show "handle_LogoutAll env app r who w = (rp, w') \<Longrightarrow> session_run (w_db w) (w_db w')"
    by (auto simp: handle_LogoutAll_def reply_error_def reply_auth_error_def Let_def session_start
        split: handler_cases dest: services_run(5))
qed

lemma read_handlers_db:
  "handle_GetTransaction env app r who w = (rp, w') \<Longrightarrow> w_db w' = w_db w"
  "handle_TransactionFilter env app r who w = (rp, w') \<Longrightarrow> w_db w' = w_db w"
  "handle_GetAccount env app r who w = (rp, w') \<Longrightarrow> w_db w' = w_db w"
  "handle_AccountTransactions env app r who w = (rp, w') \<Longrightarrow> w_db w' = w_db w"
  "handle_Health r who w = (rp, w') \<Longrightarrow> w_db w' = w_db w"
  "handle_Readiness checks r who w = (rp, w') \<Longrightarrow> w_db w' = w_db w"
proof -
  show "handle_GetTransaction env app r who w = (rp, w') \<Longrightarrow> w_db w' = w_db w"
    by (auto simp: handle_GetTransaction_def split: handler_cases dest: readers_same_db(1))
  show "handle_TransactionFilter env app r who w = (rp, w') \<Longrightarrow> w_db w' = w_db w"
    by (auto simp: handle_TransactionFilter_def Let_def split: handler_cases dest: readers_same_db(2))
  show "handle_GetAccount env app r who w = (rp, w') \<Longrightarrow> w_db w' = w_db w"
    by (auto simp: handle_GetAccount_def reply_error_def split: handler_cases dest: readers_same_db(3))
  show "handle_AccountTransactions env app r who w = (rp, w') \<Longrightarrow> w_db w' = w_db w"
    by (auto simp: handle_AccountTransactions_def reply_error_def Let_def split: handler_cases
        dest: readers_same_db(4))
  show "handle_Health r who w = (rp, w') \<Longrightarrow> w_db w' = w_db w"
    by (simp add: handle_Health_def)
  show "handle_Readiness checks r who w = (rp, w') \<Longrightarrow> w_db w' = w_db w"
    using run_checks_db [of checks w] by (auto simp: handle_Readiness_def split: handler_cases bool.splits)
qed

section \<open>Transfers over HTTP\<close>

text \<open>The amount that a body within the limit carries is far from the machine bounds.\<close>

lemma decoded_amount_length:
  assumes "decode_transferDTO env r = Inr dto"
  shows "int (length (dto_Amount dto)) \<le> 3 * maxJSONBodyBytes"
proof -
  from assms obtain v rest where l: "int (length (rq_body r)) \<le> maxJSONBodyBytes"
    and p: "json_parse (rq_body r) = Some (v, rest)"
    and d: "decode_struct (transferDTO_struct env) \<lparr>dto_Receiver_id = uuid_Nil, dto_Amount = []\<rparr> v = Some dto"
    by (auto simp: decode_transferDTO_def DecodeJSON_def split: if_splits option.splits)
  from d consider "v = JNull" "dto = \<lparr>dto_Receiver_id = uuid_Nil, dto_Amount = []\<rparr>"
    | ms where "v = JObject ms"
      "store_members (transferDTO_struct env) ms \<lparr>dto_Receiver_id = uuid_Nil, dto_Amount = []\<rparr> = Some dto"
    by (auto simp: decode_struct_def split: json.splits)
  then show ?thesis
  proof cases
    case 2
    show ?thesis
    proof (rule store_members_keep [OF 2(2), where P = "\<lambda>d. int (length (dto_Amount d)) \<le> 3 * maxJSONBodyBytes"])
      fix k v' f x y
      assume k: "(k, v') \<in> set ms" and f: "f \<in> snd ` set (transferDTO_struct env)" "f v' x = Some y"
        and x: "int (length (dto_Amount x)) \<le> 3 * maxJSONBodyBytes"
      have "int (length t) \<le> 3 * maxJSONBodyBytes" if "v' = JString t" for t
        using json_parse_bound [OF p [unfolded 2(1)], of k t] k that l by simp
      with f x show "int (length (dto_Amount y)) \<le> 3 * maxJSONBodyBytes"
        by (auto simp: transferDTO_struct_def string_field_def text_field_def split: json.splits option.splits)
    qed (simp add: maxJSONBodyBytes_def)
  qed (simp add: maxJSONBodyBytes_def)
qed

lemma decoded_amount_ok:
  "decode_transferDTO env r = Inr dto \<Longrightarrow> NewFromString (dto_Amount dto) = Inr a \<Longrightarrow> dec_int32_ok a"
  using decoded_amount_length [of env r dto]
  by (intro new_from_string_int32 [of "dto_Amount dto"])
    (simp_all add: maxJSONBodyBytes_def MaxInt32_def MaxAbsExponent_def)

text \<open>The request asks for this transfer.\<close>

definition asks_transfer :: "env \<Rightarrow> http_request \<Rightarrow> string \<Rightarrow> uuid \<Rightarrow> transferDTO \<Rightarrow> decimal \<Rightarrow> bool" where
  "asks_transfer env r user s dto a \<longleftrightarrow>
     e_uuid_parse env user = Some s \<and> ValidateIdempotencyKey (idempotency_key r) = None
     \<and> decode_transferDTO env r = Inr dto \<and> NewFromString (dto_Amount dto) = Inr a"

definition transfer_response :: "(error, string) result \<Rightarrow> response" where
  "transfer_response res =
     (case res of
        Inl err \<Rightarrow> transfer_error err json_response
      | Inr i \<Rightarrow> json_or_log 201 (FieldBody ''transaction_id'' i) json_response)"

lemma handle_Transfer_cases:
  assumes "handle_Transfer env app r who w = (rp, w')"
  obtains (refused) code err flag where "w' = w" "rp = WriteError code err flag json_response" "code = 400 \<or> code = 401"
  | (transfer) identity s dto a res where "who = Some identity" "asks_transfer env r (id_UserID identity) s dto a"
      "Transfer env (ap_limits app) s (dto_Receiver_id dto) (idempotency_key r) a w = (res, w')"
      "rp = transfer_response res"
  using assms
  by (auto simp: handle_Transfer_def Let_def uuid_parse_def asks_transfer_def transfer_response_def
      split: option.splits sum.splits prod.splits)

section \<open>One request\<close>

text \<open>A handler that only makes session events happen; all but the one of transfers do.\<close>

definition keeps_to_sessions :: "handler \<Rightarrow> bool" where
  "keeps_to_sessions h \<longleftrightarrow> (\<forall>r who w. session_run (w_db w) (w_db (snd (h r who w))))"

lemma keeps_to_sessionsI:
  "(\<And>r who w rp w'. h r who w = (rp, w') \<Longrightarrow> session_run (w_db w) (w_db w')) \<Longrightarrow> keeps_to_sessions h"
  unfolding keeps_to_sessions_def by (metis prod.collapse)

lemma quiet_handlers_keep:
  "(\<And>r who w rp w'. h r who w = (rp, w') \<Longrightarrow> w_db w' = w_db w) \<Longrightarrow> keeps_to_sessions h"
  by (rule keeps_to_sessionsI) (metis session_start)

lemmas handlers_keep =
  auth_handlers_run [THEN keeps_to_sessionsI] read_handlers_db [THEN quiet_handlers_keep]

lemma Middleware_keeps:
  assumes "keeps_to_sessions h"
  shows "keeps_to_sessions (Middleware env app h)"
proof (rule keeps_to_sessionsI)
  fix r who w rp w' assume "Middleware env app h r who w = (rp, w')"
  then show "session_run (w_db w) (w_db w')"
  proof (cases rule: Middleware_cases)
    case (refused m)
    then show ?thesis by (simp add: same_stores_def session_start)
  next
    case (passed claims w1)
    with assms authenticated_stores [OF passed(1)] show ?thesis
      unfolding keeps_to_sessions_def same_stores_def by (metis snd_conv)
  qed
qed

lemma endpoints_keep: "e \<noteq> ETransfer \<Longrightarrow> keeps_to_sessions (endpoint_handler env app checks e)"
  by (cases e) (simp_all add: handlers_keep Middleware_keeps)

lemma serve_http_cases:
  assumes "serve_http env app checks r w = (rp, w')"
  obtains (session) "session_run (w_db w) (w_db w')"
  | (transfer) claims w1 s dto a res where "find_route r = Some ETransfer"
      "authenticated env app r w claims w1" "asks_transfer env r (jc_UserID claims) s dto a"
      "Transfer env (ap_limits app) s (dto_Receiver_id dto) (idempotency_key r) a w1 = (res, w')"
      "rp = transfer_response res"
proof (cases "find_route r = Some ETransfer")
  case False
  have "session_run (w_db w) (w_db w')"
  proof (cases "find_route r")
    case None
    with assms show ?thesis by (simp add: serve_http_def session_start)
  next
    case (Some e)
    with assms False have "endpoint_handler env app checks e r None w = (rp, w')" "e \<noteq> ETransfer"
      by (auto simp: serve_http_def)
    with endpoints_keep show ?thesis unfolding keeps_to_sessions_def by (metis snd_conv)
  qed
  then show ?thesis by (rule session)
next
  case True
  have quiet: thesis if "w_db w' = w_db w" using session that by (simp add: session_start)
  from assms True have "Middleware env app (handle_Transfer env app) r None w = (rp, w')" by (simp add: serve_http_def)
  then show ?thesis
  proof (cases rule: Middleware_cases)
    case (refused m)
    then show ?thesis by (intro quiet) (simp add: same_stores_def)
  next
    case (passed claims w1)
    from passed(2) show ?thesis
    proof (cases rule: handle_Transfer_cases)
      case (refused code err flag)
      with authenticated_stores [OF passed(1)] show ?thesis by (intro quiet) (simp add: same_stores_def)
    next
      case (transfer identity s dto a res)
      with passed(1) True show ?thesis by (intro that(2)) (auto simp: identity_of_def)
    qed
  qed
qed

end
