(* ===== verification/Call_Count.thy ===== *)
theory Call_Count
  imports Http_Frame
begin

text \<open>
  How many external calls (statements, commits, Redis commands, clock readings, random ids, hashes)
  the program makes at most, whatever they answer. \<open>calls n f\<close>: the computation \<open>f\<close> makes at
  most \<open>n\<close> of them from every state; the rules in \<open>call_intros\<close> add the bounds up along the code.
\<close>

definition calls :: "nat \<Rightarrow> ('z world_scheme, 'e, 'a) go \<Rightarrow> bool" where
  "calls n f \<longleftrightarrow> (\<forall>w. w_tick w \<le> w_tick (snd (f w)) \<and> w_tick (snd (f w)) \<le> w_tick w + n)"

named_theorems call_intros

lemma callsI: "(\<And>w. w_tick w \<le> w_tick (snd (f w)) \<and> w_tick (snd (f w)) \<le> w_tick w + n) \<Longrightarrow> calls n f"
  by (simp add: calls_def)

lemma callsD: "calls n f \<Longrightarrow> f w = (r, w') \<Longrightarrow> w_tick w \<le> w_tick w' \<and> w_tick w' \<le> w_tick w + n"
  by (metis calls_def snd_conv)

lemma calls_le: "calls m f \<Longrightarrow> m \<le> n \<Longrightarrow> calls n f"
  unfolding calls_def by (meson add_left_mono order_trans)

section \<open>Rules\<close>

lemma calls_pure [call_intros]: "calls 0 (returnE x)" "calls 0 (failE e)" "calls 0 (liftR r)"
  by (simp_all add: calls_def liftR_def)

lemma calls_bindE [call_intros]:
  assumes "calls a f" "\<And>x. calls b (g x)"
  shows "calls (a + b) (bindE f g)"
proof (rule callsI)
  fix w
  obtain r w1 where f: "f w = (r, w1)" by force
  show "w_tick w \<le> w_tick (snd (bindE f g w)) \<and> w_tick (snd (bindE f g w)) \<le> w_tick w + (a + b)"
  proof (cases r)
    case (Inr x)
    with f callsD [OF assms(1) f] assms(2) [of x, unfolded calls_def, rule_format, of w1] show ?thesis by simp
  qed (use callsD [OF assms(1) f] f in simp)
qed

lemma calls_catchE [call_intros]:
  assumes "calls a f" "\<And>e. calls b (h e)"
  shows "calls (a + b) (catchE f h)"
proof (rule callsI)
  fix w
  obtain r w1 where f: "f w = (r, w1)" by force
  show "w_tick w \<le> w_tick (snd (catchE f h w)) \<and> w_tick (snd (catchE f h w)) \<le> w_tick w + (a + b)"
  proof (cases r)
    case (Inl e)
    with f callsD [OF assms(1) f] assms(2) [of e, unfolded calls_def, rule_format, of w1] show ?thesis
      by (simp add: catchE_def)
  qed (use callsD [OF assms(1) f] f in \<open>simp add: catchE_def\<close>)
qed

lemma calls_mapErr [call_intros]: "calls n f \<Longrightarrow> calls n (mapErr m f)"
  by (simp add: calls_def)

lemma calls_if [call_intros]: "calls a f \<Longrightarrow> calls b g \<Longrightarrow> calls (max a b) (if c then f else g)"
  by (auto elim: calls_le)

lemma calls_option [call_intros]:
  "calls a f \<Longrightarrow> (\<And>x. calls b (g x)) \<Longrightarrow> calls (max a b) (case r of None \<Rightarrow> f | Some x \<Rightarrow> g x)"
  by (metis calls_le max.cobounded1 max.cobounded2 option.case option.exhaust)

lemma calls_split [call_intros]: "(\<And>x y. calls n (f x y)) \<Longrightarrow> calls n (case p of (x, y) \<Rightarrow> f x y)"
  by (cases p) simp

text \<open>The calls themselves.\<close>

lemma calls_sql [call_intros]: "calls 1 (sql env stmt)"
  by (rule callsI) (simp add: sql_def split: option.split sum.split prod.split)

lemma calls_Commit [call_intros]: "calls 1 (Commit env)"
  by (rule callsI) (simp add: Commit_def split: option.split commit_outcome.split)

lemma calls_redis_call [call_intros]: "calls 1 (redis_call env f)"
  by (rule callsI) (simp add: redis_call_def split: option.split prod.split)

lemma calls_external [call_intros]: "calls 1 (gen_uuid env)" "calls 1 (hash_password env p)"
  by (rule callsI, simp add: gen_uuid_def new_uuid_def hash_password_def)+

lemma calls_with_tx [call_intros]:
  fixes body :: "('z, 'a) io"
  assumes "calls n body"
  shows "calls (1 + n) (with_tx env wrap body)"
proof (rule callsI)
  fix w :: "'z world_scheme"
  obtain q w1 where n: "NewTX env w = (q, w1)" by force
  then have 1: "w_tick w1 = w_tick w + 1" by (auto simp: NewTX_def split: option.splits)
  obtain r w2 where b: "body w1 = (r, w2)" by force
  from n 1 b callsD [OF assms b] show "w_tick w \<le> w_tick (snd (with_tx env wrap body w))
      \<and> w_tick (snd (with_tx env wrap body w)) \<le> w_tick w + (1 + n)"
    by (cases q) (simp_all add: with_tx_def)
qed

lemma calls_now [call_intros]:
  fixes f :: "time \<Rightarrow> ('z, 'a) io"
  assumes "\<And>now. calls n (f now)"
  shows "calls (1 + n) (\<lambda>w. case now_nano env w of (now, w1) \<Rightarrow> f now w1)"
proof (rule callsI)
  fix w :: "'z world_scheme"
  show "w_tick w \<le> w_tick (snd (case now_nano env w of (now, w1) \<Rightarrow> f now w1))
      \<and> w_tick (snd (case now_nano env w of (now, w1) \<Rightarrow> f now w1)) \<le> w_tick w + (1 + n)"
    using assms [of "e_clock env (w_tick w)", unfolded calls_def, rule_format, of "tick w"]
    by (simp add: now_nano_def)
qed

section \<open>The limiter and the tokens\<close>

lemma calls_checkWindow [call_intros]: "calls 3 (checkWindow env ident limit window suffix :: ('z, unit) io)"
proof (rule callsI)
  fix w :: "'z world_scheme"
  let ?body = "\<lambda>now requestID. bindE (mapErr (Wrapped ''lua script'') (redis_call env
      (\<lambda>srv. rateLimitScript srv (rate_key ident suffix) now window limit requestID)))
    (\<lambda>allowed. if allowed = 0 then failE (Sentinel ErrRateLimited) else returnE ()) :: ('z, unit) io"
  have "calls 1 (?body now requestID)" for now requestID
    by (rule calls_le, (rule call_intros)+) simp
  from this [unfolded calls_def, rule_format, where w = "tick (tick w)"]
  show "w_tick w \<le> w_tick (snd (checkWindow env ident limit window suffix w))
      \<and> w_tick (snd (checkWindow env ident limit window suffix w)) \<le> w_tick w + 3"
    by (simp add: checkWindow_def now_nano_def Let_def eval_nat_numeral) (meson Suc_leD)
qed

lemma calls_CheckRateLimit [call_intros]:
  "calls 9 (CheckRateLimit env cfg ident)" "calls 9 (checkRateLimit env cfg op ident)"
  unfolding CheckRateLimit_def checkRateLimit_def
  by (rule calls_le, (rule call_intros)+, simp)+

lemma calls_GenerateTokenPair [call_intros]: "calls 2 (GenerateTokenPair env m u r)"
  by (rule callsI) (simp add: GenerateTokenPair_def now_nano_def new_uuid_def split: sum.split)

lemma calls_Validate [call_intros]:
  "calls 1 (ValidateRefreshToken env m t)" "calls 1 (ValidateAccessToken env m t)"
proof -
  have p: "calls 1 (jwt_parse env m k t)" for k
    by (rule callsI) (simp add: jwt_parse_def now_nano_def split: sum.split jwt_error.split)
  show "calls 1 (ValidateRefreshToken env m t)" "calls 1 (ValidateAccessToken env m t)"
    unfolding ValidateRefreshToken_def ValidateAccessToken_def
    by (rule calls_le, (rule call_intros p)+, simp)+
qed

section \<open>The services\<close>

lemma calls_select_row [call_intros]: "calls 1 (select_row env q scan)"
  unfolding select_row_def by (rule calls_le, (rule call_intros)+, simp)

lemma calls_accounts [call_intros]:
  "calls 1 (acc_Create env acc)" "calls 1 (acc_GetById env i)" "calls 1 (acc_GetByEmail env email)"
  "calls 1 (acc_Sub env i a)" "calls 1 (acc_Add env i a)" "calls 1 (acc_LockForTransfer env i j)"
  unfolding acc_Create_def acc_GetById_def acc_GetByEmail_def acc_Sub_def acc_Add_def acc_LockForTransfer_def
  by (rule calls_le, (rule call_intros)+, simp)+

lemma calls_transactions [call_intros]:
  "calls 1 (tx_Transaction env x)" "calls 1 (tx_UpdateStatus env x st)" "calls 1 (tx_GetByID env i)"
  "calls 1 (tx_TotalTransactions env i)" "calls 1 (tx_TryCreateIdempotency env rec)"
  "calls 1 (tx_GetIdempotency env i k)" "calls 1 (tx_CompleteIdempotency env i k j)" "calls 1 (tx_GetTransactions env flt)"
  unfolding tx_Transaction_def tx_UpdateStatus_def tx_GetByID_def tx_TotalTransactions_def tx_TryCreateIdempotency_def
    tx_GetIdempotency_def tx_CompleteIdempotency_def tx_GetTransactions_def
  by (rule calls_le, (rule call_intros)+, simp)+

lemma calls_tokens [call_intros]:
  "calls 1 (tok_SaveRefreshToken env j u f e)" "calls 1 (tok_GetRefreshToken env j)"
  "calls 1 (tok_RevokeRefreshToken env j)" "calls 1 (tok_RevokeAllUserTokens env u)" "calls 1 (tok_RevokeTokenFamily env f)"
  unfolding tok_SaveRefreshToken_def tok_GetRefreshToken_def tok_RevokeRefreshToken_def
    tok_RevokeAllUserTokens_def tok_RevokeTokenFamily_def
  by (rule calls_le, (rule call_intros)+, simp)+

lemma calls_readers:
  "calls 12 (GetTransaction env cfg i u k)" "calls 12 (GetTransactionFilter env cfg flt u k)"
  "calls 12 (GetAccount env cfg i)" "calls 13 (TransactionHistory env cfg i l off)"
  unfolding GetTransaction_def GetTransactionFilter_def GetAccount_def TransactionHistory_def
  by (rule calls_le, (rule call_intros)+, simp)+

lemma calls_auth_parts [call_intros]:
  "calls 3 (loadAccountForLogin env email)" "calls 3 (saveRefreshSession env pair u f)" "calls 2 (revokeFamilyAfterReuse env f)"
  unfolding loadAccountForLogin_def saveRefreshSession_def revokeFamilyAfterReuse_def
  by (rule calls_le, (rule call_intros)+, simp)+

lemma calls_refreshBody [call_intros]: "calls 8 (refreshBody env m claims)"
  unfolding refreshBody_def by (rule calls_le, (rule call_intros)+, simp)

lemma calls_logoutBody [call_intros]: "calls 3 (logoutBody env claims)"
  unfolding logoutBody_def by (rule calls_le, (rule call_intros)+, simp)

lemma calls_auth:
  "calls 14 (Register env cfg email pw name ip)" "calls 18 (Login env cfg m email pw ip)"
  "calls 19 (Refresh env cfg m t ip)" "calls 14 (Logout env cfg m t ip)" "calls 3 (LogoutAll env u)"
  unfolding Register_def Login_def Refresh_def Logout_def LogoutAll_def Let_def
  by (rule calls_le, (rule call_intros)+, simp)+

section \<open>The transfer and its retries\<close>

lemma calls_rate_flag [call_intros]: "calls 0 (\<lambda>w'. (Inr (), w'\<lparr>rateLimitChecked := True\<rparr>))"
  by (simp add: calls_def)

lemma calls_checkRateOnce [call_intros]: "calls 9 (checkRateOnce env cfg cmd)"
proof -
  have "calls 9 (bindE (CheckRateLimit env cfg k) (\<lambda>_ w'. (Inr (), w'\<lparr>rateLimitChecked := True\<rparr>)))" for k
    by (rule calls_le, (rule call_intros)+) simp
  then show ?thesis by (auto simp: calls_def checkRateOnce_def)
qed

lemma calls_fresh_id [call_intros]: "calls 1 (\<lambda>w. case new_uuid env w of (g, w') \<Rightarrow> (Inr g, w'))"
  by (simp add: calls_def new_uuid_def)

lemma calls_transfer_parts [call_intros]:
  "calls 2 (resolveIdempotency env cmd)" "calls 5 (executeTransfer env cmd)"
  unfolding resolveIdempotency_def executeTransfer_def Let_def
  by (rule calls_le, (rule call_intros)+, simp)+

lemma calls_transferAttempt [call_intros]: "calls 20 (transferAttempt env cfg cmd)"
  unfolding transferAttempt_def by (rule calls_le, (rule call_intros)+, simp)

text \<open>Each attempt that is repeated is followed by one delay.\<close>

lemma calls_transferLoop:
  "1 \<le> attempt \<Longrightarrow> attempt \<le> transferMaxAttempts \<Longrightarrow>
     w_tick (snd (transferLoop env cfg cmd attempt w)) + 1 \<le> w_tick w + 21 * nat (transferMaxAttempts + 1 - attempt)
     \<and> w_tick w \<le> w_tick (snd (transferLoop env cfg cmd attempt w))"
proof (induction env cfg cmd attempt w rule: transferLoop.induct)
  case (1 env cfg cmd attempt w)
  obtain r w1 where a: "transferAttempt env cfg cmd w = (r, w1)" by force
  note le = callsD [OF calls_transferAttempt a]
  have n: "nat (transferMaxAttempts + 1 - attempt) = Suc (nat (transferMaxAttempts - attempt))"
    using "1.prems" by simp
  show ?case
  proof (cases "\<exists>err. r = Inl err \<and> isRetryablePostgresError err \<and> attempt \<noteq> transferMaxAttempts \<and> \<not> e_done env (w_tick w1)")
    case True
    then obtain err where t: "r = Inl err" "isRetryablePostgresError err" "attempt \<noteq> transferMaxAttempts" "\<not> e_done env (w_tick w1)" by blast
    have "transferLoop env cfg cmd attempt w = transferLoop env cfg cmd (attempt + 1) (tick w1)"
      using a t "1.prems" by (subst transferLoop.simps) simp
    moreover note "1.IH" [OF "1.prems"(2) a [symmetric] t(1) _ t(4)]
    ultimately show ?thesis using t "1.prems" le n by (simp add: nat_diff_distrib')
  next
    case False
    then have "transferLoop env cfg cmd attempt w = (case r of Inr x \<Rightarrow> (Inr x, w1) | Inl err \<Rightarrow>
        if \<not> isRetryablePostgresError err \<or> attempt = transferMaxAttempts then (Inl err, w1) else (Inl Ctx, tick w1))"
      using a "1.prems" by (subst transferLoop.simps) (auto split: sum.split)
    then have "w_tick w1 \<le> w_tick (snd (transferLoop env cfg cmd attempt w))"
      "w_tick (snd (transferLoop env cfg cmd attempt w)) \<le> w_tick w1 + (if attempt = transferMaxAttempts then 0 else 1)"
      by (auto split: sum.splits)
    moreover have "attempt \<noteq> transferMaxAttempts \<Longrightarrow> 1 \<le> nat (transferMaxAttempts - attempt)" using "1.prems" by simp
    ultimately show ?thesis using le n by (cases "attempt = transferMaxAttempts") simp_all
  qed
qed

lemma calls_Transfer:
  "w_tick w \<le> w_tick (snd (Transfer env cfg s r k a w)) \<and> w_tick (snd (Transfer env cfg s r k a w)) \<le> w_tick w + 62"
  using calls_transferLoop [of 1 env cfg "transferCommandOf env s r k a" "enter_transfer w"]
  by (auto simp: Transfer_def transferMaxAttempts_def leave_transfer_def enter_transfer_def split: option.split prod.split)

section \<open>Requests\<close>

lemma calls_run_checks:
  "w_tick w \<le> w_tick (snd (run_checks cs w)) \<and> w_tick (snd (run_checks cs w)) \<le> w_tick w + length cs"
  by (induction cs w rule: run_checks.induct) (auto split: option.split)

text \<open>\<open>handles n h\<close>: the handler makes at most \<open>n\<close> calls for any request and caller.\<close>

definition handles :: "nat \<Rightarrow> handler \<Rightarrow> bool" where
  "handles n h \<longleftrightarrow> (\<forall>r who w. w_tick w \<le> w_tick (snd (h r who w)) \<and> w_tick (snd (h r who w)) \<le> w_tick w + n)"

lemma handlesI:
  "(\<And>r who w rp w'. h r who w = (rp, w') \<Longrightarrow> w_tick w \<le> w_tick w' \<and> w_tick w' \<le> w_tick w + n) \<Longrightarrow> handles n h"
  unfolding handles_def by (metis prod.collapse)

lemma handles_le: "handles m h \<Longrightarrow> m \<le> n \<Longrightarrow> handles n h"
  unfolding handles_def by (meson add_left_mono order_trans)

lemmas handler_unfolds = reply_error_def reply_auth_error_def Let_def

lemma handles_auth:
  "handles 32 (handle_Register env app)" "handles 18 (handle_Login env app)" "handles 19 (handle_Refresh env app)"
  "handles 14 (handle_Logout env app)" "handles 3 (handle_LogoutAll env app)"
proof -
  show "handles 32 (handle_Register env app)"
    by (rule handlesI) (auto simp: handle_Register_def handler_unfolds split: handler_cases
      dest!: callsD [OF calls_auth(1)] callsD [OF calls_auth(2)])
  show "handles 18 (handle_Login env app)"
    by (rule handlesI) (auto simp: handle_Login_def handler_unfolds split: handler_cases
      dest!: callsD [OF calls_auth(2)])
  show "handles 19 (handle_Refresh env app)"
    by (rule handlesI) (auto simp: handle_Refresh_def handler_unfolds split: handler_cases
      dest!: callsD [OF calls_auth(3)])
  show "handles 14 (handle_Logout env app)"
    by (rule handlesI) (auto simp: handle_Logout_def handler_unfolds split: handler_cases
      dest!: callsD [OF calls_auth(4)])
  show "handles 3 (handle_LogoutAll env app)"
    by (rule handlesI) (auto simp: handle_LogoutAll_def handler_unfolds split: handler_cases
      dest!: callsD [OF calls_auth(5)])
qed

lemma handles_readers:
  "handles 12 (handle_GetTransaction env app)" "handles 12 (handle_TransactionFilter env app)"
  "handles 12 (handle_GetAccount env app)" "handles 13 (handle_AccountTransactions env app)"
  "handles 0 handle_Health" "handles (length checks) (handle_Readiness checks)"
proof -
  show "handles 12 (handle_GetTransaction env app)"
    by (rule handlesI) (auto simp: handle_GetTransaction_def split: handler_cases dest!: callsD [OF calls_readers(1)])
  show "handles 12 (handle_TransactionFilter env app)"
    by (rule handlesI) (auto simp: handle_TransactionFilter_def Let_def split: handler_cases dest!: callsD [OF calls_readers(2)])
  show "handles 12 (handle_GetAccount env app)"
    by (rule handlesI) (auto simp: handle_GetAccount_def reply_error_def split: handler_cases dest!: callsD [OF calls_readers(3)])
  show "handles 13 (handle_AccountTransactions env app)"
    by (rule handlesI) (auto simp: handle_AccountTransactions_def handler_unfolds split: handler_cases
      dest!: callsD [OF calls_readers(4)])
  show "handles 0 handle_Health" by (rule handlesI) (auto simp: handle_Health_def)
  have "run_checks checks w = (b, w') \<Longrightarrow> w_tick w \<le> w_tick w' \<and> w_tick w' \<le> w_tick w + length checks" for w b w'
    using calls_run_checks [of w checks] by simp
  then show "handles (length checks) (handle_Readiness checks)"
    by (intro handlesI) (auto simp: handle_Readiness_def split: prod.splits bool.splits)
qed

lemma handles_Transfer: "handles 62 (handle_Transfer env app)"
proof -
  have "Transfer env cfg s r k a w = (res, w') \<Longrightarrow> w_tick w \<le> w_tick w' \<and> w_tick w' \<le> w_tick w + 62" for cfg s r k a w res w'
    using calls_Transfer [of w env cfg s r k a] by simp
  then show ?thesis
    by (intro handlesI) (auto simp: handle_Transfer_def Let_def split: handler_cases dest!: meta_spec)
qed

lemma handles_Middleware:
  assumes "handles n h"
  shows "handles (1 + n) (Middleware env app h)"
proof (rule handlesI)
  fix r who w rp w' assume "Middleware env app h r who w = (rp, w')"
  then consider "w' = w" | e x where "ValidateAccessToken env (ap_manager app) e w = (x, w')"
    | e c w1 i where "ValidateAccessToken env (ap_manager app) e w = (Inr c, w1)" "h r (Some i) w1 = (rp, w')"
    by (auto simp: Middleware_def split: sum.splits prod.splits if_splits)
  then show "w_tick w \<le> w_tick w' \<and> w_tick w' \<le> w_tick w + (1 + n)"
  proof cases
    case 2
    from callsD [OF calls_Validate(2) this] show ?thesis by simp
  next
    case 3
    from callsD [OF calls_Validate(2) 3(1)] assms [unfolded handles_def, rule_format, of w1 r "Some i"] 3(2) show ?thesis
      by simp
  qed simp
qed

lemma handles_endpoint: "handles (63 + length checks) (endpoint_handler env app checks e)"
proof -
  note m = handles_Middleware [THEN handles_le]
  show ?thesis
    by (cases e)
      (auto intro!: m [OF handles_auth(4)] m [OF handles_auth(5)] m [OF handles_readers(1)] m [OF handles_readers(2)]
        m [OF handles_readers(3)] m [OF handles_readers(4)] m [OF handles_Transfer] handles_readers(5,6) [THEN handles_le]
        handles_auth(1,2,3) [THEN handles_le])
qed

lemma serve_http_calls:
  "w_tick w \<le> w_tick (snd (serve_http env app checks r w))
   \<and> w_tick (snd (serve_http env app checks r w)) \<le> w_tick w + (63 + length checks)"
  using handles_endpoint [of checks env app, unfolded handles_def]
  by (auto simp: serve_http_def split: option.split)

section \<open>Attempts\<close>

text \<open>
  \<open>attempted env cfg cmd w n r w'\<close>: \<open>n\<close> attempts from \<open>w\<close>, one after the other, end with \<open>r\<close> in
  \<open>w'\<close>. Between two of them lies one delay, and only an error of a conflict is followed by another
  attempt or by the end of the context during the delay. Nothing here bounds their number.
\<close>

inductive attempted ::
  "env \<Rightarrow> redis_limits \<Rightarrow> transferCommand \<Rightarrow> transfer_world \<Rightarrow> nat \<Rightarrow> (error, string) result \<Rightarrow> transfer_world \<Rightarrow> bool"
  for env cfg cmd where
  last: "transferAttempt env cfg cmd w = (r, w') \<Longrightarrow> attempted env cfg cmd w 1 r w'"
| given_up: "transferAttempt env cfg cmd w = (Inl err, w1) \<Longrightarrow> isRetryablePostgresError err
     \<Longrightarrow> e_done env (w_tick w1) \<Longrightarrow> attempted env cfg cmd w 1 (Inl Ctx) (tick w1)"
| again: "transferAttempt env cfg cmd w = (Inl err, w1) \<Longrightarrow> isRetryablePostgresError err
     \<Longrightarrow> \<not> e_done env (w_tick w1) \<Longrightarrow> attempted env cfg cmd (tick w1) n r w'
     \<Longrightarrow> attempted env cfg cmd w (Suc n) r w'"

text \<open>A result that calls for no further attempt.\<close>

definition settled :: "(error, string) result \<Rightarrow> bool" where
  "settled r \<longleftrightarrow> (case r of Inl err \<Rightarrow> \<not> isRetryablePostgresError err | Inr _ \<Rightarrow> True)"

lemma settled_simps [simp]: "settled (Inr x)" "settled (Inl err) \<longleftrightarrow> \<not> isRetryablePostgresError err"
  by (simp_all add: settled_def)

lemma transferLoop_attempts:
  "1 \<le> attempt \<Longrightarrow> attempt \<le> transferMaxAttempts \<Longrightarrow> transferLoop env cfg cmd attempt w = (r, w') \<Longrightarrow>
     \<exists>n. attempted env cfg cmd w n r w' \<and> int n \<le> transferMaxAttempts + 1 - attempt
       \<and> (int n = transferMaxAttempts + 1 - attempt \<or> settled r)"
proof (induction env cfg cmd attempt w rule: transferLoop.induct)
  case (1 env cfg cmd attempt w)
  obtain q w1 where a: "transferAttempt env cfg cmd w = (q, w1)" by force
  have loop: "(r, w') = (case q of Inr x \<Rightarrow> (Inr x, w1) | Inl err \<Rightarrow>
      if \<not> isRetryablePostgresError err \<or> attempt = transferMaxAttempts then (Inl err, w1)
      else if e_done env (w_tick w1) then (Inl Ctx, tick w1)
      else transferLoop env cfg cmd (attempt + 1) (tick w1))"
    using "1.prems" a by (subst (asm) transferLoop.simps) (simp split: sum.splits)
  consider (answered) x where "q = Inr x" | (refused) err where "q = Inl err" "\<not> isRetryablePostgresError err"
    | (exhausted) err where "q = Inl err" "isRetryablePostgresError err" "attempt = transferMaxAttempts"
    | (given_up) err where "q = Inl err" "isRetryablePostgresError err" "attempt \<noteq> transferMaxAttempts" "e_done env (w_tick w1)"
    | (again) err where "q = Inl err" "isRetryablePostgresError err" "attempt \<noteq> transferMaxAttempts" "\<not> e_done env (w_tick w1)"
    by (cases q) auto
  then show ?case
  proof cases
    case again
    then have "transferLoop env cfg cmd (attempt + 1) (tick w1) = (r, w')" using loop by simp
    with "1.IH" [OF "1.prems"(2) a [symmetric] again(1) _ again(4)] again "1.prems" obtain n
      where n: "attempted env cfg cmd (tick w1) n r w'" "int n \<le> transferMaxAttempts - attempt"
        "int n = transferMaxAttempts - attempt \<or> settled r" by auto
    from attempted.again [OF a [unfolded again(1)] again(2,4) n(1)] n(2,3) show ?thesis
      by (intro exI [of _ "Suc n"]) auto
  next
    case given_up
    with attempted.given_up [OF a [unfolded given_up(1)] given_up(2,4)] loop "1.prems" show ?thesis
      by (intro exI [of _ 1]) (auto simp: isRetryablePostgresError_def)
  qed (use attempted.last [OF a] loop "1.prems" in \<open>auto intro!: exI [of _ 1]\<close>)
qed

lemma Transfer_attempts:
  assumes "ValidateIdempotencyKey k = None" "IsPositive a" "FitsNumeric a moneyPrecision moneyScale"
  shows "\<exists>n r w'. 1 \<le> n \<and> n \<le> 3
      \<and> attempted env cfg (transferCommandOf env s rc k a) (enter_transfer w) n r w'
      \<and> Transfer env cfg s rc k a w = (r, leave_transfer w') \<and> (n = 3 \<or> settled r)"
proof -
  let ?cmd = "transferCommandOf env s rc k a"
  obtain r w' where l: "transferLoop env cfg ?cmd 1 (enter_transfer w) = (r, w')" by force
  obtain n where n: "attempted env cfg ?cmd (enter_transfer w) n r w'" "int n \<le> 3" "int n = 3 \<or> settled r"
    using transferLoop_attempts [OF _ _ l] by (auto simp: transferMaxAttempts_def)
  from n(1) have "1 \<le> n" by cases simp_all
  with n l assms show ?thesis by (intro exI [of _ n] exI [of _ r] exI [of _ w']) (auto simp: Transfer_def)
qed

lemma serve_all_calls:
  "w_tick (snd (serve_all (serve_http env app checks) rs w)) \<le> w_tick w + (63 + length checks) * length rs"
proof (induction rs arbitrary: w)
  case (Cons r rs)
  obtain rp w1 where s: "serve_http env app checks r w = (rp, w1)" by force
  from serve_http_calls [of w env app checks r] s have "w_tick w1 \<le> w_tick w + (63 + length checks)" by simp
  with Cons.IH [of w1] s show ?case by (auto simp: algebra_simps split: prod.split)
qed simp

section \<open>Property\<close>

text \<open>
  C11: whatever the stores and the clock answer. Every request is answered after at most 63
  external calls and one per readiness check, so a sequence of requests after that many for each.
  A transfer is either refused for its key or amount before any call, or is one to three attempts
  one after the other, each after the first following an error of a conflict and one delay; it ends
  before the third only with a result that calls for no further attempt.
\<close>
theorem requests_answered_in_bounded_calls:
  "w_tick (snd (serve_all (serve_http env app checks) rs w)) \<le> w_tick w + (63 + length checks) * length rs
   \<and> (if ValidateIdempotencyKey k = None \<and> IsPositive a \<and> FitsNumeric a moneyPrecision moneyScale
      then \<exists>n r w'. 1 \<le> n \<and> n \<le> 3
        \<and> attempted env cfg (transferCommandOf env s rc k a) (enter_transfer w) n r w'
        \<and> Transfer env cfg s rc k a w = (r, leave_transfer w') \<and> (n = 3 \<or> settled r)
      else \<exists>err. Transfer env cfg s rc k a w = (Inl err, w))"
proof (cases "ValidateIdempotencyKey k = None \<and> IsPositive a \<and> FitsNumeric a moneyPrecision moneyScale")
  case True
  with serve_all_calls Transfer_attempts [of k a] show ?thesis by simp
next
  case False
  with serve_all_calls show ?thesis by (auto simp: Transfer_def split: option.split)
qed

end
