(* ===== verification/Transfer_Retry.thy ===== *)
theory Transfer_Retry
  imports Transfer_Props Call_Count
begin

text \<open>
  Why \<open>Transfer\<close> retries: one serialization failure or deadlock, wherever it strikes, is made up
  for by the next attempt. \<open>resumes t f g\<close> compares a computation \<open>f\<close> of an environment whose
  only fault is at the call \<open>t\<close> with the same computation \<open>g\<close> without the fault: they agree, or
  the fault was met and \<open>f\<close> ended there with a retryable error.
\<close>

definition retry_code :: "string \<Rightarrow> bool" where
  "retry_code c \<longleftrightarrow> c = ''40001'' \<or> c = ''40P01''"

definition one_fault :: "env \<Rightarrow> nat \<Rightarrow> bool" where
  "one_fault env t \<longleftrightarrow> (\<forall>n. e_redis_fault env n = None)
     \<and> (\<forall>n. n \<noteq> t \<longrightarrow> e_fault env n = None \<and> e_commit env n = CommitOk)
     \<and> (e_fault env t = None \<or> (\<exists>c. retry_code c \<and> e_fault env t = Some (PgError c)))
     \<and> (e_commit env t = CommitOk \<or> (\<exists>c. retry_code c \<and> e_commit env t = CommitLost (PgError c)))"

definition calmed :: "env \<Rightarrow> env" where
  "calmed env = env\<lparr>e_fault := \<lambda>_. None, e_redis_fault := \<lambda>_. None, e_commit := \<lambda>_. CommitOk\<rparr>"

lemma calm_calmed: "calm (calmed env)"
  by (simp add: calm_def calmed_def)

lemma calmed_simps [simp]:
  "e_uuid (calmed env) = e_uuid env" "e_clock (calmed env) = e_clock env" "e_pg_now (calmed env) = e_pg_now env"
  "e_redis_now (calmed env) = e_redis_now env" "e_uuid_text (calmed env) = e_uuid_text env"
  by (simp_all add: calmed_def)

definition retryable :: "(error, 'a) result \<Rightarrow> bool" where
  "retryable r \<longleftrightarrow> (\<exists>e. r = Inl e \<and> isRetryablePostgresError e)"

definition resumes :: "nat \<Rightarrow> ('z, 'a) io \<Rightarrow> ('z, 'a) io \<Rightarrow> bool" where
  "resumes t f g \<longleftrightarrow> (\<forall>w. w_tick w \<le> w_tick (snd (f w))
     \<and> (f w = g w \<or> w_tick w \<le> t \<and> t < w_tick (snd (f w)) \<and> retryable (fst (f w))))"

named_theorems resume_intros

lemma retry_codes: "retry_code c \<Longrightarrow> isRetryablePostgresError (PgError c)"
  by (simp add: isRetryablePostgresError_def retry_code_def)

lemma retryable_Wrapped [simp]: "isRetryablePostgresError (Wrapped m e) = isRetryablePostgresError e"
  by (simp add: isRetryablePostgresError_def)

lemma resumesI:
  "(\<And>w. w_tick w \<le> w_tick (snd (f w))) \<Longrightarrow>
   (\<And>w. f w = g w \<or> w_tick w \<le> t \<and> t < w_tick (snd (f w)) \<and> retryable (fst (f w))) \<Longrightarrow> resumes t f g"
  by (simp add: resumes_def)

lemma resumesD:
  "resumes t f g \<Longrightarrow> f w = (r, w') \<Longrightarrow> w_tick w \<le> w_tick w'
     \<and> (g w = (r, w') \<or> w_tick w \<le> t \<and> t < w_tick w' \<and> retryable r)"
  by (metis resumes_def fst_conv snd_conv)

lemma resumes_same: "calls n f \<Longrightarrow> resumes t f f"
  by (simp add: calls_def resumes_def)

lemma resumes_bindE [resume_intros]:
  assumes "resumes t f f'" "\<And>x. resumes t (g x) (g' x)"
  shows "resumes t (bindE f g) (bindE f' g')"
proof (rule resumesI)
  fix w
  obtain r w1 where f: "f w = (r, w1)" by force
  note f1 = resumesD [OF assms(1) f]
  have "w_tick w \<le> w_tick (snd (bindE f g w)) \<and> (bindE f g w = bindE f' g' w
      \<or> w_tick w \<le> t \<and> t < w_tick (snd (bindE f g w)) \<and> retryable (fst (bindE f g w)))"
  proof (cases r)
    case (Inl e)
    with f f1 show ?thesis by (auto simp: retryable_def)
  next
    case (Inr x)
    obtain q w2 where g: "g x w1 = (q, w2)" by force
    from f f1 Inr g resumesD [OF assms(2) g] show ?thesis by (auto simp: retryable_def)
  qed
  then show "w_tick w \<le> w_tick (snd (bindE f g w))" "bindE f g w = bindE f' g' w
      \<or> w_tick w \<le> t \<and> t < w_tick (snd (bindE f g w)) \<and> retryable (fst (bindE f g w))" by auto
qed

lemma resumes_catchE:
  assumes "resumes t f f'" "\<And>e. resumes t (h e) (h' e)"
    "\<And>e w. isRetryablePostgresError e \<Longrightarrow> \<exists>e'. h e w = (Inl e', w) \<and> isRetryablePostgresError e'"
  shows "resumes t (catchE f h) (catchE f' h')"
proof (rule resumesI)
  fix w
  obtain r w1 where f: "f w = (r, w1)" by force
  note f1 = resumesD [OF assms(1) f]
  have "w_tick w \<le> w_tick (snd (catchE f h w)) \<and> (catchE f h w = catchE f' h' w
      \<or> w_tick w \<le> t \<and> t < w_tick (snd (catchE f h w)) \<and> retryable (fst (catchE f h w)))"
  proof (cases r)
    case (Inr x)
    with f f1 show ?thesis by (auto simp: retryable_def catchE_def)
  next
    case (Inl e)
    obtain q w2 where h: "h e w1 = (q, w2)" by force
    from f f1 Inl h resumesD [OF assms(2) h] assms(3) [of e w1] show ?thesis
      by (auto simp: retryable_def catchE_def)
  qed
  then show "w_tick w \<le> w_tick (snd (catchE f h w))" "catchE f h w = catchE f' h' w
      \<or> w_tick w \<le> t \<and> t < w_tick (snd (catchE f h w)) \<and> retryable (fst (catchE f h w))" by auto
qed

lemma resumes_mapErr [resume_intros]:
  assumes "\<And>e. isRetryablePostgresError e \<Longrightarrow> isRetryablePostgresError (m e)" "resumes t f f'"
  shows "resumes t (mapErr m f) (mapErr m f')"
proof (rule resumesI)
  fix w
  obtain r w1 where f: "f w = (r, w1)" by force
  from f resumesD [OF assms(2) f] assms(1) show "w_tick w \<le> w_tick (snd (mapErr m f w))"
    "mapErr m f w = mapErr m f' w \<or> w_tick w \<le> t \<and> t < w_tick (snd (mapErr m f w)) \<and> retryable (fst (mapErr m f w))"
    by (auto simp: mapErr_def retryable_def split: sum.split)
qed

lemma resumes_split [resume_intros]:
  "(\<And>x y. resumes t (f x y) (g x y)) \<Longrightarrow> resumes t (case p of (x, y) \<Rightarrow> f x y) (case p of (x, y) \<Rightarrow> g x y)"
  by (cases p) simp

lemma resumes_option [resume_intros]:
  "resumes t f f' \<Longrightarrow> (\<And>x. resumes t (g x) (g' x)) \<Longrightarrow>
     resumes t (case r of None \<Rightarrow> f | Some x \<Rightarrow> g x) (case r of None \<Rightarrow> f' | Some x \<Rightarrow> g' x)"
  by (cases r) simp_all

lemma resumes_if [resume_intros]:
  "resumes t f f' \<Longrightarrow> resumes t g g' \<Longrightarrow> resumes t (if c then f else g) (if c then f' else g')"
  by simp

lemma resumes_pure [resume_intros]:
  "resumes t (returnE x) (returnE x)" "resumes t (failE e) (failE e)" "resumes t (liftR r) (liftR r)"
  by (simp_all add: resumes_def liftR_def)

section \<open>The calls that can meet the fault\<close>

lemma one_fault_met:
  assumes "one_fault env t"
  shows "e_fault env n = Some e \<Longrightarrow> n = t \<and> isRetryablePostgresError e"
    "e_commit env n = CommitLost e \<Longrightarrow> n = t \<and> isRetryablePostgresError e"
    "e_commit env n \<noteq> CommitUnknown e" "e_redis_fault env n = None"
  using assms unfolding one_fault_def by (cases "n = t"; auto simp: retry_codes)+

lemma resumes_sql [resume_intros]:
  assumes "one_fault env t"
  shows "resumes t (sql env stmt) (sql (calmed env) stmt)"
  by (rule resumesI) (auto simp: sql_def calmed_def retryable_def split: option.split sum.split
    dest: one_fault_met(1,2) [OF assms])

lemma resumes_Commit [resume_intros]:
  assumes "one_fault env t"
  shows "resumes t (Commit env) (Commit (calmed env))"
  by (rule resumesI) (auto simp: Commit_def calmed_def retryable_def one_fault_met(3) [OF assms]
    split: option.split commit_outcome.split dest: one_fault_met(1,2) [OF assms])

lemma resumes_with_tx [resume_intros]:
  assumes "one_fault env t" "resumes t f g"
  shows "resumes t (with_tx env (\<lambda>e. e) f) (with_tx (calmed env) (\<lambda>e. e) g)"
proof (rule resumesI)
  fix w
  show "w_tick w \<le> w_tick (snd (with_tx env (\<lambda>e. e) f w))"
    "with_tx env (\<lambda>e. e) f w = with_tx (calmed env) (\<lambda>e. e) g w \<or> w_tick w \<le> t
       \<and> t < w_tick (snd (with_tx env (\<lambda>e. e) f w)) \<and> retryable (fst (with_tx env (\<lambda>e. e) f w))"
  proof (atomize (full), cases "e_fault env (w_tick w)")
    case (Some e)
    with one_fault_met(1) [OF assms(1) Some] show "w_tick w \<le> w_tick (snd (with_tx env (\<lambda>e. e) f w))
      \<and> (with_tx env (\<lambda>e. e) f w = with_tx (calmed env) (\<lambda>e. e) g w \<or> w_tick w \<le> t
       \<and> t < w_tick (snd (with_tx env (\<lambda>e. e) f w)) \<and> retryable (fst (with_tx env (\<lambda>e. e) f w)))"
      by (simp add: with_tx_def NewTX_def retryable_def)
  next
    case None
    let ?w1 = "(tick w)\<lparr>w_tx := Some \<lparr>t_db = w_db w, t_now = e_pg_now env (w_tick w), t_aborted = False\<rparr>\<rparr>"
    obtain r w2 where f: "f ?w1 = (r, w2)" by force
    from resumesD [OF assms(2) f] f None show "w_tick w \<le> w_tick (snd (with_tx env (\<lambda>e. e) f w))
      \<and> (with_tx env (\<lambda>e. e) f w = with_tx (calmed env) (\<lambda>e. e) g w \<or> w_tick w \<le> t
       \<and> t < w_tick (snd (with_tx env (\<lambda>e. e) f w)) \<and> retryable (fst (with_tx env (\<lambda>e. e) f w)))"
      by (auto simp: with_tx_def NewTX_def calmed_def)
  qed
qed

lemma redis_calmed: "one_fault env t \<Longrightarrow> redis_call (calmed env) f = redis_call env f"
  by (rule ext) (simp add: redis_call_def one_fault_met(4), simp add: calmed_def)

lemma CheckRateLimit_calmed: "one_fault env t \<Longrightarrow> CheckRateLimit (calmed env) cfg i = CheckRateLimit env cfg i"
  by (simp add: CheckRateLimit_def checkWindow_def [abs_def] redis_calmed now_nano_def)

section \<open>An attempt\<close>

lemma retryable_is_row: "isRetryablePostgresError e \<Longrightarrow> \<not> errors_is e NoRows"
  by (induction e) (auto simp: isRetryablePostgresError_def)

lemma resumes_repo [resume_intros]:
  assumes "one_fault env t"
  shows "resumes t (tx_TryCreateIdempotency env rec) (tx_TryCreateIdempotency (calmed env) rec)"
    "resumes t (tx_GetIdempotency env i k) (tx_GetIdempotency (calmed env) i k)"
    "resumes t (acc_LockForTransfer env i j) (acc_LockForTransfer (calmed env) i j)"
    "resumes t (acc_Sub env i a) (acc_Sub (calmed env) i a)" "resumes t (acc_Add env i a) (acc_Add (calmed env) i a)"
    "resumes t (tx_Transaction env x) (tx_Transaction (calmed env) x)"
    "resumes t (tx_UpdateStatus env x st) (tx_UpdateStatus (calmed env) x st)"
    "resumes t (tx_CompleteIdempotency env i k j) (tx_CompleteIdempotency (calmed env) i k j)"
  unfolding tx_TryCreateIdempotency_def tx_GetIdempotency_def acc_LockForTransfer_def acc_Sub_def acc_Add_def
    tx_Transaction_def tx_UpdateStatus_def tx_CompleteIdempotency_def select_row_def
  by (intro resumes_catchE resume_intros assms; simp add: retryable_is_row)+

lemma resumes_parts [resume_intros]:
  assumes "one_fault env t"
  shows "resumes t (resolveIdempotency env cmd) (resolveIdempotency (calmed env) cmd)"
    "resumes t (executeTransfer env cmd) (executeTransfer (calmed env) cmd)"
proof -
  show "resumes t (resolveIdempotency env cmd) (resolveIdempotency (calmed env) cmd)"
    unfolding resolveIdempotency_def Let_def by (intro resume_intros assms)
  have new: "(\<lambda>w. case new_uuid (calmed env) w of (g, w') \<Rightarrow> (Inr g, w')) = (\<lambda>w. case new_uuid env w of (g, w') \<Rightarrow> (Inr g, w'))"
    by (simp add: new_uuid_def)
  show "resumes t (executeTransfer env cmd) (executeTransfer (calmed env) cmd)"
    unfolding executeTransfer_def new by (intro resume_intros assms resumes_same [OF calls_fresh_id])
qed

lemma resumes_checkRateOnce [resume_intros]:
  assumes "one_fault env t"
  shows "resumes t (checkRateOnce env cfg cmd) (checkRateOnce (calmed env) cfg cmd)"
proof -
  have "checkRateOnce (calmed env) cfg cmd = checkRateOnce env cfg cmd"
    by (rule ext) (simp add: checkRateOnce_def CheckRateLimit_calmed [OF assms])
  then show ?thesis using resumes_same [OF calls_checkRateOnce] by simp
qed

lemma resumes_attempt:
  "one_fault env t \<Longrightarrow> resumes t (transferAttempt env cfg cmd) (transferAttempt (calmed env) cfg cmd)"
  unfolding transferAttempt_def calmed_simps by (intro resume_intros)

section \<open>The limiter is asked once\<close>

text \<open>
  An attempt that is going to be repeated has either asked the limiter and been admitted, which
  the flag remembers, or left the limiter and the flag alone.
\<close>

definition same_limits :: "transfer_world \<Rightarrow> transfer_world \<Rightarrow> bool" where
  "same_limits w w' \<longleftrightarrow> w_redis w' = w_redis w \<and> rateLimitChecked w' = rateLimitChecked w"

lemma same_limits_refl_trans [inv_intros]: "reflp same_limits" "transp same_limits"
  by (auto simp: same_limits_def reflp_def transp_def)

lemma same_limits_calls [inv_intros]: "stays same_limits (sql env stmt)" "stays same_limits (Commit env)"
  by (auto intro!: staysI simp: sql_def Commit_def same_limits_def tick_def split: option.split sum.split commit_outcome.split)

lemma same_limits_new_id [inv_intros]: "stays same_limits (\<lambda>w. case new_uuid env w of (g, w') \<Rightarrow> (Inr g, w'))"
  by (rule staysI) (simp add: new_uuid_def same_limits_def tick_def)

lemma same_limits_parts [inv_intros]:
  "stays same_limits (acc_LockForTransfer env i j)" "stays same_limits (resolveIdempotency env cmd)"
  "stays same_limits (executeTransfer env cmd)" "stays same_limits (tx_CompleteIdempotency env i k j)"
  unfolding resolveIdempotency_def executeTransfer_def repo_defs Let_def by (intro inv_intros)+

definition asks_once :: "(transfer_world, error, 'a) go \<Rightarrow> bool" where
  "asks_once f \<longleftrightarrow> (\<forall>w. rateLimitChecked (snd (f w)) \<or> same_limits w (snd (f w))
     \<or> (\<exists>e. fst (f w) = Inl e \<and> \<not> isRetryablePostgresError e))"

lemma asks_once_same: "stays same_limits f \<Longrightarrow> asks_once f"
  by (simp add: asks_once_def stays_def)

lemma asks_once_bindE:
  assumes "asks_once f" "\<And>x. asks_once (g x)"
  shows "asks_once (bindE f g)"
  unfolding asks_once_def
proof
  fix w
  obtain r w1 where f: "f w = (r, w1)" by force
  show "rateLimitChecked (snd (bindE f g w)) \<or> same_limits w (snd (bindE f g w))
      \<or> (\<exists>e. fst (bindE f g w) = Inl e \<and> \<not> isRetryablePostgresError e)"
  proof (cases r)
    case (Inl e)
    with assms(1) [unfolded asks_once_def, rule_format, of w] f show ?thesis by simp
  next
    case (Inr x)
    with assms(1) [unfolded asks_once_def, rule_format, of w] assms(2) [of x, unfolded asks_once_def, rule_format, of w1] f
    show ?thesis by (auto simp: same_limits_def)
  qed
qed

lemma asks_once_checkRateOnce: "asks_once (checkRateOnce env cfg cmd)"
  unfolding asks_once_def
proof
  fix w :: transfer_world
  obtain q w1 where "CheckRateLimit env cfg (e_uuid_text env (c_SenderID cmd)) w = (q, w1)" by force
  then show "rateLimitChecked (snd (checkRateOnce env cfg cmd w)) \<or> same_limits w (snd (checkRateOnce env cfg cmd w))
      \<or> (\<exists>e. fst (checkRateOnce env cfg cmd w) = Inl e \<and> \<not> isRetryablePostgresError e)"
    using CheckRateLimit_no_pg [of env cfg "e_uuid_text env (c_SenderID cmd)" w _ w1]
    by (cases q) (auto simp: checkRateOnce_def bindE_def isRetryablePostgresError_def)
qed

lemma asks_once_with_tx:
  assumes "asks_once f"
  shows "asks_once (with_tx env wrap f)"
  unfolding asks_once_def
proof
  fix w :: transfer_world
  obtain q w1 where n: "NewTX env w = (q, w1)" by force
  then have "same_limits w w1" by (auto simp: NewTX_def same_limits_def tick_def split: option.splits)
  moreover obtain r w2 where f: "f w1 = (r, w2)" by force
  ultimately show "rateLimitChecked (snd (with_tx env wrap f w)) \<or> same_limits w (snd (with_tx env wrap f w))
      \<or> (\<exists>e. fst (with_tx env wrap f w) = Inl e \<and> \<not> isRetryablePostgresError e)"
    using assms [unfolded asks_once_def, rule_format, of w1] n
    by (cases q) (auto simp: with_tx_def same_limits_def Rollback_def)
qed

lemma asks_once_cases:
  "asks_once f \<Longrightarrow> asks_once g \<Longrightarrow> asks_once (if c then f else g)"
  "asks_once f \<Longrightarrow> (\<And>x. asks_once (h x)) \<Longrightarrow> asks_once (case r of None \<Rightarrow> f | Some x \<Rightarrow> h x)"
  by (simp, cases r, simp_all)

lemma asks_once_attempt: "asks_once (transferAttempt env cfg cmd)"
  unfolding transferAttempt_def
  by (rule asks_once_with_tx asks_once_cases asks_once_bindE asks_once_checkRateOnce
      | (rule asks_once_same, (intro inv_intros)[1]))+

section \<open>Property\<close>

lemma attempt_db:
  assumes "transferAttempt env cfg cmd w = (Inl e, w')" "db_inv (w_db w)" "command_ok cmd" "length (c_Key cmd) \<le> 128"
    "\<And>n e. e_commit env n \<noteq> CommitUnknown e"
  shows "w_db w' = w_db w"
  using attempt_is_ledger_step [OF assms(1-4)] assms(5) by (auto elim: ledger_step_errorE)

lemma verdict_holds_calmed: "verdict_holds (calmed env) cmd d v r d' = verdict_holds env cmd d v r d'"
  by (simp add: verdict_holds_def split: sum.split option.split)

text \<open>An attempt without a fault decides by the table, whatever was counted before.\<close>

lemma calm_attempt_decides:
  assumes f: "one_fault env t" and inv: "db_inv (w_db w)" "command_ok cmd" "length (c_Key cmd) \<le> 128"
    and fresh: "\<And>n. \<exists>i. e_uuid env n = Inr i \<and> i \<notin> set (map tr_id (transactions (w_db w)))"
    and admits: "\<And>n. fst (CheckRateLimit env cfg (e_uuid_text env (c_SenderID cmd)) (w\<lparr>w_tick := n\<rparr>)) = Inr ()"
    and u: "w_db u = w_db w" "rateLimitChecked u \<or> same_limits w u"
  shows "verdict_holds env cmd (w_db w) (transfer_verdict cmd (Inr ()) (w_db w))
    (fst (transferAttempt (calmed env) cfg cmd u)) (w_db (snd (transferAttempt (calmed env) cfg cmd u)))"
proof -
  have ag: "agree (u\<lparr>w_tick := w_tick u + 3\<rparr>) (w\<lparr>w_tick := w_tick u + 3\<rparr>)" if "same_limits w u"
    using that by (simp add: agree_def same_limits_def)
  have "rate_reply (calmed env) cfg cmd (w_tick u + 3) u = Inr ()"
    using u(2) ag [THEN CheckRateLimit_agree, of env cfg] admits
    by (auto simp: rate_reply_def CheckRateLimit_calmed [OF f])
  from attempt_calm [OF calm_calmed _ inv(2,3) this] inv(1) fresh u(1) show ?thesis
    by (simp add: verdict_holds_calmed)
qed

text \<open>The loop ends with an attempt that met no fault: no verdict is a retryable error.\<close>

lemma loop_ends:
  assumes "transferAttempt env cfg cmd u = transferAttempt (calmed env) cfg cmd u" "n \<le> transferMaxAttempts"
    and holds: "verdict_holds env cmd d (transfer_verdict cmd (Inr ()) d)
      (fst (transferAttempt (calmed env) cfg cmd u)) (w_db (snd (transferAttempt (calmed env) cfg cmd u)))"
  shows "transferLoop env cfg cmd n u = transferAttempt (calmed env) cfg cmd u"
proof (cases "transferAttempt (calmed env) cfg cmd u")
  case (Pair r u')
  then have "\<not> isRetryablePostgresError e" if "r = Inl e" for e
    using holds that verdict_not_retryable [of cmd "Inr ()" d e]
    by (auto simp: verdict_holds_def split: sum.splits option.splits)
  with Pair assms(1,2) show ?thesis
    by (cases r) (simp_all add: transferLoop.simps [of _ _ _ n])
qed

lemma loop_survives:
  assumes f: "one_fault env t" and d: "\<And>n. \<not> e_done env n"
    and inv: "db_inv (w_db w)" "command_ok cmd" "length (c_Key cmd) \<le> 128" and first: "\<not> rateLimitChecked w"
    and fresh: "\<And>n. \<exists>i. e_uuid env n = Inr i \<and> i \<notin> set (map tr_id (transactions (w_db w)))"
    and admits: "\<And>n. fst (CheckRateLimit env cfg (e_uuid_text env (c_SenderID cmd)) (w\<lparr>w_tick := n\<rparr>)) = Inr ()"
    and run: "transferLoop env cfg cmd 1 w = (res, w')"
  shows "verdict_holds env cmd (w_db w) (transfer_verdict cmd (Inr ()) (w_db w)) res (w_db w')"
proof -
  note calm = calm_attempt_decides [OF f inv fresh admits]
  obtain r w1 where a: "transferAttempt env cfg cmd w = (r, w1)" by force
  have one: "1 \<le> transferMaxAttempts" "2 \<le> transferMaxAttempts" "(1::int) \<noteq> transferMaxAttempts"
    by (simp_all add: transferMaxAttempts_def)
  show ?thesis
  proof (cases "transferAttempt env cfg cmd w = transferAttempt (calmed env) cfg cmd w")
    case True
    have "same_limits w w" by (simp add: same_limits_def)
    with loop_ends [OF True one(1)] calm [of w] run show ?thesis by (metis fst_conv snd_conv)
  next
    case False
    with resumesD [OF resumes_attempt [OF f] a] a have hit: "t < w_tick w1" "retryable r" by auto
    then obtain e where e: "r = Inl e" "isRetryablePostgresError e" by (auto simp: retryable_def)
    have db: "w_db w1 = w_db w"
      using attempt_db [of env cfg cmd w e w1] a e inv one_fault_met(3) [OF f] by auto
    have lim: "rateLimitChecked w1 \<or> same_limits w w1"
      using asks_once_attempt [unfolded asks_once_def, rule_format, of env cfg cmd w] a e by simp
    let ?w2 = "tick w1"
    have "transferAttempt env cfg cmd ?w2 = transferAttempt (calmed env) cfg cmd ?w2"
      using resumes_attempt [OF f, of cfg cmd, unfolded resumes_def, rule_format, of ?w2] hit(1) by simp
    moreover have st: "w_db ?w2 = w_db w" "rateLimitChecked ?w2 \<or> same_limits w ?w2"
      using db lim by (auto simp: same_limits_def tick_def)
    ultimately have "transferLoop env cfg cmd 2 ?w2 = transferAttempt (calmed env) cfg cmd ?w2"
      using one(2) calm [OF st] by (intro loop_ends)
    moreover have "transferLoop env cfg cmd 1 w = transferLoop env cfg cmd 2 ?w2"
      using a e one d by (simp add: transferLoop.simps [of _ _ _ 1])
    ultimately show ?thesis using calm [OF st] run by (metis fst_conv snd_conv)
  qed
qed

text \<open>
  C8: a conflict is survived: when one statement, the start or the commit of the transaction
  fails with a serialization failure or a deadlock, at whichever call, and the context does not
  end, the client of an admitted transfer gets the reply of the decision table and the tables
  are those the table says, as if there had been no fault; the money moves once.
\<close>
theorem transfer_survives_conflict:
  assumes "one_fault env t" "\<And>n. \<not> e_done env n" "db_inv (w_db w)"
    "dec_int32_ok a" "IsPositive a" "FitsNumeric a moneyPrecision moneyScale" "ValidateIdempotencyKey k = None"
    "\<And>n. \<exists>i. e_uuid env n = Inr i \<and> i \<notin> set (map tr_id (transactions (w_db w)))"
    "\<And>n. fst (CheckRateLimit env cfg (e_uuid_text env s) (w\<lparr>w_tick := n\<rparr>)) = Inr ()"
    "Transfer env cfg s r k a w = (res, w')"
  shows "verdict_holds env (transferCommandOf env s r k a) (w_db w)
    (transfer_verdict (transferCommandOf env s r k a) (Inr ()) (w_db w)) res (w_db w')"
proof -
  let ?cmd = "transferCommandOf env s r k a" and ?w = "enter_transfer w"
  have ok: "command_ok ?cmd" "length (c_Key ?cmd) \<le> 128"
    using validated_command_ok [OF assms(5,6,4)] assms(7) by (simp_all add: valid_key_iff)
  have "agree (?w\<lparr>w_tick := n\<rparr>) (w\<lparr>w_tick := n\<rparr>)" for n by (simp add: agree_def)
  from this [THEN CheckRateLimit_agree, of env cfg] assms(9) have
    admits: "fst (CheckRateLimit env cfg (e_uuid_text env (c_SenderID ?cmd)) (?w\<lparr>w_tick := n\<rparr>)) = Inr ()" for n
    by simp
  obtain q u where l: "transferLoop env cfg ?cmd 1 ?w = (q, u)" by force
  then have "res = q" "w_db w' = w_db u" using assms(5-7,10) by (auto simp: Transfer_def)
  moreover have "verdict_holds env ?cmd (w_db ?w) (transfer_verdict ?cmd (Inr ()) (w_db ?w)) q (w_db u)"
    using loop_survives [OF assms(1,2) _ ok _ _ admits l] assms(3,8) by simp
  ultimately show ?thesis by simp
qed

definition conflict_env :: env where
  "conflict_env = sample_env\<lparr>e_fault := (\<lambda>n. if n = 16 then Some (PgError ''40P01'') else None)\<rparr>"

theorem transfer_survives_conflict_witness:
  "\<exists>i now w'. Transfer conflict_env sample_limits alice bob ''order-1'' ten (sample_world sample_db) = (Inr (e_uuid_text conflict_env i), w')
     \<and> w_db w' = apply_transfer (transferCommandOf conflict_env alice bob ''order-1'' ten) i now sample_db"
proof -
  let ?cmd = "transferCommandOf conflict_env alice bob ''order-1'' ten"
  obtain res w' where t: "Transfer conflict_env sample_limits alice bob ''order-1'' ten (sample_world sample_db) = (res, w')" by force
  have f: "one_fault conflict_env 16" "\<not> e_done conflict_env n" for n
    by (simp_all add: one_fault_def conflict_env_def sample_env_def retry_code_def)
  have ids: "\<exists>i. e_uuid conflict_env n = Inr i \<and> i \<notin> set (map tr_id (transactions (w_db (sample_world sample_db))))" for n
    by (simp add: conflict_env_def sample_env_def sample_db_def)
  have "fst (CheckRateLimit conflict_env sample_limits (e_uuid_text conflict_env alice) (sample_world sample_db\<lparr>w_tick := n\<rparr>)) = Inr ()" for n
    by (rule CheckRateLimit_fresh) (simp_all add: conflict_env_def sample_env_def sample_world_def sample_limits_def)
  note p = transfer_survives_conflict [OF f _ ten_ok(1-3) sample_key ids this t]
  have "find_idem sample_db alice ''order-1'' = None" "alice \<noteq> bob"
    by (simp_all add: find_idem_def find_row_def sample_db_def alice_def bob_def)
  then have "transfer_verdict ?cmd (Inr ()) sample_db = Inr None"
    by (simp add: transfer_verdict_def sample_balances ten_ok)
  with p t sample_inv show ?thesis by (auto simp: verdict_holds_def)
qed

end
