(* ===== verification/Accounts_Create.thy ===== *)
theory Accounts_Create
  imports Contracts Samples Auth_Frame
begin

text \<open>
  The writing operation of the accounts service (\<open>accounts.go\<close>, \<open>Create\<close>): a rate limit and a
  duplicate check of one minute, both by the caller's address, before one insert. It meets the
  contract \<open>keyed_service\<close> with the address as its key.
\<close>

definition Create :: "env \<Rightarrow> redis_limits \<Rightarrow> account \<Rightarrow> string \<Rightarrow> ('z, unit) io" where
  "Create env cfg acc ip =
     bindE (CheckRateLimit env cfg ip) (\<lambda>_.
     bindE (IdempotencyCheck env ip 60) (\<lambda>_.
       with_tx env (\<lambda>e. e)
         (bindE (acc_Create env acc) (\<lambda>_.
          bindE (Commit env) (\<lambda>_. returnE ())))))"

section \<open>The insert\<close>

definition stored_account :: "account \<Rightarrow> rat \<Rightarrow> account_row" where
  "stored_account acc b = \<lparr>ar_id = ac_ID acc, ar_name = ac_Name acc, ar_email = ac_Email acc,
     ar_password_hash = ac_PasswordHash acc, ar_role = ac_Role acc, ar_balance = b\<rparr>"

text \<open>The account can be stored with the balance \<open>b\<close>: a number of the column, neither id nor e-mail taken.\<close>

definition free_account :: "account \<Rightarrow> rat \<Rightarrow> database \<Rightarrow> bool" where
  "free_account acc b d \<longleftrightarrow> numeric_36_18 (dec_rat (ac_Balance acc)) = Inr b \<and> 0 \<le> b
     \<and> ac_ID acc \<notin> ar_id ` set (accounts d) \<and> ac_Email acc \<notin> ar_email ` set (accounts d)"

definition account_added :: "account \<Rightarrow> rat \<Rightarrow> database \<Rightarrow> database" where
  "account_added acc b d = d\<lparr>accounts := accounts d @ [stored_account acc b]\<rparr>"

lemma insert_account_Inr:
  "insert_account env acc t = Inr ((), d) \<Longrightarrow> \<exists>b. free_account acc b (t_db t) \<and> d = account_added acc b (t_db t)"
  by (auto simp: insert_account_def Let_def free_account_def account_added_def stored_account_def
    split: sum.splits if_splits)

lemma acc_Create_Inr:
  "acc_Create env acc w = (Inr (), w') \<Longrightarrow> \<exists>t b. w_tx w = Some t \<and> free_account acc b (t_db t)
     \<and> w' = (tick w)\<lparr>w_tx := Some (t\<lparr>t_db := account_added acc b (t_db t)\<rparr>)\<rparr> \<and> \<not> t_aborted t"
  by (auto simp: acc_Create_def sql_Inr dest!: insert_account_Inr)

lemma stays_acc_Create: "stays same_db (acc_Create env acc)" "stays same_redis (acc_Create env acc)"
  unfolding acc_Create_def by (intro inv_intros)+

text \<open>What a call does: it is refused before the transaction, or it comes to the transaction.\<close>

definition create_body :: "env \<Rightarrow> account \<Rightarrow> ('z, unit) io" where
  "create_body env acc = with_tx env (\<lambda>e. e) (bindE (acc_Create env acc) (\<lambda>_. bindE (Commit env) (\<lambda>_. returnE ())))"

lemma create_body_effect:
  fixes w :: "'z world_scheme"
  assumes "create_body env acc w = (r, w')"
  shows "w_redis w' = w_redis w \<and>
    (w_db w' = w_db w \<and> r \<noteq> Inr ()
     \<or> (\<exists>b. free_account acc b (w_db w) \<and> w_db w' = account_added acc b (w_db w)
        \<and> (r = Inr () \<or> (\<exists>n e. e_commit env n = CommitUnknown e))))"
proof (cases "NewTX env w")
  case (Pair q w1)
  show ?thesis
  proof (cases q)
    case (Inl e)
    with Pair assms show ?thesis by (auto simp: create_body_def with_tx_def NewTX_def split: option.splits)
  next
    case (Inr u)
    then obtain t where n: "w_tx w1 = Some t" "t_db t = w_db w" "w_db w1 = w_db w" "w_redis w1 = w_redis w"
      using Pair by (auto simp: NewTX_def split: option.splits)
    obtain p w2 where a: "acc_Create env acc w1 = (p, w2)" by force
    have s: "w_db w2 = w_db w1" "w_redis w2 = w_redis w1"
      using staysD [OF stays_acc_Create(1) a] staysD [OF stays_acc_Create(2) a] by (simp_all add: same_db_def same_redis_def)
    show ?thesis
    proof (cases p)
      case (Inl e)
      with Pair Inr a s n assms show ?thesis by (auto simp: create_body_def with_tx_def bindE_def)
    next
      case (Inr v)
      with a acc_Create_Inr [of env acc w1 w2] n obtain b where
        b: "free_account acc b (w_db w)" "w_tx w2 = Some (t\<lparr>t_db := account_added acc b (w_db w)\<rparr>)" "\<not> t_aborted t"
        by auto
      have "create_body env acc w = (case Commit env w2 of (r, w3) \<Rightarrow> (r, Rollback w3))"
        using Pair \<open>q = Inr u\<close> a Inr by (auto simp: create_body_def with_tx_def bindE_def split: prod.split sum.split)
      with assms b n s show ?thesis
        by (auto simp: Commit_def split: commit_outcome.splits)
    qed
  qed
qed

lemma Create_cases:
  fixes w :: "'z world_scheme"
  assumes "Create env cfg acc ip w = (r, w')"
  obtains (refused) "w_db w' = w_db w" "r \<noteq> Inr ()"
  | (reached) w1 w2 where "CheckRateLimit env cfg ip w = (Inr (), w1)"
      "IdempotencyCheck env ip 60 w1 = (Inr (), w2)" "create_body env acc w2 = (r, w')" "w_db w2 = w_db w"
proof -
  have st: "stays same_sql (CheckRateLimit env cfg ip :: ('z, unit) io)" by (intro inv_intros)
  obtain q w1 where 1: "CheckRateLimit env cfg ip w = (q, w1)" by force
  obtain p w2 where 2: "IdempotencyCheck env ip 60 w1 = (p, w2)" by force
  have db: "w_db w1 = w_db w" "w_db w2 = w_db w1"
    using staysD [OF st 1] staysD [OF stays_IdempotencyCheck 2] by (simp_all add: same_sql_def)
  have c: "Create env cfg acc ip w = (case q of Inl e \<Rightarrow> (Inl e, w1) | Inr _ \<Rightarrow>
      (case p of Inl e \<Rightarrow> (Inl e, w2) | Inr _ \<Rightarrow> create_body env acc w2))"
    using 1 2 by (auto simp: Create_def create_body_def bindE_def split: sum.split)
  show ?thesis
  proof (cases "q = Inr () \<and> p = Inr ()")
    case True
    with c 1 2 assms db show ?thesis by (intro reached [of w1 w2]) auto
  next
    case False
    with c assms db show ?thesis by (intro refused) (auto split: sum.splits)
  qed
qed

section \<open>The duplicate check as a contract\<close>

text \<open>All calls of the environment happen within a minute of the Redis server's clock.\<close>

definition within_minute :: "env \<Rightarrow> bool" where
  "within_minute env \<longleftrightarrow> (\<forall>m n. e_redis_now env m < e_redis_now env n + 60)"

text \<open>The key holds a plain value that no call of the environment finds expired.\<close>

definition marked :: "env \<Rightarrow> redis \<Rightarrow> string \<Rightarrow> bool" where
  "marked env rd k \<longleftrightarrow> (\<exists>e. rd k = Some e \<and> re_value e = RString \<and> (\<forall>n. alive (e_redis_now env n) e))"

definition keeps_marks :: "env \<Rightarrow> 'z world_scheme \<Rightarrow> 'z world_scheme \<Rightarrow> bool" where
  "keeps_marks env w w' \<longleftrightarrow> (\<forall>k. marked env (w_redis w) k \<longrightarrow> marked env (w_redis w') k)"

lemma keeps_marks_refl_trans [inv_intros]: "reflp (keeps_marks env)" "transp (keeps_marks env)"
  by (auto simp: keeps_marks_def reflp_def transp_def)

lemma script_keeps_marks:
  "marked env rd k \<Longrightarrow> marked env (snd (rateLimitScript (e_redis_now env n) key now window limit i rd)) k"
  by (auto simp: marked_def rateLimitScript_def redis_get_def zset_of_def put_zset_def Let_def split: option.splits)

lemma setnx_keeps_marks: "marked env rd k \<Longrightarrow> marked env (snd (setnx (e_redis_now env n) key ttl rd)) k"
  by (auto simp: marked_def setnx_def redis_get_def split: option.splits)

lemma stays_redis_call_marks:
  assumes "\<And>n rd k. marked env rd k \<Longrightarrow> marked env (snd (f (e_redis_now env n) rd)) k"
  shows "stays (keeps_marks env) (redis_call env f)"
proof (rule staysI)
  fix w :: "'z world_scheme"
  show "keeps_marks env w (snd (redis_call env f w))"
    using assms [of "w_redis w" _ "w_tick w"]
    by (auto simp: keeps_marks_def redis_call_def split: option.split prod.split)
qed

lemma stays_checkWindow_marks [inv_intros]: "stays (keeps_marks env) (checkWindow env ident limit window suffix)"
proof (rule staysI)
  fix w :: "'z world_scheme"
  let ?body = "\<lambda>now requestID. bindE (mapErr (Wrapped ''lua script'') (redis_call env
      (\<lambda>srv. rateLimitScript srv (rate_key ident suffix) now window limit requestID)))
    (\<lambda>allowed. if allowed = 0 then failE (Sentinel ErrRateLimited) else returnE ()) :: ('z, unit) io"
  have "stays (keeps_marks env) (?body now requestID)" for now requestID
    by (intro inv_intros stays_redis_call_marks script_keeps_marks)
  then have "keeps_marks env (tick (tick w)) (snd (?body now requestID (tick (tick w))))" for now requestID
    by (simp add: stays_def)
  then show "keeps_marks env w (snd (checkWindow env ident limit window suffix w))"
    by (simp add: checkWindow_def now_nano_def Let_def keeps_marks_def)
qed

lemma stays_CheckRateLimit_marks [inv_intros]: "stays (keeps_marks env) (CheckRateLimit env cfg ident)"
  unfolding CheckRateLimit_def by (intro inv_intros)

lemma stays_IdempotencyCheck_marks [inv_intros]: "stays (keeps_marks env) (IdempotencyCheck env key ttl)"
proof -
  have "marked env rd k \<Longrightarrow> marked env (snd (case setnx (e_redis_now env n) key ttl rd of (b, rd') \<Rightarrow> (Inr b, rd'))) k"
    for n rd k using setnx_keeps_marks [of env rd k n key ttl] by (auto split: prod.split)
  then show ?thesis unfolding IdempotencyCheck_def by (intro inv_intros stays_redis_call_marks)
qed

lemma IdempotencyCheck_marks:
  assumes "IdempotencyCheck env key 60 w = (Inr (), w')"
  shows "\<not> marked env (w_redis w) key" "within_minute env \<Longrightarrow> marked env (w_redis w') key"
proof -
  from assms have n: "e_redis_fault env (w_tick w) = None" "redis_get (e_redis_now env (w_tick w)) (w_redis w) key = None"
    "w_redis w' = (w_redis w)(key := Some \<lparr>re_value = RString, re_expire = Some (e_redis_now env (w_tick w) + 60)\<rparr>)"
    by (auto simp: IdempotencyCheck_def bindE_def redis_call_def setnx_def split: option.splits if_splits)
  show "\<not> marked env (w_redis w) key" using n(2) by (auto simp: marked_def redis_get_def split: if_splits)
  show "within_minute env \<Longrightarrow> marked env (w_redis w') key"
    using n(3) by (simp add: marked_def alive_def within_minute_def)
qed

type_synonym create_request = "redis_limits \<times> account \<times> string"

definition serve_create :: "env \<Rightarrow> create_request \<Rightarrow> world \<Rightarrow> (error, unit) result \<times> world" where
  "serve_create env q w = (case q of (cfg, acc, ip) \<Rightarrow> Create env cfg acc ip w)"

definition address_marked :: "env \<Rightarrow> world \<Rightarrow> string \<Rightarrow> unit option" where
  "address_marked env w ip = (if marked env (w_redis w) ip then Some () else None)"

lemma Create_marks:
  fixes w :: world
  assumes "Create env cfg acc ip w = (r, w')"
  shows "marked env (w_redis w) k \<Longrightarrow> marked env (w_redis w') k"
    "w_db w' \<noteq> w_db w \<or> r = Inr () \<Longrightarrow> within_minute env \<Longrightarrow>
      \<not> marked env (w_redis w) ip \<and> marked env (w_redis w') ip"
proof -
  have "keeps_marks env w w'"
  proof -
    have "stays (keeps_marks env) (create_body env acc :: (world, error, unit) go)"
    proof (rule staysI)
      fix v :: world
      show "keeps_marks env v (snd (create_body env acc v))"
        using create_body_effect [of env acc v "fst (create_body env acc v)"] by (simp add: keeps_marks_def)
    qed
    then have "stays (keeps_marks env) (Create env cfg acc ip :: (world, error, unit) go)"
      unfolding Create_def create_body_def [symmetric] by (intro inv_intros)
    then show ?thesis using assms by (rule staysD)
  qed
  then show "marked env (w_redis w) k \<Longrightarrow> marked env (w_redis w') k" by (simp add: keeps_marks_def)
  assume changed: "w_db w' \<noteq> w_db w \<or> r = Inr ()" and m: "within_minute env"
  from assms show "\<not> marked env (w_redis w) ip \<and> marked env (w_redis w') ip"
  proof (cases rule: Create_cases)
    case refused
    with changed show ?thesis by blast
  next
    case (reached w1 w2)
    have "keeps_marks env w w1" by (rule staysD [OF stays_CheckRateLimit_marks reached(1)])
    with IdempotencyCheck_marks [OF reached(2)] m create_body_effect [OF reached(3)] show ?thesis
      by (auto simp: keeps_marks_def)
  qed
qed

interpretation creator: keyed_service "serve_create env" "\<lambda>_. True" "\<lambda>_. within_minute env" "\<lambda>q. snd (snd q)" w_db
  "address_marked env" "\<lambda>_. ()" for env
proof unfold_locales
  fix s q assume "within_minute env" "w_db (snd (serve_create env q s)) \<noteq> w_db s"
  with Create_marks(2) [of env "fst q" "fst (snd q)" "snd (snd q)" s "fst (serve_create env q s)" "snd (serve_create env q s)"] show
    "address_marked env s (snd (snd q)) = None \<and> address_marked env (snd (serve_create env q s)) (snd (snd q)) \<noteq> None"
    by (auto simp: serve_create_def address_marked_def split: prod.splits)
next
  fix s q k v assume "within_minute env" "address_marked env s k = Some v"
  with Create_marks(1) [of env "fst q" "fst (snd q)" "snd (snd q)" s "fst (serve_create env q s)" "snd (serve_create env q s)"] show
    "address_marked env (snd (serve_create env q s)) k = Some v"
    by (auto simp: serve_create_def address_marked_def split: prod.splits if_splits)
next
  fix s s' :: world and q :: create_request and t assume "within_minute env" "serve_create env q s = (Inr t, s')"
  with Create_marks(2) [of env "fst q" "fst (snd q)" "snd (snd q)" s "Inr ()" s'] show
    "\<exists>v. address_marked env s' (snd (snd q)) = Some v \<and> t = ()"
    by (auto simp: serve_create_def address_marked_def split: prod.splits)
qed simp

section \<open>Properties\<close>

lemma db_inv_added:
  assumes "db_inv d" "free_account acc b d"
  shows "db_inv (account_added acc b d)"
proof (rule db_inv_frame [OF assms(1)])
  have ex: "account_exists d i \<Longrightarrow> account_exists (account_added acc b d) i" for i
    by (auto simp: account_exists_def account_added_def)
  then show "account_exists d i \<Longrightarrow> account_exists (account_added acc b d) i" for i .
  show "tokens_ok (account_added acc b d)" using assms(1) ex by (auto simp: db_inv_def tokens_ok_def account_added_def)
  show "accounts_ok (account_added acc b d)"
    using assms by (auto simp: db_inv_def accounts_ok_def free_account_def account_added_def stored_account_def
      dest: numeric_storable)
qed (simp_all add: account_added_def)

definition carol :: account where
  "carol = \<lparr>ac_ID = 3, ac_Name = ''Carol'', ac_Email = ''carol@example.com'', ac_Balance = ten,
     ac_PasswordHash = ''hash'', ac_Role = RoleUser\<rparr>"

text \<open>
  C36: creating an account is all or nothing: whatever fails, the tables are those before and the
  caller gets an error, or exactly one row was added, with the account's data, its balance as
  the column holds it and an id and an e-mail nobody had, and the integrity of the tables is
  kept; an error can then only come from a commit whose outcome is unknown.
\<close>
theorem create_all_or_nothing:
  assumes "Create env cfg acc ip w = (r, w')" "db_inv (w_db w)"
  shows "db_inv (w_db w') \<and>
    (w_db w' = w_db w \<and> r \<noteq> Inr ()
     \<or> (\<exists>b. free_account acc b (w_db w) \<and> w_db w' = account_added acc b (w_db w)
        \<and> (r = Inr () \<or> (\<exists>n e. e_commit env n = CommitUnknown e))))"
  using assms(1)
proof (cases rule: Create_cases)
  case refused
  with assms(2) show ?thesis by simp
next
  case (reached w1 w2)
  from create_body_effect [OF reached(3)] reached(4) assms(2) show ?thesis
    by (auto intro: db_inv_added)
qed

theorem create_all_or_nothing_witness:
  "\<exists>b. free_account carol b sample_db
    \<and> w_db (snd (Create sample_env sample_limits carol ''10.0.0.1'' (sample_world sample_db))) = account_added carol b sample_db"
proof -
  let ?c = "Create sample_env sample_limits carol ''10.0.0.1'' (sample_world sample_db)"
  have "fst ?c = Inr ()" by code_simp
  then obtain w' where c: "?c = (Inr (), w')" by (metis prod.collapse)
  from create_all_or_nothing [OF this] c show ?thesis by (simp add: sample_inv)
qed

text \<open>
  C37: within a minute of the Redis server's clock at most one account is created from one address,
  over any sequence of calls of the service, whatever else they ask for and whatever fails.
\<close>
theorem create_once_per_minute:
  assumes "within_minute env"
  shows "changes (serve_create env) w_db (\<lambda>q. snd (snd q) = ip) qs w \<le> 1"
  using assms by (intro creator.at_most_once) simp_all

theorem create_once_per_minute_witness:
  "changes (serve_create (sample_env\<lparr>e_redis_now := \<lambda>_. 5\<rparr>)) w_db (\<lambda>q. snd (snd q) = ''10.0.0.1'')
     [(sample_limits, carol, ''10.0.0.1''), (sample_limits, carol\<lparr>ac_ID := 4, ac_Email := ''x@y.zz''\<rparr>, ''10.0.0.1'')]
     (sample_world sample_db) \<le> 1"
  by (rule create_once_per_minute) (simp add: within_minute_def)

end
