(* ===== verification/Rate_Limit.thy ===== *)
theory Rate_Limit
  imports Samples
begin

text \<open>
  What the rate limiter's script promises. \<open>window_log\<close> is the abstract limiter: it remembers
  the time of every call it accepted and accepts a call when fewer than \<open>limit\<close> accepted
  calls lie in the window that ends now. The script keeps a sorted set that it prunes and that
  expires; over a sequence of calls, in the order in which the server runs them, it gives the same
  answers, provided (\<open>calls_ok\<close>) the callers' clock readings do not go back in that order, request
  ids do not repeat, and between two calls the server's clock does not gain more than ten seconds
  on the callers', the slack the script adds to the key's life. Calls that overtake each other by
  a second or more, or that arrive more than ten seconds late, are outside these results.
\<close>

record limiter_call =
  lc_srv :: int     \<comment> \<open>the server's clock, by which the key expires\<close>
  lc_now :: int     \<comment> \<open>the caller's clock, the script's \<open>now\<close>\<close>
  lc_id :: string   \<comment> \<open>the member added to the set\<close>

section \<open>The abstract limiter\<close>

definition in_window :: "int \<Rightarrow> int \<Rightarrow> limiter_call list \<Rightarrow> nat" where
  "in_window window now acc = length (filter (\<lambda>c. lc_now c > now - window) acc)"

fun window_log :: "int \<Rightarrow> int \<Rightarrow> limiter_call list \<Rightarrow> limiter_call list \<Rightarrow> bool list" where
  "window_log window limit acc [] = []"
| "window_log window limit acc (c # cs) =
     (let ok = int (in_window window (lc_now c) acc) < limit
      in ok # window_log window limit (if ok then acc @ [c] else acc) cs)"

section \<open>The script over a sequence of calls\<close>

fun script_run :: "string \<Rightarrow> int \<Rightarrow> int \<Rightarrow> redis \<Rightarrow> limiter_call list \<Rightarrow> bool list" where
  "script_run key window limit rd [] = []"
| "script_run key window limit rd (c # cs) =
     (case rateLimitScript (lc_srv c) key (lc_now c) window limit (lc_id c) rd of
        (r, rd') \<Rightarrow> (r = Inr 1) # script_run key window limit rd' cs)"

definition clocks_ok :: "limiter_call \<Rightarrow> limiter_call \<Rightarrow> bool" where
  "clocks_ok a b \<longleftrightarrow> lc_now a \<le> lc_now b \<and> lc_srv b - lc_srv a \<le> lc_now b - lc_now a + 10
     \<and> lc_id a \<noteq> lc_id b"

definition calls_ok :: "limiter_call list \<Rightarrow> bool" where
  "calls_ok cs \<longleftrightarrow> sorted_wrt clocks_ok cs"

definition entry :: "limiter_call \<Rightarrow> int \<times> string" where
  "entry c = (lc_now c, lc_id c)"

text \<open>
  The store of the key against the accepted calls: the set holds only accepted calls, once
  each, and every accepted call that is missing is out of the window of any call still to
  come.
\<close>

definition stored :: "string \<Rightarrow> int \<Rightarrow> redis \<Rightarrow> limiter_call list \<Rightarrow> limiter_call list \<Rightarrow> bool" where
  "stored key window rd acc cs \<longleftrightarrow>
     (\<forall>c\<in>set cs. \<exists>z. zset_of (redis_get (lc_srv c) rd key) = Some z \<and> distinct z
        \<and> set z \<subseteq> entry ` set acc
        \<and> (\<forall>a\<in>set acc. lc_now a > lc_now c - window \<longrightarrow> entry a \<in> set z))"

lemma entry_inj: "distinct (map lc_id acc) \<Longrightarrow> inj_on entry (set acc)"
  by (auto simp: entry_def inj_on_def distinct_map)

lemma pruned_count:
  assumes "distinct z" "set z \<subseteq> entry ` set acc" "distinct (map lc_id acc)"
    "\<forall>a\<in>set acc. lc_now a > now - window \<longrightarrow> entry a \<in> set z"
  shows "length (zremrangebyscore (now - window) z) = in_window window now acc"
proof -
  let ?P = "\<lambda>c. lc_now c > now - window"
  have "set (zremrangebyscore (now - window) z) = entry ` set (filter ?P acc)"
    using assms(2,4) by (auto simp: zremrangebyscore_def entry_def image_iff) force+
  moreover have "distinct (zremrangebyscore (now - window) z)"
    using assms(1) by (simp add: zremrangebyscore_def)
  ultimately have "length (zremrangebyscore (now - window) z) = card (entry ` set (filter ?P acc))"
    by (metis distinct_card)
  also have "\<dots> = card (set (filter ?P acc))"
    by (rule card_image) (rule inj_on_subset [OF entry_inj [OF assms(3)]], auto)
  also have "\<dots> = in_window window now acc"
    unfolding in_window_def using assms(3) by (intro distinct_card distinct_filter) (simp add: distinct_map)
  finally show ?thesis .
qed

lemma redis_get_put:
  "zset_of (redis_get srv (put_zset rd key z ex) key) =
     Some (if z = [] \<or> \<not> alive srv \<lparr>re_value = ZSet z, re_expire = ex\<rparr> then [] else z)"
  by (auto simp: put_zset_def redis_get_def zset_of_def)

text \<open>One call: the answer is that of the log, and the store still fits.\<close>

text \<open>The set after a call that is admitted, and after one that is not.\<close>

lemma stored_admitted:
  fixes z window c
  defines "z1 \<equiv> zremrangebyscore (lc_now c - window) z @ [entry c]"
  assumes z: "distinct z" "set z \<subseteq> entry ` set acc"
      "\<forall>a\<in>set acc. lc_now a > lc_now c - window \<longrightarrow> entry a \<in> set z"
    and fresh: "entry c \<notin> entry ` set acc"
    and past: "\<forall>a\<in>set acc. lc_now a \<le> lc_now c" and next_ok: "\<forall>b\<in>set cs. clocks_ok c b"
  shows "stored key window (put_zset rd key z1 (Some (lc_srv c + (window + 10)))) (acc @ [c]) cs"
  unfolding stored_def
proof
  fix b
  let ?z = "zremrangebyscore (lc_now c - window) z" and ?rd = "put_zset rd key z1 (Some (lc_srv c + (window + 10)))"
  assume b: "b \<in> set cs"
  with next_ok have cb: "lc_now c \<le> lc_now b" "lc_srv b - lc_srv c \<le> lc_now b - lc_now c + 10"
    by (auto simp: clocks_ok_def)
  have sub: "set ?z \<subseteq> entry ` set acc" "distinct ?z" using z by (auto simp: zremrangebyscore_def)
  show "\<exists>z. zset_of (redis_get (lc_srv b) ?rd key) = Some z \<and> distinct z \<and> set z \<subseteq> entry ` set (acc @ [c])
      \<and> (\<forall>a\<in>set (acc @ [c]). lc_now a > lc_now b - window \<longrightarrow> entry a \<in> set z)"
  proof (cases "lc_srv b < lc_srv c + (window + 10)")
    case True
    then have "zset_of (redis_get (lc_srv b) ?rd key) = Some z1"
      by (simp add: redis_get_put alive_def z1_def)
    moreover have "entry a \<in> set z1" if "a \<in> set (acc @ [c])" "lc_now a > lc_now b - window" for a
      using that z(3) cb(1) unfolding z1_def by (auto simp: zremrangebyscore_def entry_def)
    ultimately show ?thesis using sub fresh by (auto simp: z1_def)
  next
    case False
    then have "zset_of (redis_get (lc_srv b) ?rd key) = Some []"
      by (simp add: redis_get_put alive_def z1_def)
    moreover have "\<not> lc_now a > lc_now b - window" if "a \<in> set (acc @ [c])" for a
      using that False cb past by auto
    ultimately show ?thesis by auto
  qed
qed

lemma stored_pruned:
  fixes z rd key c
  defines "ex \<equiv> case redis_get (lc_srv c) rd key of None \<Rightarrow> None | Some x \<Rightarrow> re_expire x"
  assumes st: "stored key window rd acc (c # cs)" and now: "zset_of (redis_get (lc_srv c) rd key) = Some z"
    and z: "distinct z" "set z \<subseteq> entry ` set acc"
      "\<forall>a\<in>set acc. lc_now a > lc_now c - window \<longrightarrow> entry a \<in> set z"
    and next_ok: "\<forall>b\<in>set cs. clocks_ok c b"
  shows "stored key window (put_zset rd key (zremrangebyscore (lc_now c - window) z) ex) acc cs"
  unfolding stored_def
proof
  fix b
  let ?z = "zremrangebyscore (lc_now c - window) z"
  assume b: "b \<in> set cs"
  with next_ok have cb: "lc_now c \<le> lc_now b" by (auto simp: clocks_ok_def)
  from st b obtain zb where zb: "zset_of (redis_get (lc_srv b) rd key) = Some zb"
    "\<forall>a\<in>set acc. lc_now a > lc_now b - window \<longrightarrow> entry a \<in> set zb"
    by (auto simp: stored_def)
  have sub: "set ?z \<subseteq> entry ` set acc" "distinct ?z" using z by (auto simp: zremrangebyscore_def)
  have keep: "entry a \<in> set ?z" if "a \<in> set acc" "lc_now a > lc_now b - window" for a
    using that z(3) cb by (auto simp: zremrangebyscore_def entry_def)
  have none: "\<not> lc_now a > lc_now b - window"
    if "\<not> alive (lc_srv b) \<lparr>re_value = ZSet ?z, re_expire = ex\<rparr>" "?z \<noteq> []" "a \<in> set acc" for a
  proof -
    from now that(2) obtain x where x: "redis_get (lc_srv c) rd key = Some x"
      by (cases "redis_get (lc_srv c) rd key") (auto simp: zset_of_def zremrangebyscore_def)
    then have "rd key = Some x" by (auto simp: redis_get_def split: option.splits if_splits)
    with that(1) x have "redis_get (lc_srv b) rd key = None"
      by (simp add: redis_get_def alive_def ex_def)
    with zb that(3) show ?thesis by (simp add: zset_of_def)
  qed
  show "\<exists>y. zset_of (redis_get (lc_srv b) (put_zset rd key ?z ex) key) = Some y \<and> distinct y \<and> set y \<subseteq> entry ` set acc
      \<and> (\<forall>a\<in>set acc. lc_now a > lc_now b - window \<longrightarrow> entry a \<in> set y)"
  proof (cases "?z = [] \<or> \<not> alive (lc_srv b) \<lparr>re_value = ZSet ?z, re_expire = ex\<rparr>")
    case True
    then have "\<not> lc_now a > lc_now b - window" if "a \<in> set acc" for a
      using keep [OF that] none [OF _ _ that] by (cases "?z = []") auto
    with True show ?thesis unfolding redis_get_put by auto
  next
    case False
    with keep sub show ?thesis unfolding redis_get_put by auto
  qed
qed

lemma script_step:
  assumes st: "stored key window rd acc (c # cs)" and ids: "distinct (map lc_id (acc @ [c]))"
    and past: "\<forall>a\<in>set acc. lc_now a \<le> lc_now c" and next_ok: "\<forall>b\<in>set cs. clocks_ok c b"
    and run: "rateLimitScript (lc_srv c) key (lc_now c) window limit (lc_id c) rd = (r, rd')"
  defines "ok \<equiv> int (in_window window (lc_now c) acc) < limit"
  shows "(r = Inr 1) = ok \<and> stored key window rd' (if ok then acc @ [c] else acc) cs"
proof -
  from st obtain z where z: "zset_of (redis_get (lc_srv c) rd key) = Some z" "distinct z"
    "set z \<subseteq> entry ` set acc" "\<forall>a\<in>set acc. lc_now a > lc_now c - window \<longrightarrow> entry a \<in> set z"
    by (auto simp: stored_def)
  let ?z = "zremrangebyscore (lc_now c - window) z"
  let ?ex = "case redis_get (lc_srv c) rd key of None \<Rightarrow> None | Some x \<Rightarrow> re_expire x"
  have cnt: "int (length ?z) = int (in_window window (lc_now c) acc)"
    using pruned_count [OF z(2,3) _ z(4)] ids by simp
  have ids_z: "\<forall>(s, x)\<in>set ?z. x \<noteq> lc_id c" using z(3) ids by (auto simp: entry_def zremrangebyscore_def)
  then have "filter (\<lambda>(s, x). x \<noteq> lc_id c) ?z = ?z" by (simp add: filter_id_conv split_beta)
  then have added: "zadd (lc_now c) (lc_id c) ?z = ?z @ [entry c]" by (simp add: zadd_def entry_def)
  have fresh: "entry c \<notin> entry ` set acc" using ids by (auto simp: entry_def)
  show ?thesis
  proof (cases ok)
    case True
    then have "r = Inr 1" "rd' = put_zset (put_zset rd key ?z ?ex) key (?z @ [entry c]) (Some (lc_srv c + (window + 10)))"
      using run z(1) cnt by (simp_all add: rateLimitScript_def Let_def ok_def added)
    with True stored_admitted [OF z(2-4) fresh past next_ok] show ?thesis by simp
  next
    case False
    then have "r = Inr 0" "rd' = put_zset rd key ?z ?ex"
      using run z(1) cnt by (simp_all add: rateLimitScript_def Let_def ok_def)
    with False stored_pruned [OF st z next_ok] show ?thesis by simp
  qed
qed

lemma script_run_log:
  "stored key window rd acc cs \<Longrightarrow> calls_ok (acc @ cs) \<Longrightarrow>
     script_run key window limit rd cs = window_log window limit acc cs"
proof (induction cs arbitrary: rd acc)
  case (Cons c cs)
  obtain r rd' where run: "rateLimitScript (lc_srv c) key (lc_now c) window limit (lc_id c) rd = (r, rd')"
    by force
  have ok: "calls_ok (acc @ c # cs)" by fact
  have "distinct (map lc_id (acc @ [c]))"
    using ok by (induction acc) (auto simp: calls_ok_def clocks_ok_def)
  moreover have "\<forall>a\<in>set acc. lc_now a \<le> lc_now c" "\<forall>b\<in>set cs. clocks_ok c b"
    using ok by (auto simp: calls_ok_def sorted_wrt_append clocks_ok_def)
  ultimately have step: "(r = Inr 1) = (int (in_window window (lc_now c) acc) < limit)"
    "stored key window rd' (if int (in_window window (lc_now c) acc) < limit then acc @ [c] else acc) cs"
    using script_step [OF Cons.prems(1) _ _ _ run] by simp_all
  have "calls_ok ((if int (in_window window (lc_now c) acc) < limit then acc @ [c] else acc) @ cs)"
    using ok by (auto simp: calls_ok_def sorted_wrt_append)
  from Cons.IH [OF step(2) this] step(1) run show ?case by (simp add: Let_def)
qed simp

section \<open>Never more than the limit\<close>

fun accepted :: "limiter_call list \<Rightarrow> bool list \<Rightarrow> limiter_call list" where
  "accepted (c # cs) (ok # oks) = (if ok then c # accepted cs oks else accepted cs oks)"
| "accepted _ _ = []"

definition in_span :: "int \<Rightarrow> int \<Rightarrow> limiter_call list \<Rightarrow> nat" where
  "in_span lo hi acc = length (filter (\<lambda>c. lo < lc_now c \<and> lc_now c \<le> hi) acc)"

lemma in_span_le: "in_span (t - window) t acc \<le> in_window window now acc" if "now \<le> t"
  unfolding in_span_def in_window_def
proof (induction acc)
  case (Cons c acc)
  with that show ?case by auto
qed simp

lemma window_log_bound:
  assumes "0 \<le> limit"
  shows "\<forall>t. int (in_span (t - window) t acc) \<le> limit \<Longrightarrow>
    int (in_span (t - window) t (acc @ accepted cs (window_log window limit acc cs))) \<le> limit"
proof (induction cs arbitrary: acc)
  case (Cons c cs)
  show ?case
  proof (cases "int (in_window window (lc_now c) acc) < limit")
    case True
    have "int (in_span (u - window) u (acc @ [c])) \<le> limit" for u
    proof (cases "lc_now c \<le> u")
      case le: True
      with True in_span_le [of "lc_now c" u window acc] show ?thesis by (simp add: in_span_def)
    next
      case False
      with Cons.prems show ?thesis by (simp add: in_span_def)
    qed
    with Cons.IH [of "acc @ [c]"] True show ?thesis by (simp add: Let_def)
  next
    case False
    with Cons.IH [OF Cons.prems] show ?thesis by (simp add: Let_def)
  qed
qed simp

section \<open>The code's calls\<close>

text \<open>
  Checks of one window by \<open>checkWindow\<close>, one after the other: before each the program makes some
  number of other calls, which \<open>gs\<close> counts. \<open>check_calls\<close> are the calls of the script they make.
\<close>

fun check_run :: "env \<Rightarrow> string \<Rightarrow> int \<Rightarrow> int \<Rightarrow> string \<Rightarrow> nat list \<Rightarrow> 'z world_scheme \<Rightarrow> (error, unit) result list" where
  "check_run env ident limit window suffix [] w = []"
| "check_run env ident limit window suffix (g # gs) w =
     (case checkWindow env ident limit window suffix (w\<lparr>w_tick := w_tick w + g\<rparr>) of
        (r, w') \<Rightarrow> r # check_run env ident limit window suffix gs w')"

fun check_calls :: "env \<Rightarrow> nat list \<Rightarrow> nat \<Rightarrow> limiter_call list" where
  "check_calls env [] n = []"
| "check_calls env (g # gs) n =
     \<lparr>lc_srv = e_redis_now env (n + g + 2), lc_now = time_unix (e_clock env (n + g)),
       lc_id = int_text (time_unix (e_clock env (n + g))) @ ''-'' @ int_text (e_clock env (n + g + 1))\<rparr>
     # check_calls env gs (n + g + 3)"

definition verdict :: "bool \<Rightarrow> (error, unit) result" where
  "verdict ok = (if ok then Inr () else Inl (Sentinel ErrRateLimited))"

text \<open>The key never holds anything but a set: nothing else writes it.\<close>

definition holds_set :: "redis \<Rightarrow> string \<Rightarrow> bool" where
  "holds_set rd key \<longleftrightarrow> (\<forall>srv. zset_of (redis_get srv rd key) \<noteq> None)"

lemma holds_set_put [simp]: "holds_set (put_zset rd key z ex) key"
  by (simp add: holds_set_def redis_get_put)

lemma script_keeps_set:
  assumes "holds_set rd key" "rateLimitScript srv key now window limit i rd = (r, rd')"
  shows "holds_set rd' key" "r = Inr 1 \<or> r = Inr 0"
proof -
  obtain z where "zset_of (redis_get srv rd key) = Some z" using assms(1) by (auto simp: holds_set_def)
  with assms(2) show "holds_set rd' key" "r = Inr 1 \<or> r = Inr 0"
    by (auto simp: rateLimitScript_def Let_def split: if_splits)
qed

lemma checkWindow_script:
  fixes w :: "'z world_scheme"
  assumes "\<And>n. e_redis_fault env n = None" "holds_set (w_redis w) (rate_key ident suffix)"
    "rateLimitScript (e_redis_now env (w_tick w + 2)) (rate_key ident suffix) (time_unix (e_clock env (w_tick w))) window limit
       (int_text (time_unix (e_clock env (w_tick w))) @ ''-'' @ int_text (e_clock env (w_tick w + 1))) (w_redis w) = (r, rd')"
  shows "checkWindow env ident limit window suffix w
     = (verdict (r = Inr 1), w\<lparr>w_redis := rd', w_tick := w_tick w + 3\<rparr>)"
  using script_keeps_set(2) [OF assms(2,3)] assms(3)
  by (auto simp: checkWindow_def now_nano_def Let_def bindE_def mapErr_def redis_call_def assms(1) verdict_def
    eval_nat_numeral)

lemma check_run_script:
  fixes w :: "'z world_scheme"
  assumes "\<And>n. e_redis_fault env n = None"
  shows "holds_set (w_redis w) (rate_key ident suffix) \<Longrightarrow> check_run env ident limit window suffix gs w
     = map verdict (script_run (rate_key ident suffix) window limit (w_redis w) (check_calls env gs (w_tick w)))"
proof (induction gs arbitrary: w)
  case (Cons g gs)
  let ?w = "w\<lparr>w_tick := w_tick w + g\<rparr>"
  obtain r rd' where s: "rateLimitScript (e_redis_now env (w_tick ?w + 2)) (rate_key ident suffix)
      (time_unix (e_clock env (w_tick ?w))) window limit (int_text (time_unix (e_clock env (w_tick ?w))) @ ''-''
        @ int_text (e_clock env (w_tick ?w + 1))) (w_redis ?w) = (r, rd')" by force
  have set: "holds_set (w_redis ?w) (rate_key ident suffix)" using Cons.prems by simp
  note c = checkWindow_script [OF assms set s]
  have "holds_set rd' (rate_key ident suffix)" by (rule script_keeps_set(1) [OF set s])
  with Cons.IH [of "?w\<lparr>w_redis := rd', w_tick := w_tick ?w + 3\<rparr>"] c s show ?case by simp
qed simp

section \<open>Properties\<close>

text \<open>
  C34: the script is a sliding-window limiter. Over any sequence of calls on a key that starts
  absent it accepts a call exactly when fewer than \<open>limit\<close> of the calls it accepted before lie in the
  window that ends at the call; rejected calls are not counted, and pruning and expiry never forget
  a call that still counts. The calls are \<open>calls_ok\<close>: in the order in which the server runs them
  the callers' clock does not go back, ids differ, and the server's clock gains at most ten seconds
  on the callers'. And \<open>checkWindow\<close> answers as the log says, with \<open>ErrRateLimited\<close> for a call that is
  not accepted, when its calls are such a sequence and Redis answers.
\<close>
theorem rate_limit_sliding_window:
  assumes "calls_ok cs" "rd key = None"
  shows "script_run key window limit rd cs = window_log window limit [] cs
    \<and> ((\<forall>n. e_redis_fault env n = None) \<and> key = rate_key ident suffix \<and> w_redis w = rd
        \<and> cs = check_calls env gs (w_tick w) \<longrightarrow>
       check_run env ident limit window suffix gs w
         = map (\<lambda>ok. if ok then Inr () else Inl (Sentinel ErrRateLimited)) (window_log window limit [] cs))"
proof -
  have "stored key window rd [] cs" using assms(2) by (simp add: stored_def redis_get_def zset_of_def)
  then have "script_run key window limit rd cs = window_log window limit [] cs"
    using assms(1) by (simp add: script_run_log)
  then show ?thesis using assms(2) check_run_script [of env w ident suffix limit window gs]
    by (auto simp: verdict_def [abs_def] holds_set_def redis_get_def zset_of_def)
qed

text \<open>
  C35: the limit holds: in every window of the configured length, wherever it starts, the
  script accepts at most \<open>limit\<close> calls.
\<close>
theorem rate_limit_bound:
  assumes "calls_ok cs" "rd key = None" "0 \<le> limit"
  shows "int (in_span (t - window) t (accepted cs (script_run key window limit rd cs))) \<le> limit"
proof -
  have "stored key window rd [] cs" using assms(2) by (simp add: stored_def redis_get_def zset_of_def)
  then have "script_run key window limit rd cs = window_log window limit [] cs"
    using assms(1) by (simp add: script_run_log)
  with window_log_bound [OF assms(3), of window "[]" t cs] assms(3) show ?thesis by (simp add: in_span_def)
qed

definition sample_calls :: "limiter_call list" where
  "sample_calls = [\<lparr>lc_srv = 100, lc_now = 101, lc_id = ''a''\<rparr>, \<lparr>lc_srv = 110, lc_now = 112, lc_id = ''b''\<rparr>,
     \<lparr>lc_srv = 111, lc_now = 112, lc_id = ''c''\<rparr>, \<lparr>lc_srv = 162, lc_now = 161, lc_id = ''d''\<rparr>]"

lemma sample_calls_ok: "calls_ok sample_calls"
  by (simp add: calls_ok_def sample_calls_def clocks_ok_def)

text \<open>A clock of ten seconds for each external call.\<close>

definition ticking_env :: env where
  "ticking_env = sample_env\<lparr>e_clock := \<lambda>n. int n * 10000000000, e_redis_now := \<lambda>n. int n * 10\<rparr>"

theorem rate_limit_sliding_window_witness:
  "check_run ticking_env ''ip'' 1 60 ''min'' [0, 0, 0] (sample_world sample_db)
     = [Inr (), Inl (Sentinel ErrRateLimited), Inr ()]"
proof -
  let ?cs = "check_calls ticking_env [0, 0, 0] 0"
  have ok: "calls_ok ?cs" unfolding calls_ok_def clocks_ok_def by code_simp
  have w: "w_tick (sample_world sample_db) = 0" "w_redis (sample_world sample_db) = (\<lambda>_. None)"
    by (simp_all add: sample_world_def)
  have f: "e_redis_fault ticking_env n = None" for n by (simp add: ticking_env_def sample_env_def)
  have l: "window_log 60 1 [] ?cs = [True, False, True]" by code_simp
  from rate_limit_sliding_window [OF ok, of "\<lambda>_. None" "rate_key ''ip'' ''min''" 60 1 ticking_env "''ip''" "''min''"
      "sample_world sample_db" "[0, 0, 0]"] show ?thesis by (simp add: w f l del: check_run.simps check_calls.simps)
qed

theorem rate_limit_bound_witness:
  "int (in_span (160 - 60) 160 (accepted sample_calls (script_run ''k'' 60 2 (\<lambda>_. None) sample_calls))) \<le> 2"
  by (rule rate_limit_bound [OF sample_calls_ok]) simp_all

end
