(* ===== verification/Auth_Samples.thy ===== *)
theory Auth_Samples
  imports Auth_Refine Samples
begin

text \<open>
  A small system with a refresh session, on which the properties of the sessions are evaluated.
\<close>

definition issued_at :: time where "issued_at = 1000000000000"

definition sample_manager :: manager where
  "sample_manager = \<lparr>m_accessSecret = ''a-secret'', m_refreshSecret = ''r-secret'',
     m_accessTTL = 900000000000, m_refreshTTL = 2592000000000000, m_issuer = ''my-app''\<rparr>"

definition old_claims :: jwt_claims where
  "old_claims = refresh_claims sample_manager ''1'' ''old'' issued_at"

text \<open>
  A clock that stands still, a token library that knows the token \<open>OLD\<close> and signs access and
  refresh tokens as texts of their own.
\<close>

definition auth_env :: env where
  "auth_env = sample_env\<lparr>e_clock := (\<lambda>_. issued_at),
     e_jwt_sign := (\<lambda>k c. Inr (if jc_ID c = [] then ''ACCESS'' else ''REFRESH'')),
     e_jwt_parse := (\<lambda>k i n t. if k = ''r-secret'' \<and> t = ''OLD'' then Inr old_claims else Inl JwtOther)\<rparr>"

definition old_session :: "bool \<Rightarrow> token_row" where
  "old_session shut = \<lparr>rt_jti = ''old'', rt_user = alice, rt_family = 5, rt_revoked = shut,
     rt_expires_at = 2000000000000, rt_created_at = 900000000000\<rparr>"

definition session_db :: "bool \<Rightarrow> database" where
  "session_db shut = sample_db\<lparr>accounts := [(sample_account alice ''alice@example.com'' 100)\<lparr>ar_password_hash := ''hash:pass-word''\<rparr>,
     sample_account bob ''bob@example.com'' 5], tokens := [old_session shut]\<rparr>"

lemma session_db_inv: "db_inv (session_db shut)"
  by (simp add: db_inv_def accounts_ok_def transactions_ok_def tokens_ok_def idempotency_ok_def session_db_def
    sample_db_def sample_account_def sample_storable alice_def bob_def account_exists_def old_session_def)

lemma auth_env_stable: "jwt_stable auth_env"
  by (auto simp: jwt_stable_def auth_env_def split: if_splits)

lemma alice_text: "e_uuid_text auth_env alice = ''1''"
  by code_simp

lemma session_facts:
  "token_of (session_db shut) ''old'' = Some (old_session shut)" "rt_jti (old_session shut) = ''old''"
  "rt_user (old_session shut) = alice" "rt_family (old_session shut) = 5" "rt_revoked (old_session shut) = shut"
  "jc_ID old_claims = ''old''" "jc_UserID old_claims = ''1''" "jc_Subject old_claims = ''1''"
  by (simp_all add: token_of_def find_row_def session_db_def old_session_def old_claims_def refresh_claims_def)

lemma OLD_valid:
  fixes w :: "'z world_scheme"
  shows "ValidateRefreshToken auth_env sample_manager ''OLD'' w = (Inr old_claims, tick w)"
proof -
  have "e_jwt_parse auth_env (m_refreshSecret sample_manager) (m_issuer sample_manager) n ''OLD'' = Inr old_claims" for n
    by (simp add: auth_env_def sample_manager_def)
  then show ?thesis
    by (simp add: ValidateRefreshToken_def bindE_def jwt_parse_def now_nano_def session_facts)
qed

end
