(* ===== verification/Auth_Props.thy ===== *)
theory Auth_Props
  imports Auth_Samples Contracts
begin

text \<open>
  The properties of \<open>auth.go\<close> that hold under every schedule of faults: one request after
  another, each with lost and ambiguous commits. \<open>one_time\<close> is the contract of a service that
  accepts a token once.
\<close>

section \<open>Requests\<close>

datatype auth_request =
    RegisterRequest string string string string   \<comment> \<open>e-mail, password, name, address\<close>
  | LoginRequest string string string
  | RefreshRequest string string
  | LogoutRequest string string
  | LogoutAllRequest uuid

datatype auth_reply = AccountReply account | TokensReply token_pair | DoneReply

definition replied :: "('a \<Rightarrow> 'b) \<Rightarrow> ('z, 'a) io \<Rightarrow> ('z, 'b) io" where
  "replied h f w = (case f w of (Inl e, w') \<Rightarrow> (Inl e, w') | (Inr x, w') \<Rightarrow> (Inr (h x), w'))"

fun serve_auth :: "env \<Rightarrow> redis_limits \<Rightarrow> manager \<Rightarrow> auth_request \<Rightarrow> world \<Rightarrow> (error, auth_reply) result \<times> world" where
  "serve_auth env cfg m (RegisterRequest email pw name ip) = replied AccountReply (Register env cfg email pw name ip)"
| "serve_auth env cfg m (LoginRequest email pw ip) = replied TokensReply (Login env cfg m email pw ip)"
| "serve_auth env cfg m (RefreshRequest tok ip) = replied TokensReply (Refresh env cfg m tok ip)"
| "serve_auth env cfg m (LogoutRequest tok ip) = replied (\<lambda>_. DoneReply) (Logout env cfg m tok ip)"
| "serve_auth env cfg m (LogoutAllRequest u) = replied (\<lambda>_. DoneReply) (LogoutAll env u)"

text \<open>A new family takes its id from the generator.\<close>

definition opens_generated :: "env \<Rightarrow> session_event \<Rightarrow> bool" where
  "opens_generated env ev \<longleftrightarrow> (\<forall>r. ev = Opened r \<longrightarrow> (\<exists>n. e_uuid env n = Inr (rt_family r)))"

lemma outcomes_open_generated:
  "register_outcome env email pw name r1 ev \<Longrightarrow> opens_generated env ev"
  "login_outcome env m email pw d r2 ev \<Longrightarrow> opens_generated env ev"
  "refresh_served env m tok d r2 ev \<Longrightarrow> opens_generated env ev"
  "logout_outcome env m tok d r3 ev \<Longrightarrow> opens_generated env ev"
  "logout_all_outcome u r3 ev \<Longrightarrow> opens_generated env ev"
  by (auto simp: opens_generated_def login_session_def refresh_served_def elim!: register_outcomeE
    login_outcomeE refresh_outcomeE logout_outcomeE logout_all_outcomeE)

lemma replied_db: "replied h f w = (r, w') \<Longrightarrow> \<exists>q. f w = (q, w') \<and> (\<forall>x. q = Inr x \<longrightarrow> r = Inr (h x)) \<and> (isl q \<longleftrightarrow> isl r)"
  by (auto simp: replied_def split: prod.splits sum.splits)

lemma served_event:
  "serves (w_db w) f Q \<Longrightarrow> f w = (r, w') \<Longrightarrow>
     \<exists>ev. enabled ev (w_db w) \<and> w_db w' = apply_event ev (w_db w) \<and> Q r ev"
  unfolding serves_def by blast

lemma serve_auth_event:
  assumes "serve_auth env cfg m q w = (r, w')"
  obtains ev where "enabled ev (w_db w)" "w_db w' = apply_event ev (w_db w)" "opens_generated env ev"
proof (cases q)
  case (RegisterRequest email pw name ip)
  with assms obtain p where "Register env cfg email pw name ip w = (p, w')" by (auto dest!: replied_db)
  from served_event [OF Register_serves this] that show ?thesis using outcomes_open_generated(1) by blast
next
  case (LoginRequest email pw ip)
  with assms obtain p where "Login env cfg m email pw ip w = (p, w')" by (auto dest!: replied_db)
  from served_event [OF Login_serves this] that show ?thesis using outcomes_open_generated(2) by blast
next
  case (RefreshRequest tok ip)
  with assms obtain p where "Refresh env cfg m tok ip w = (p, w')" by (auto dest!: replied_db)
  from served_event [OF Refresh_serves this] that show ?thesis using outcomes_open_generated(3) by blast
next
  case (LogoutRequest tok ip)
  with assms obtain p where "Logout env cfg m tok ip w = (p, w')" by (auto dest!: replied_db)
  from served_event [OF Logout_serves this] that show ?thesis using outcomes_open_generated(4) by blast
next
  case (LogoutAllRequest u)
  with assms obtain p where "LogoutAll env u w = (p, w')" by (auto dest!: replied_db)
  from served_event [OF LogoutAll_serves this] that show ?thesis using outcomes_open_generated(5) by blast
qed

lemma serve_auth_evolves: "evolves (tokens (w_db w)) (tokens (w_db (snd (serve_auth env cfg m q w))))"
proof -
  obtain r w' where s: "serve_auth env cfg m q w = (r, w')" by force
  then obtain ev where "w_db w' = apply_event ev (w_db w)" by (rule serve_auth_event)
  with s evolves_event show ?thesis by simp
qed

lemma serve_all_evolves:
  "evolves (tokens (w_db w)) (tokens (w_db (snd (serve_all (serve_auth env cfg m) qs w))))"
proof (induction qs arbitrary: w)
  case (Cons q qs)
  have "snd (serve_all (serve_auth env cfg m) (q # qs) w)
      = snd (serve_all (serve_auth env cfg m) qs (snd (serve_auth env cfg m q w)))"
    by (simp split: prod.split)
  with evolves_trans [OF serve_auth_evolves Cons.IH] show ?case by simp
qed simp

section \<open>A token is accepted once\<close>

definition refresh_key :: "auth_request \<Rightarrow> string option" where
  "refresh_key q = (case q of RefreshRequest tok ip \<Rightarrow> Some tok | _ \<Rightarrow> None)"

definition used_token :: "env \<Rightarrow> manager \<Rightarrow> world \<Rightarrow> string \<Rightarrow> bool" where
  "used_token env m w tok \<longleftrightarrow> (\<forall>c. valid_refresh env m tok c \<longrightarrow>
     (\<exists>r. token_of (w_db w) (jc_ID c) = Some r \<and> rt_revoked r))"

lemma refresh_uses:
  assumes "jwt_stable env" "Refresh env cfg m tok ip w = (Inr p, w')"
  shows "\<not> used_token env m w tok \<and> used_token env m w' tok"
proof -
  from served_event [OF Refresh_serves assms(2)] obtain c ev where c: "valid_refresh env m tok c"
    and o: "refresh_outcome env m c (w_db w) (Inr p) ev" and w': "w_db w' = apply_event ev (w_db w)"
    by (auto simp: refresh_served_def)
  from o obtain q r where rot: "rotation env m c (w_db w) q r" and ev: "ev = Rotated (jc_ID c) r"
    by (rule refresh_outcome_okE) blast
  from rot obtain s where s: "token_of (w_db w) (jc_ID c) = Some s" "\<not> rt_revoked s"
    by (auto simp: rotation_def presented_def)
  have same: "c' = c" if "valid_refresh env m tok c'" for c'
    using assms(1) that c unfolding jwt_stable_def valid_refresh_def by blast
  from s(1) have "rt_jti s = jc_ID c" by (rule token_of_Some [THEN conjunct2])
  then have "token_of (w_db w') (jc_ID c) = Some (close_row s)"
    unfolding w' ev apply_event.simps by (intro token_of_add) (simp add: token_of_revoke s(1))
  with same have "used_token env m w' tok" unfolding used_token_def by (metis close_row_simps(4))
  moreover have "\<not> used_token env m w tok" using s c unfolding used_token_def by force
  ultimately show ?thesis by blast
qed

interpretation refreshes: one_time "serve_auth env cfg m" "\<lambda>_. jwt_stable env" refresh_key "used_token env m"
  for env cfg m
proof unfold_locales
  fix w w' q t k
  assume "jwt_stable env" "serve_auth env cfg m q w = (Inr t, w')" "refresh_key q = Some k"
  then show "\<not> used_token env m w k \<and> used_token env m w' k"
    using refresh_uses by (auto simp: refresh_key_def replied_def split: auth_request.splits prod.splits sum.splits)
next
  fix w k q
  assume used: "used_token env m w k"
  show "used_token env m (snd (serve_auth env cfg m q w)) k"
    unfolding used_token_def
  proof (intro allI impI)
    fix c assume "valid_refresh env m k c"
    with used obtain r where "token_of (w_db w) (jc_ID c) = Some r" "rt_revoked r"
      unfolding used_token_def by blast
    with evolves_token [OF serve_auth_evolves] show "\<exists>r. token_of (w_db (snd (serve_auth env cfg m q w))) (jc_ID c) = Some r \<and> rt_revoked r"
      by (metis close_row_revoked same_session_def)
  qed
qed

section \<open>Properties\<close>

text \<open>
  A refresh session is never deleted, never passes to another user or family and keeps its
  expiry; once closed it stays closed: for any sequence of requests and all faults.
\<close>
lemma sessions_only_close:
  assumes "token_of (w_db w) jti = Some r"
  shows "\<exists>r'. token_of (w_db (snd (serve_all (serve_auth env cfg m) qs w))) jti = Some r'
    \<and> rt_user r' = rt_user r \<and> rt_family r' = rt_family r \<and> rt_expires_at r' = rt_expires_at r
    \<and> (rt_revoked r \<longrightarrow> rt_revoked r')"
proof -
  obtain r' where "token_of (w_db (snd (serve_all (serve_auth env cfg m) qs w))) jti = Some r'" "same_session r r'"
    using serve_all_evolves assms by (rule evolves_token)
  then show ?thesis by (auto simp: same_session_def)
qed

text \<open>
  C17: a refresh token is accepted at most once: in any sequence of requests, whatever fails and
  whatever happens in between, \<open>Refresh\<close> answers a given token with new tokens at most once.
\<close>
theorem refresh_single_use:
  assumes "jwt_stable env"
  shows "length (filter (\<lambda>(q, r). (\<exists>ip. q = RefreshRequest tok ip) \<and> \<not> isl r)
           (fst (serve_all (serve_auth env cfg m) qs w))) \<le> 1"
proof -
  have "(\<lambda>(q, r). (\<exists>ip. q = RefreshRequest tok ip) \<and> \<not> isl r) = refreshes.accepts tok"
    by (rule ext) (auto simp: refreshes.accepts_def refresh_key_def split: auth_request.splits)
  with refreshes.at_most_one [of env tok] assms show ?thesis by simp
qed

theorem refresh_single_use_witness:
  "length (filter (\<lambda>(q, r). (\<exists>ip. q = RefreshRequest ''OLD'' ip) \<and> \<not> isl r)
      (fst (serve_all (serve_auth auth_env sample_limits sample_manager)
        [RefreshRequest ''OLD'' ''ip'', RefreshRequest ''OLD'' ''ip''] (sample_world (session_db False))))) \<le> 1
   \<and> \<not> isl (fst (serve_auth auth_env sample_limits sample_manager (RefreshRequest ''OLD'' ''ip'')
        (sample_world (session_db False))))"
proof
  show "\<not> isl (fst (serve_auth auth_env sample_limits sample_manager (RefreshRequest ''OLD'' ''ip'')
      (sample_world (session_db False))))" by code_simp
qed (rule refresh_single_use [OF auth_env_stable])

text \<open>
  C18: who logs in knows the password: \<open>Login\<close> succeeds only for an account with the normalised
  e-mail whose stored hash matches the password; the pair is signed for that account and its
  role, and the one change of the tables is an open session of that account for the refresh
  token, until the token's expiry.
\<close>
theorem login_authenticates:
  assumes "Login env cfg m email password ip w = (Inr p, w')"
  shows "\<exists>a pair r. a \<in> set (accounts (w_db w))
    \<and> e_pg_lower env (ar_email a) = e_pg_lower env (normalizeEmail env email)
    \<and> e_bcrypt_compare env (ar_password_hash a) password
    \<and> issued env m (e_uuid_text env (ar_id a)) (ar_role a) pair \<and> p = publicTokenPair pair
    \<and> w_db w' = (w_db w)\<lparr>tokens := tokens (w_db w) @ [r]\<rparr>
    \<and> rt_jti r = tp_JTI pair \<and> rt_user r = ar_id a \<and> \<not> rt_revoked r
    \<and> rt_expires_at r = pg_time (tp_ExpiresAt pair) \<and> token_of (w_db w) (tp_JTI pair) = None"
proof -
  from served_event [OF Login_serves assms] obtain ev where ev: "enabled ev (w_db w)"
    "w_db w' = apply_event ev (w_db w)" "login_outcome env m email password (w_db w) (Inr p) ev" by blast
  from ev(3) show ?thesis
  proof (cases rule: login_outcome.cases)
    case (opened pair r)
    then obtain a where "a \<in> set (accounts (w_db w))"
      "e_pg_lower env (ar_email a) = e_pg_lower env (normalizeEmail env email)"
      "e_bcrypt_compare env (ar_password_hash a) password"
      "issued env m (e_uuid_text env (ar_id a)) (ar_role a) pair" "session_row pair (ar_id a) (rt_family r) r"
      by (auto simp: login_session_def)
    with opened ev(1,2) show ?thesis
      by (intro exI [of _ a] exI [of _ pair] exI [of _ r]) (simp add: session_row_def add_token_def)
  qed
qed

theorem login_authenticates_witness:
  "\<exists>a pair r (w' :: world). a \<in> set (accounts (session_db False)) \<and> ar_email a = ''alice@example.com''
    \<and> issued auth_env sample_manager (e_uuid_text auth_env (ar_id a)) (ar_role a) pair
    \<and> w_db w' = (session_db False)\<lparr>tokens := tokens (session_db False) @ [r]\<rparr> \<and> rt_user r = ar_id a"
proof -
  have "\<not> isl (fst (Login auth_env sample_limits sample_manager '' Alice@Example.com'' ''pass-word'' ''ip''
      (sample_world (session_db False))))" by code_simp
  then obtain p w' where l: "Login auth_env sample_limits sample_manager '' Alice@Example.com'' ''pass-word'' ''ip''
      (sample_world (session_db False)) = (Inr p, w')" by (metis prod.collapse sum.collapse(2))
  have n: "normalizeEmail auth_env '' Alice@Example.com'' = ''alice@example.com''" by code_simp
  have lower: "e_pg_lower auth_env s = s" for s by (simp add: auth_env_def sample_env_def)
  from login_authenticates [OF l, unfolded n lower] show ?thesis
    unfolding sample_world_simps by blast
qed

end
