(* ===== verification/Email_Props.thy ===== *)
theory Email_Props
  imports Auth
begin

text \<open>
  The e-mail pattern of \<open>auth.go\<close>, a regular expression matched by derivatives, against a
  description of the addresses it accepts.
\<close>

definition alnum :: "char \<Rightarrow> bool" where
  "alnum c \<longleftrightarrow> in_ranges lower_alnum c"

definition label_char :: "char \<Rightarrow> bool" where
  "label_char c \<longleftrightarrow> in_ranges (lower_alnum @ single_chars ''-'') c"

text \<open>A domain label: 1 to 63 letters, digits and hyphens, no hyphen at either end.\<close>

definition domain_label :: "string \<Rightarrow> bool" where
  "domain_label s \<longleftrightarrow> s \<noteq> [] \<and> length s \<le> 63 \<and> list_all label_char s \<and> alnum (hd s) \<and> alnum (last s)"

definition dotted :: "string list \<Rightarrow> string" where
  "dotted ls = concat (map (\<lambda>l. CHR ''.'' # l) ls)"

text \<open>A non-empty local part, \<open>@\<close>, at least two labels with dots between them.\<close>

definition address :: "string \<Rightarrow> bool" where
  "address s \<longleftrightarrow> (\<exists>user l ls. s = user @ CHR ''@'' # l @ dotted ls \<and> user \<noteq> [] \<and> list_all (in_ranges local_class) user
     \<and> domain_label l \<and> ls \<noteq> [] \<and> list_all domain_label ls)"

lemma in_ranges_char [simp]: "in_ranges [(c, c)] x \<longleftrightarrow> x = c"
proof -
  have "of_char c \<le> (of_char x :: int) \<and> of_char x \<le> (of_char c :: int) \<longleftrightarrow> of_char x = (of_char c :: int)" by auto
  then show ?thesis by (simp add: in_ranges_def)
qed

lemma lang_RChar: "lang (RChar c) = {[c]}"
  by (simp add: RChar_def)

lemma star_class: "star {[c] | c. P c} = {s. list_all P s}"
proof (rule set_eqI)
  fix s show "s \<in> star {[c] | c. P c} \<longleftrightarrow> s \<in> {s. list_all P s}"
  proof (induction s)
    case (Cons c s)
    have "c # s \<in> star {[c] | c. P c} \<longleftrightarrow> P c \<and> s \<in> star {[c] | c. P c}"
      unfolding star_Cons by auto
    with Cons show ?case by simp
  qed (simp add: star.star_Nil)
qed

lemma lang_class_seq:
  "s \<in> lang (RSeq (RClass rs) r) \<longleftrightarrow> (\<exists>c t. s = c # t \<and> in_ranges rs c \<and> t \<in> lang r)"
proof
  assume "s \<in> lang (RSeq (RClass rs) r)"
  then show "\<exists>c t. s = c # t \<and> in_ranges rs c \<and> t \<in> lang r" by auto
next
  assume "\<exists>c t. s = c # t \<and> in_ranges rs c \<and> t \<in> lang r"
  then obtain c t where "s = [c] @ t" "in_ranges rs c" "t \<in> lang r" by auto
  then show "s \<in> lang (RSeq (RClass rs) r)" unfolding lang.simps by blast
qed

lemma lang_RPlus_class: "lang (RPlus (RClass rs)) = {s. s \<noteq> [] \<and> list_all (in_ranges rs) s}"
proof -
  have "s \<in> lang (RPlus (RClass rs)) \<longleftrightarrow> s \<noteq> [] \<and> list_all (in_ranges rs) s" for s
    unfolding RPlus_def lang_class_seq by (cases s) (auto simp: star_class)
  then show ?thesis by blast
qed

lemma lang_RUpTo_class: "lang (RUpTo n (RClass rs)) = {s. length s \<le> n \<and> list_all (in_ranges rs) s}"
proof (induction n)
  case (Suc n)
  have "s \<in> lang (RUpTo (Suc n) (RClass rs)) \<longleftrightarrow> length s \<le> Suc n \<and> list_all (in_ranges rs) s" for s
    unfolding RUpTo.simps lang.simps(5) Un_iff lang_class_seq Suc by (cases s) auto
  then show ?case by blast
qed auto

lemma alnum_label: "alnum c \<Longrightarrow> label_char c"
  by (simp add: alnum_def label_char_def in_ranges_def)

lemma lang_label: "lang label_rx = {s. domain_label s}"
proof -
  have tail: "t \<in> lang (ROpt (RSeq (RUpTo 61 (RClass (lower_alnum @ single_chars ''-''))) (RClass lower_alnum)))
      \<longleftrightarrow> t = [] \<or> (\<exists>u c. t = u @ [c] \<and> length u \<le> 61 \<and> list_all label_char u \<and> alnum c)" for t
    unfolding ROpt_def lang.simps lang_RUpTo_class by (auto simp: label_char_def [abs_def] alnum_def)
  have "s \<in> lang label_rx \<longleftrightarrow> (\<exists>c t. s = c # t \<and> alnum c \<and> (t = []
      \<or> (\<exists>u e. t = u @ [e] \<and> length u \<le> 61 \<and> list_all label_char u \<and> alnum e)))" for s
    unfolding label_rx_def lang_class_seq tail alnum_def ..
  also have "\<dots> s \<longleftrightarrow> domain_label s" for s
  proof
    assume "domain_label s"
    then obtain c t where s: "s = c # t" "alnum c" "list_all label_char t" "length t \<le> 62" "alnum (last s)"
      by (cases s) (auto simp: domain_label_def)
    show "\<exists>c t. s = c # t \<and> alnum c \<and> (t = []
      \<or> (\<exists>u e. t = u @ [e] \<and> length u \<le> 61 \<and> list_all label_char u \<and> alnum e))"
      using s by (cases t rule: rev_cases) auto
  qed (auto simp: domain_label_def alnum_label)
  finally show ?thesis by blast
qed

lemma lang_labels: "lang (RStar (RSeq (RChar (CHR ''.'')) label_rx)) = {dotted ls | ls. list_all domain_label ls}"
proof -
  have "s \<in> star {u @ v | u v. u \<in> {[CHR ''.'']} \<and> v \<in> {s. domain_label s}} \<Longrightarrow> \<exists>ls. s = dotted ls \<and> list_all domain_label ls" for s
  proof (induction rule: star.induct)
    case star_Nil
    show ?case by (rule exI [of _ "[]"]) (simp add: dotted_def)
  next
    case (star_app u v)
    then obtain l ls where "u = CHR ''.'' # l" "domain_label l" "v = dotted ls" "list_all domain_label ls" by auto
    then show ?case by (intro exI [of _ "l # ls"]) (simp add: dotted_def)
  qed
  moreover have "list_all domain_label ls \<Longrightarrow>
      dotted ls \<in> star {u @ v | u v. u \<in> {[CHR ''.'']} \<and> v \<in> {s. domain_label s}}" for ls
  proof (induction ls)
    case (Cons l ls)
    then have "(CHR ''.'' # l) @ dotted ls \<in> star {u @ v | u v. u \<in> {[CHR ''.'']} \<and> v \<in> {s. domain_label s}}"
      by (intro star.star_app) auto
    then show ?case by (simp add: dotted_def)
  qed (simp add: dotted_def star.star_Nil)
  ultimately show ?thesis unfolding lang.simps lang_RChar lang_label by blast
qed

lemma lang_more_labels:
  "lang (RPlus (RSeq (RChar (CHR ''.'')) label_rx)) = {dotted ls | ls. ls \<noteq> [] \<and> list_all domain_label ls}"
proof -
  have "lang (RPlus (RSeq (RChar (CHR ''.'')) label_rx))
      = {u @ v | u v. u \<in> {CHR ''.'' # l | l. domain_label l} \<and> v \<in> {dotted ls | ls. list_all domain_label ls}}"
    unfolding RPlus_def lang.simps(4) lang_labels [unfolded lang.simps(4)] lang_RChar lang_label by auto
  also have "\<dots> = {dotted ls | ls. ls \<noteq> [] \<and> list_all domain_label ls}"
  proof (intro equalityI subsetI)
    fix s assume "s \<in> {u @ v | u v. u \<in> {CHR ''.'' # l | l. domain_label l} \<and> v \<in> {dotted ls | ls. list_all domain_label ls}}"
    then obtain l ls where "s = (CHR ''.'' # l) @ dotted ls" "domain_label l" "list_all domain_label ls" by blast
    then show "s \<in> {dotted ls | ls. ls \<noteq> [] \<and> list_all domain_label ls}"
      by (intro CollectI exI [of _ "l # ls"]) (simp add: dotted_def)
  next
    fix s assume "s \<in> {dotted ls | ls. ls \<noteq> [] \<and> list_all domain_label ls}"
    then obtain ls where ls: "s = dotted ls" "ls \<noteq> []" "list_all domain_label ls" by blast
    then obtain l ls' where "ls = l # ls'" by (cases ls) auto
    with ls have "s = (CHR ''.'' # l) @ dotted ls'" "domain_label l" "list_all domain_label ls'"
      by (simp_all add: dotted_def)
    then show "s \<in> {u @ v | u v. u \<in> {CHR ''.'' # l | l. domain_label l} \<and> v \<in> {dotted ls | ls. list_all domain_label ls}}"
      by blast
  qed
  finally show ?thesis .
qed

lemma lang_email: "lang emailPattern = {s. address s}"
proof (intro equalityI subsetI)
  fix s assume "s \<in> lang emailPattern"
  then obtain user l rest where "s = user @ [CHR ''@''] @ l @ rest" "user \<in> lang (RPlus (RClass local_class))"
    "l \<in> lang label_rx" "rest \<in> lang (RPlus (RSeq (RChar (CHR ''.'')) label_rx))"
    unfolding emailPattern_def lang.simps(4) lang_RChar by blast
  then show "s \<in> {s. address s}"
    unfolding lang_RPlus_class lang_label lang_more_labels address_def by auto
next
  fix s assume "s \<in> {s. address s}"
  then obtain user l ls where "s = user @ [CHR ''@''] @ l @ dotted ls" "user \<in> lang (RPlus (RClass local_class))"
    "l \<in> lang label_rx" "dotted ls \<in> lang (RPlus (RSeq (RChar (CHR ''.'')) label_rx))"
    unfolding lang_RPlus_class lang_label lang_more_labels address_def by auto
  then show "s \<in> lang emailPattern" unfolding emailPattern_def lang.simps(4) lang_RChar by blast
qed

text \<open>An accepted address is ASCII without the zero byte.\<close>

lemma in_ranges_ascii:
  assumes "in_ranges rs c" "list_all (\<lambda>(lo, hi). 0 < (of_char lo :: int) \<and> (of_char hi :: int) < 128) rs"
  shows "ascii c \<and> c \<noteq> CHR 0x00"
proof -
  from assms obtain lo hi where "(of_char lo :: int) \<le> of_char c" "(of_char c :: int) \<le> of_char hi"
    "0 < (of_char lo :: int)" "(of_char hi :: int) < 128"
    unfolding in_ranges_def list_ex_iff list_all_iff by blast
  then show ?thesis by (auto simp: ascii_def)
qed

lemma label_char_ascii: "label_char c \<Longrightarrow> ascii c \<and> c \<noteq> CHR 0x00"
  unfolding label_char_def by (erule in_ranges_ascii) code_simp

lemma local_char_ascii: "in_ranges local_class c \<Longrightarrow> ascii c \<and> c \<noteq> CHR 0x00"
  by (erule in_ranges_ascii) code_simp

lemma domain_label_ascii: "domain_label l \<Longrightarrow> list_all (\<lambda>c. ascii c \<and> c \<noteq> CHR 0x00) l"
  unfolding domain_label_def list_all_iff by (blast dest: label_char_ascii)

lemma dotted_ascii: "list_all domain_label ls \<Longrightarrow> list_all (\<lambda>c. ascii c \<and> c \<noteq> CHR 0x00) (dotted ls)"
proof (induction ls)
  case (Cons l ls)
  then show ?case using domain_label_ascii [of l] by (simp add: dotted_def ascii_def)
qed (simp add: dotted_def)

lemma address_ascii:
  assumes "address s"
  shows "list_all (\<lambda>c. ascii c \<and> c \<noteq> CHR 0x00) s"
proof -
  from assms obtain user l ls where s: "s = user @ CHR ''@'' # l @ dotted ls"
    "list_all (in_ranges local_class) user" "domain_label l" "list_all domain_label ls"
    unfolding address_def by blast
  have "list_all (\<lambda>c. ascii c \<and> c \<noteq> CHR 0x00) user"
    using s(2) unfolding list_all_iff by (blast dest: local_char_ascii)
  with s(1) domain_label_ascii [OF s(3)] dotted_ascii [OF s(4)] show ?thesis by (simp add: ascii_def)
qed

lemma validEmail_text: "validEmail email \<Longrightarrow> pg_text email"
  by (intro pg_text_ascii address_ascii) (simp add: validEmail_def rx_match_lang lang_email)

text \<open>
  C26: the check of the e-mail accepts exactly the addresses of at most 254 bytes with a
  non-empty local part of the allowed characters and a domain of at least two labels, each of
  1 to 63 letters, digits and inner hyphens.
\<close>
theorem valid_email_iff:
  "validEmail email \<longleftrightarrow> length email \<le> 254 \<and> address email"
proof -
  have "address email \<Longrightarrow> email \<noteq> []" by (auto simp: address_def)
  then show ?thesis by (auto simp: validEmail_def maxEmailLen_def rx_match_lang lang_email)
qed

end
