(* ===== verification/Auth_Calm.thy ===== *)
theory Auth_Calm
  imports Auth_Samples Email_Props
begin

text \<open>
  The services of \<open>auth.go\<close> when the infrastructure works (\<open>calm\<close>): the reply of each and
  the tables after it are then given by a case distinction, every refusal included.
\<close>

section \<open>The repositories without faults\<close>

lemma select_calm:
  "calm env \<Longrightarrow> on_tx w d now \<Longrightarrow> select_row env q scan w =
     (case q d of None \<Rightarrow> (Inl NoRows, put_tx d now w) | Some x \<Rightarrow> (scan x, put_tx d now w))"
  by (simp add: select_row_def bindE_def sql_calm liftR_def split: option.split)

lemma GetRefreshToken_calm:
  "calm env \<Longrightarrow> on_tx w d now \<Longrightarrow> tok_GetRefreshToken env jti w =
     (case token_of d jti of None \<Rightarrow> (Inl (Sentinel ErrRefreshTokenNotFound), put_tx d now w)
      | Some s \<Rightarrow> (Inr \<lparr>rs_UserID = rt_user s, rs_FamilyID = rt_family s, rs_Revoked = rt_revoked s,
          rs_ExpiresAt = rt_expires_at s\<rparr>, put_tx d now w))"
  by (simp add: tok_GetRefreshToken_def mapErr_def select_calm row_error_def scan_session_def
    token_of_def split: option.split)

lemma revoke_calm:
  "calm env \<Longrightarrow> on_tx w d now \<Longrightarrow> bindE (mapErr m (sql env (revoke_tokens P)))
      (\<lambda>rows. if rows = 0 then failE (Sentinel E) else returnE ()) w =
     (if \<exists>x\<in>set (tokens d). P x \<and> \<not> rt_revoked x then Inr () else Inl (Sentinel E), put_tx (revoke P d) now w)"
  by (auto simp: bindE_def mapErr_def sql_calm revoke_statement filter_empty_conv)

lemma RevokeToken_calm:
  "calm env \<Longrightarrow> on_tx w d now \<Longrightarrow> tok_RevokeRefreshToken env j w =
     (if \<exists>x\<in>set (tokens d). rt_jti x = j \<and> \<not> rt_revoked x then Inr ()
      else Inl (Sentinel ErrRefreshTokenNotFound), put_tx (revoke (\<lambda>r. rt_jti r = j) d) now w)"
  unfolding tok_RevokeRefreshToken_def by (rule revoke_calm)

lemma RevokeUser_calm:
  "calm env \<Longrightarrow> on_tx w d now \<Longrightarrow> tok_RevokeAllUserTokens env u w =
     (if \<exists>x\<in>set (tokens d). rt_user x = u \<and> \<not> rt_revoked x then Inr ()
      else Inl (Sentinel ErrUserNotFound), put_tx (revoke (\<lambda>r. rt_user r = u) d) now w)"
  unfolding tok_RevokeAllUserTokens_def by (rule revoke_calm)

lemma RevokeFamily_calm:
  "calm env \<Longrightarrow> on_tx w d now \<Longrightarrow> tok_RevokeTokenFamily env f w = (Inr (), put_tx (revoke (\<lambda>r. rt_family r = f) d) now w)"
  by (simp add: tok_RevokeTokenFamily_def bindE_def mapErr_def sql_calm revoke_statement)

lemma SaveToken_calm:
  assumes "calm env" "on_tx w d now" "token_of d jti = None" "account_exists d u"
  shows "\<exists>r. tok_SaveRefreshToken env jti u f e w = (Inr (), put_tx (add_token r d) now w)
     \<and> rt_jti r = jti \<and> rt_user r = u \<and> rt_family r = f \<and> \<not> rt_revoked r \<and> rt_expires_at r = pg_time e"
  using assms(3,4)
  by (auto simp: tok_SaveRefreshToken_def bindE_def mapErr_def sql_calm [OF assms(1,2)] insert_token_def
    Let_def add_token_def token_of_None)

text \<open>Signing and the generator of ids work, and the ids they draw are new.\<close>

definition signing_works :: "env \<Rightarrow> database \<Rightarrow> bool" where
  "signing_works env d \<longleftrightarrow> (\<forall>k c. \<exists>t. e_jwt_sign env k c = Inr t)
     \<and> (\<forall>n. \<exists>u. e_uuid env n = Inr u \<and> token_of d (e_uuid_text env u) = None)"

lemma GenerateTokenPair_works:
  assumes "signing_works env d"
  shows "\<exists>p. GenerateTokenPair env m u role w = (Inr p, tick (tick w)) \<and> token_of d (tp_JTI p) = None
     \<and> tp_ExpiresAt p = e_clock env (w_tick w) + m_refreshTTL m"
proof -
  obtain i where i: "e_uuid env (Suc (w_tick w)) = Inr i" "token_of d (e_uuid_text env i) = None"
    using assms unfolding signing_works_def by blast
  obtain a where a: "e_jwt_sign env (m_accessSecret m) (access_claims m u role (e_clock env (w_tick w))) = Inr a"
    using assms unfolding signing_works_def by blast
  obtain b where b: "e_jwt_sign env (m_refreshSecret m)
      (refresh_claims m u (e_uuid_text env i) (e_clock env (w_tick w))) = Inr b"
    using assms unfolding signing_works_def by blast
  from i a b show ?thesis by (simp add: GenerateTokenPair_def now_nano_def new_uuid_def)
qed

lemma on_tx_tick [simp]: "on_tx (tick w) d now = on_tx w d now"
  by (simp add: on_tx_def)

lemma GetById_calm:
  assumes "calm env" "on_tx w d now" "accounts_ok d" "account_exists d i"
  shows "\<exists>ac. acc_GetById env i w = (Inr ac, put_tx d now w) \<and> ac_ID ac = i"
proof -
  from assms(4) obtain a where a: "a \<in> set (accounts d)" "ar_id a = i" by (auto simp: account_exists_def)
  then have f: "find_row (\<lambda>r. ar_id r = i) (accounts d) = Some a"
    using find_row_unique [of ar_id "accounts d" a] assms(3) by (simp add: accounts_ok_def)
  from a(1) assms(3) have "storable (ar_balance a)" by (simp add: accounts_ok_def)
  from scan_account_ok [OF this] obtain ac where "scan_account a = Inr ac" "ac_ID ac = ar_id a"
    by (auto simp: shows_account_def)
  with f a(2) show ?thesis by (simp add: acc_GetById_def mapErr_def select_calm [OF assms(1,2)])
qed

section \<open>Refresh\<close>

lemma revokeFamily_calm:
  "calm env \<Longrightarrow> on_tx w d now \<Longrightarrow> \<exists>w'. revokeFamilyAfterReuse env f w = (Inl (Sentinel ErrRefreshTokenReuse), w')
     \<and> w_db w' = revoke (\<lambda>r. rt_family r = f) d"
  by (simp add: revokeFamilyAfterReuse_def bindE_def mapErr_def RevokeFamily_calm
    Commit_calm [of env _ "revoke (\<lambda>r. rt_family r = f) d" now])

text \<open>The reply for a session, when its clock is read as \<open>now\<close>: an error and what is closed, or rotation.\<close>

definition refresh_verdict :: "env \<Rightarrow> jwt_claims \<Rightarrow> time \<Rightarrow> database \<Rightarrow> (error \<times> database) option" where
  "refresh_verdict env c now d = (case token_of d (jc_ID c) of
     None \<Rightarrow> Some (Sentinel ErrInvalidRefreshToken, d)
   | Some s \<Rightarrow>
       if jc_UserID c \<noteq> e_uuid_text env (rt_user s) then Some (Sentinel ErrInvalidRefreshToken, d)
       else if rt_revoked s then Some (Sentinel ErrRefreshTokenReuse, revoke (\<lambda>r. rt_family r = rt_family s) d)
       else if \<not> now < rt_expires_at s then Some (Sentinel ErrRefreshTokenExpired, revoke (\<lambda>r. rt_jti r = jc_ID c) d)
       else None)"

text \<open>A rotation: the presented row is closed and a new one written.\<close>

lemma refreshBody_rotates:
  fixes w :: "'z world_scheme"
  assumes "calm env" "on_tx w d now" "signing_works env d" "db_inv d" "refreshBody env m c w = (r, w')"
    and s: "token_of d (jc_ID c) = Some s" "jc_UserID c = e_uuid_text env (rt_user s)" "\<not> rt_revoked s"
      "e_clock env (Suc (w_tick w)) < rt_expires_at s"
  shows "\<not> isl r"
proof -
  let ?w1 = "put_tx d now w" and ?d1 = "revoke (\<lambda>r. rt_jti r = jc_ID c) d"
  let ?w2 = "put_tx ?d1 now (tick ?w1)"
  have s_in: "s \<in> set (tokens d)" "rt_jti s = jc_ID c" using token_of_Some [OF s(1)] by simp_all
  have on2: "on_tx (tick ?w1) d now" by simp
  have rv: "tok_RevokeRefreshToken env (jc_ID c) (tick ?w1) = (Inr (), ?w2)"
    using RevokeToken_calm [OF assms(1) on2, of "jc_ID c"] s_in s(3) by auto
  have ex: "account_exists ?d1 (rt_user s)"
    using assms(4) s_in(1) by (auto simp: db_inv_def tokens_ok_def)
  obtain ac where ac: "acc_GetById env (rt_user s) ?w2 = (Inr ac, put_tx ?d1 now ?w2)" "ac_ID ac = rt_user s"
    using GetById_calm [OF assms(1) _ _ ex, of ?w2 now] revoke_inv [OF assms(4)] by (auto simp: db_inv_def)
  obtain p where p: "GenerateTokenPair env m (e_uuid_text env (rt_user s)) (ac_Role ac) (put_tx ?d1 now ?w2)
      = (Inr p, tick (tick (put_tx ?d1 now ?w2)))" "token_of ?d1 (tp_JTI p) = None"
    using GenerateTokenPair_works [OF assms(3)] token_of_revoke_None by metis
  obtain row where sv: "tok_SaveRefreshToken env (tp_JTI p) (rt_user s) (rt_family s) (tp_ExpiresAt p)
      (tick (tick (put_tx ?d1 now ?w2))) = (Inr (), put_tx (add_token row ?d1) now (tick (tick (put_tx ?d1 now ?w2))))"
    using SaveToken_calm [OF assms(1) _ p(2) ex, of "tick (tick (put_tx ?d1 now ?w2))" now] by auto
  from s assms(5) GetRefreshToken_calm [OF assms(1,2), of "jc_ID c"] rv ac p sv show ?thesis
    by (auto simp: refreshBody_def bindE_def mapErr_def catchE_def now_nano_def
        Commit_calm [OF assms(1), of _ "add_token row ?d1" now])
qed

lemma refreshBody_calm:
  fixes w :: "'z world_scheme"
  assumes "calm env" "on_tx w d now" "w_db w = d" "signing_works env d" "db_inv d"
    "refreshBody env m c w = (r, w')"
  shows "case refresh_verdict env c (e_clock env (Suc (w_tick w))) d of
     Some (e, d') \<Rightarrow> r = Inl e \<and> w_db w' = d' | None \<Rightarrow> \<not> isl r"
proof (cases "token_of d (jc_ID c)")
  case None
  with assms(6,3) show ?thesis
    by (auto simp: refreshBody_def bindE_def mapErr_def GetRefreshToken_calm [OF assms(1,2)] refresh_verdict_def)
next
  case (Some s)
  note get = GetRefreshToken_calm [OF assms(1,2), of "jc_ID c"]
  have s_in: "s \<in> set (tokens d)" "rt_jti s = jc_ID c" using token_of_Some [OF Some] by simp_all
  let ?w1 = "put_tx d now w" and ?P = "\<lambda>r. rt_jti r = jc_ID c"
  have on1: "on_tx ?w1 d now" "on_tx (tick ?w1) d now" by simp_all
  consider (other) "jc_UserID c \<noteq> e_uuid_text env (rt_user s)"
    | (reused) "jc_UserID c = e_uuid_text env (rt_user s)" "rt_revoked s"
    | (late) "jc_UserID c = e_uuid_text env (rt_user s)" "\<not> rt_revoked s" "\<not> e_clock env (Suc (w_tick w)) < rt_expires_at s"
    | (good) "jc_UserID c = e_uuid_text env (rt_user s)" "\<not> rt_revoked s" "e_clock env (Suc (w_tick w)) < rt_expires_at s"
    by blast
  then show ?thesis
  proof cases
    case other
    with Some assms(6,3) get show ?thesis
      by (auto simp: refreshBody_def bindE_def mapErr_def refresh_verdict_def)
  next
    case reused
    with Some assms(6) get have "revokeFamilyAfterReuse env (rt_family s) ?w1 = (r, w')"
      by (simp add: refreshBody_def bindE_def mapErr_def)
    moreover obtain w2 where "(revokeFamilyAfterReuse env (rt_family s) :: ('z, token_pair) io) ?w1
        = (Inl (Sentinel ErrRefreshTokenReuse), w2)" "w_db w2 = revoke (\<lambda>r. rt_family r = rt_family s) d"
      using revokeFamily_calm [OF assms(1) on1(1)] by blast
    ultimately show ?thesis using reused Some by (simp add: refresh_verdict_def)
  next
    case late
    have "tok_RevokeRefreshToken env (jc_ID c) (tick ?w1) = (Inr (), put_tx (revoke ?P d) now (tick ?w1))"
      using RevokeToken_calm [OF assms(1) on1(2), of "jc_ID c"] s_in late by auto
    with late Some assms(6) get show ?thesis
      by (auto simp: refreshBody_def bindE_def mapErr_def catchE_def now_nano_def refresh_verdict_def
          Commit_calm [OF assms(1), of _ "revoke ?P d" now])
  next
    case good
    then show ?thesis
      using refreshBody_rotates [OF assms(1,2,4,5,6) Some] Some by (simp add: refresh_verdict_def)
  qed
qed

text \<open>\<open>Refresh\<close> once its token is admitted and valid.\<close>

lemma same_sql_db_eq: "stays same_sql f \<Longrightarrow> f w = (r, w') \<Longrightarrow> w_db w' = w_db w"
  by (auto dest: staysD simp: same_sql_def)

lemma Refresh_calm:
  assumes "calm env" "signing_works env (w_db w)" "db_inv (w_db w)" "tok \<noteq> []"
    "checkRateLimit env cfg ''refresh'' ip w = (Inr (), w1)" "ValidateRefreshToken env m tok w1 = (Inr c, w2)"
    "Refresh env cfg m tok ip w = (r, w')"
  shows "(case refresh_verdict env c (e_clock env (w_tick w2 + 2)) (w_db w) of
       Some (e, d') \<Rightarrow> r = Inl e \<and> w_db w' = d' | None \<Rightarrow> \<not> isl r)
     \<and> (\<exists>ev. w_db w' = apply_event ev (w_db w) \<and> refresh_outcome env m c (w_db w) r ev)"
proof -
  have d: "w_db w1 = w_db w" "w_db w2 = w_db w"
    using same_sql_db_eq [OF stays_checkRateLimit assms(5)]
      same_sql_db_eq [OF same_stores_sql [OF stays_ValidateToken(2)] assms(6)] by simp_all
  let ?now = "e_pg_now env (w_tick w2)"
  let ?w3 = "put_tx (w_db w) ?now w2"
  from assms(4-7) have "with_tx env (Wrapped ''open refresh transaction'') (refreshBody env m c) w2 = (r, w')"
    by (simp add: Refresh_def)
  then obtain w3 where b: "refreshBody env m c ?w3 = (r, w3)" "w_db w' = w_db w3"
    by (auto simp: with_tx_def NewTX_calm [OF assms(1)] d split: prod.splits)
  have on: "on_tx ?w3 (w_db w) ?now" "w_db ?w3 = w_db w" by (simp_all add: d)
  from ends_refreshBody [of "w_db w" env m c] on b
  have "\<exists>ev. w_db w' = apply_event ev (w_db w) \<and> refresh_outcome env m c (w_db w) r ev"
    unfolding ends_def by metis
  moreover from refreshBody_calm [OF assms(1) on assms(2,3) b(1)] b(2)
  have "case refresh_verdict env c (e_clock env (w_tick w2 + 2)) (w_db w) of
       Some (e, d') \<Rightarrow> r = Inl e \<and> w_db w' = d' | None \<Rightarrow> \<not> isl r"
    by (auto split: option.splits)
  ultimately show ?thesis by blast
qed

text \<open>
  C19: without faults, the reply of \<open>Refresh\<close> to an admitted valid token and the tables after it:
  an unknown session or one of another user is refused; a closed session is a reuse, and the
  whole family is closed; an expired one is closed; otherwise the session is closed and one of
  the same user and family takes its place, with a pair signed for the account.
\<close>
theorem refresh_decides:
  assumes "calm env" "signing_works env (w_db w)" "db_inv (w_db w)" "tok \<noteq> []"
    "checkRateLimit env cfg ''refresh'' ip w = (Inr (), w1)" "ValidateRefreshToken env m tok w1 = (Inr c, w2)"
    "Refresh env cfg m tok ip w = (r, w')"
  shows "case token_of (w_db w) (jc_ID c) of
     None \<Rightarrow> r = Inl (Sentinel ErrInvalidRefreshToken) \<and> w_db w' = w_db w
   | Some s \<Rightarrow>
       if jc_UserID c \<noteq> e_uuid_text env (rt_user s)
       then r = Inl (Sentinel ErrInvalidRefreshToken) \<and> w_db w' = w_db w
       else if rt_revoked s
       then r = Inl (Sentinel ErrRefreshTokenReuse) \<and> w_db w' = revoke (\<lambda>x. rt_family x = rt_family s) (w_db w)
       else if \<not> e_clock env (w_tick w2 + 2) < rt_expires_at s
       then r = Inl (Sentinel ErrRefreshTokenExpired) \<and> w_db w' = revoke (\<lambda>x. rt_jti x = jc_ID c) (w_db w)
       else \<exists>a pair row. r = Inr (publicTokenPair pair) \<and> a \<in> set (accounts (w_db w)) \<and> ar_id a = rt_user s
         \<and> issued env m (jc_UserID c) (ar_role a) pair \<and> session_row pair (rt_user s) (rt_family s) row
         \<and> w_db w' = add_token row (revoke (\<lambda>x. rt_jti x = jc_ID c) (w_db w))"
proof -
  note v = Refresh_calm [OF assms]
  show ?thesis
  proof (cases "refresh_verdict env c (e_clock env (w_tick w2 + 2)) (w_db w)")
    case (Some e)
    with v show ?thesis by (auto simp: refresh_verdict_def split: option.splits if_splits)
  next
    case None
    then obtain s where s: "token_of (w_db w) (jc_ID c) = Some s" "jc_UserID c = e_uuid_text env (rt_user s)"
      "\<not> rt_revoked s" "e_clock env (w_tick w2 + 2) < rt_expires_at s"
      by (auto simp: refresh_verdict_def split: option.splits if_splits)
    from v None obtain p ev where "r = Inr p" "w_db w' = apply_event ev (w_db w)"
      "refresh_outcome env m c (w_db w) (Inr p) ev" by (cases r) auto
    then obtain pair row where p: "rotation env m c (w_db w) pair row" "r = Inr (publicTokenPair pair)"
      "w_db w' = add_token row (revoke (\<lambda>x. rt_jti x = jc_ID c) (w_db w))"
      by (auto elim: refresh_outcome_okE)
    from p(1) s(1,2) obtain a where "a \<in> set (accounts (w_db w))" "ar_id a = rt_user s"
      "issued env m (jc_UserID c) (ar_role a) pair" "session_row pair (rt_user s) (rt_family s) row"
      by (auto simp: rotation_def presented_def)
    with s p show ?thesis by auto
  qed
qed

lemma auth_env_calm: "calm auth_env"
  by (simp add: calm_def auth_env_def sample_env_def)

lemma auth_env_signs: "signing_works auth_env (session_db shut)"
proof -
  have "int_text (uint u) \<noteq> ''old''" for u :: uuid
  proof
    assume "int_text (uint u) = ''old''"
    moreover have "list_all is_digit (int_text (uint u))" by (simp add: int_text_nonneg digits_nat_text)
    ultimately show False by (simp add: is_digit_def)
  qed
  then show ?thesis
    by (simp add: signing_works_def auth_env_def sample_env_def token_of_None session_db_def old_session_def)
qed

theorem refresh_decides_witness:
  "fst (Refresh auth_env sample_limits sample_manager ''OLD'' ''ip'' (sample_world (session_db True)))
     = Inl (Sentinel ErrRefreshTokenReuse)
   \<and> w_db (snd (Refresh auth_env sample_limits sample_manager ''OLD'' ''ip'' (sample_world (session_db True))))
     = revoke (\<lambda>x. rt_family x = 5) (session_db True)"
proof -
  let ?w = "sample_world (session_db True)"
  have "\<not> isl (fst (checkRateLimit auth_env sample_limits ''refresh'' ''ip'' ?w))" by code_simp
  then obtain w1 where w1: "checkRateLimit auth_env sample_limits ''refresh'' ''ip'' ?w = (Inr (), w1)"
    by (cases "checkRateLimit auth_env sample_limits ''refresh'' ''ip'' ?w"; cases "fst (checkRateLimit auth_env sample_limits ''refresh'' ''ip'' ?w)") auto
  have w2: "ValidateRefreshToken auth_env sample_manager ''OLD'' w1 = (Inr old_claims, tick w1)"
    by (rule OLD_valid)
  obtain r w' where r: "Refresh auth_env sample_limits sample_manager ''OLD'' ''ip'' ?w = (r, w')" by force
  have d: "signing_works auth_env (w_db ?w)" "db_inv (w_db ?w)"
    by (simp_all add: auth_env_signs session_db_inv)
  have "r = Inl (Sentinel ErrRefreshTokenReuse)" "w_db w' = revoke (\<lambda>x. rt_family x = 5) (session_db True)"
    using refresh_decides [OF auth_env_calm d _ w1 w2 r] by (simp_all add: session_facts alice_text)
  with r show ?thesis by simp
qed

section \<open>Login\<close>

definition account_with_email :: "env \<Rightarrow> database \<Rightarrow> string \<Rightarrow> account_row option" where
  "account_with_email env d email =
     find_row (\<lambda>r. e_pg_lower env (ar_email r) = e_pg_lower env email) (accounts d)"

lemma GetByEmail_calm:
  assumes "calm env" "on_tx w d now" "accounts_ok d"
  shows "case account_with_email env d email of
     None \<Rightarrow> acc_GetByEmail env email w = (Inl (Sentinel ErrAccountNotFound), put_tx d now w)
   | Some a \<Rightarrow> \<exists>ac. acc_GetByEmail env email w = (Inr ac, put_tx d now w) \<and> shows_account a ac"
proof (cases "account_with_email env d email")
  case None
  then show ?thesis
    by (simp add: acc_GetByEmail_def mapErr_def select_calm [OF assms(1,2)] row_error_def
        flip: account_with_email_def)
next
  case (Some a)
  then have "a \<in> set (accounts d)" unfolding account_with_email_def by (rule find_row_Some [THEN conjunct1])
  then have "storable (ar_balance a)" using assms(3) by (simp add: accounts_ok_def)
  then obtain ac where "scan_account a = Inr ac" "shows_account a ac" by (rule scan_account_ok)
  with Some show ?thesis
    by (simp add: acc_GetByEmail_def mapErr_def select_calm [OF assms(1,2)] flip: account_with_email_def)
qed

lemma loadAccount_calm:
  assumes "calm env" "accounts_ok (w_db w)"
  shows "case account_with_email env (w_db w) email of
     None \<Rightarrow> fst (loadAccountForLogin env email w) = Inl (Sentinel ErrAccountNotFound)
   | Some a \<Rightarrow> \<exists>ac. fst (loadAccountForLogin env email w) = Inr ac \<and> shows_account a ac
       \<and> w_tick (snd (loadAccountForLogin env email w)) = w_tick w + 3"
proof -
  let ?now = "e_pg_now env (w_tick w)"
  let ?w1 = "put_tx (w_db w) ?now w"
  have on: "on_tx ?w1 (w_db w) ?now" "on_tx (put_tx (w_db w) ?now ?w1) (w_db w) ?now" by simp_all
  from GetByEmail_calm [OF assms(1) on(1) assms(2), of email] show ?thesis
    by (auto simp: loadAccountForLogin_def with_tx_def NewTX_calm [OF assms(1)] bindE_def mapErr_def
      Commit_calm [OF assms(1) on(2)] split: option.splits)
qed

lemma saveRefreshSession_calm:
  assumes "calm env" "token_of (w_db w) (tp_JTI p) = None" "account_exists (w_db w) u"
  shows "\<exists>row w'. saveRefreshSession env p u f w = (Inr (), w')
     \<and> session_row p u f row \<and> w_db w' = add_token row (w_db w)"
proof -
  let ?now = "e_pg_now env (w_tick w)"
  let ?w1 = "put_tx (w_db w) ?now w"
  have on: "on_tx ?w1 (w_db w) ?now" by simp
  from SaveToken_calm [OF assms(1) on assms(2,3)] obtain r where
    "tok_SaveRefreshToken env (tp_JTI p) u f (tp_ExpiresAt p) ?w1 = (Inr (), put_tx (add_token r (w_db w)) ?now ?w1)"
    "session_row p u f r" unfolding session_row_def by blast
  then show ?thesis
    by (intro exI [of _ r]) (auto simp: saveRefreshSession_def with_tx_def NewTX_calm [OF assms(1)] bindE_def mapErr_def
      Commit_calm [OF assms(1), of _ "add_token r (w_db w)" ?now])
qed

text \<open>The last steps of \<open>Login\<close>: a pair for the account, a new family, and the row of the session.\<close>

definition opened_for :: "env \<Rightarrow> manager \<Rightarrow> time \<Rightarrow> uuid \<Rightarrow> string \<Rightarrow> database \<Rightarrow> token_pair \<Rightarrow> token_row \<Rightarrow> bool" where
  "opened_for env m now i role d pair row \<longleftrightarrow>
     issued env m (e_uuid_text env i) role pair \<and> tp_ExpiresAt pair = now + m_refreshTTL m
     \<and> session_row pair i (rt_family row) row \<and> token_of d (rt_jti row) = None
     \<and> (\<exists>n. e_uuid env n = Inr (rt_family row))"

lemma Login_enters:
  assumes "calm env" "signing_works env (w_db w)" "account_exists (w_db w) i"
    "bindE (mapErr (Wrapped e1) (GenerateTokenPair env m (e_uuid_text env i) role)) (\<lambda>pair.
     bindE (mapErr (Wrapped e2) (gen_uuid env)) (\<lambda>familyID.
     bindE (saveRefreshSession env pair i familyID) (\<lambda>_. returnE (publicTokenPair pair)))) w = (r, w')"
  shows "\<exists>pair row. r = Inr (publicTokenPair pair) \<and> w_db w' = add_token row (w_db w)
     \<and> opened_for env m (e_clock env (w_tick w)) i role (w_db w) pair row"
proof -
  from GenerateTokenPair_works [OF assms(2)] obtain p where
    p: "GenerateTokenPair env m (e_uuid_text env i) role w = (Inr p, tick (tick w))" "token_of (w_db w) (tp_JTI p) = None"
      "tp_ExpiresAt p = e_clock env (w_tick w) + m_refreshTTL m"
    by blast
  obtain f where f: "e_uuid env (Suc (Suc (w_tick w))) = Inr f"
    using assms(2) unfolding signing_works_def by blast
  from saveRefreshSession_calm [OF assms(1), of "tick (tick (tick w))" p i f] p(2) assms(3)
  obtain row w4 where s: "saveRefreshSession env p i f (tick (tick (tick w))) = (Inr (), w4)"
    "session_row p i f row" "w_db w4 = add_token row (w_db w)"
    by (metis tick_simps(1))
  from p(1) f assms(4) s(1) have "r = Inr (publicTokenPair p)" "w' = w4"
    by (auto simp: bindE_def mapErr_def gen_uuid_def new_uuid_def)
  moreover have "opened_for env m (e_clock env (w_tick w)) i role (w_db w) p row"
    using s(2) p(2,3) f GenerateTokenPair_issued [OF p(1)] by (auto simp: opened_for_def session_row_def)
  ultimately show ?thesis using s(3) by blast
qed

text \<open>
  C20: without faults, an admitted \<open>Login\<close> succeeds exactly when the e-mail and the password are
  well-formed and the account with the e-mail has that password. Then the reply is a pair signed
  for that account and its role at the time of the login, and one session is added: open, of
  that account, in a family drawn for it, under a new id that the refresh token carries, until the
  expiry of that token; no other row changes. Every other attempt gets the same answer,
  \<open>ErrInvalidCredentials\<close>, and changes no table: the reply does not tell whether the account exists.
\<close>
theorem login_decides:
  assumes "calm env" "signing_works env (w_db w)" "db_inv (w_db w)"
    "checkRateLimit env cfg ''login'' (loginRateIdentity ip (normalizeEmail env email)) w = (Inr (), w1)"
    "Login env cfg m email password ip w = (r, w')"
  shows "if validEmail (normalizeEmail env email)
       \<and> minPasswordLen \<le> length password \<and> length password \<le> maxPasswordLen
       \<and> (case account_with_email env (w_db w) (normalizeEmail env email) of None \<Rightarrow> False
          | Some a \<Rightarrow> e_bcrypt_compare env (ar_password_hash a) password)
     then \<exists>a pair row. account_with_email env (w_db w) (normalizeEmail env email) = Some a
       \<and> r = Inr (publicTokenPair pair) \<and> issued env m (e_uuid_text env (ar_id a)) (ar_role a) pair
       \<and> tp_ExpiresAt pair = e_clock env (w_tick w1 + 3) + m_refreshTTL m
       \<and> session_row pair (ar_id a) (rt_family row) row \<and> token_of (w_db w) (rt_jti row) = None
       \<and> (\<exists>n. e_uuid env n = Inr (rt_family row)) \<and> w_db w' = add_token row (w_db w)
     else r = Inl (Sentinel ErrInvalidCredentials) \<and> w_db w' = w_db w"
proof -
  let ?mail = "normalizeEmail env email"
  have d1: "w_db w1 = w_db w" using same_sql_db_eq [OF stays_checkRateLimit assms(4)] .
  show ?thesis
  proof (cases "validEmail ?mail \<and> minPasswordLen \<le> length password \<and> length password \<le> maxPasswordLen")
    case False
    with assms(4,5) d1 show ?thesis by (auto simp: Login_def Let_def)
  next
    case ok: True
    obtain q w2 where l: "loadAccountForLogin env ?mail w1 = (q, w2)" by force
    have d2: "w_db w2 = w_db w" using staysD [OF stays_loadAccount l] d1 by (simp add: same_db_def)
    note load = loadAccount_calm [OF assms(1), of w1 ?mail, unfolded l fst_conv snd_conv d1]
    have ac_ok: "accounts_ok (w_db w)" using assms(3) by (simp add: db_inv_def)
    show ?thesis
    proof (cases "account_with_email env (w_db w) ?mail")
      case None
      with load ac_ok have "q = Inl (Sentinel ErrAccountNotFound)" by simp
      with ok None l assms(4,5) d2 show ?thesis
        by (auto simp: Login_def Let_def bindE_def mapErr_def)
    next
      case (Some a)
      with load ac_ok obtain ac where ac: "q = Inr ac" "ac_ID ac = ar_id a" "ac_PasswordHash ac = ar_password_hash a"
        "ac_Role ac = ar_role a" "w_tick w2 = w_tick w1 + 3"
        by (auto simp: shows_account_def)
      have "a \<in> set (accounts (w_db w))"
        using Some unfolding account_with_email_def by (rule find_row_Some [THEN conjunct1])
      then have ex: "account_exists (w_db w2) (ar_id a)" by (auto simp: account_exists_def d2)
      have r: "(if \<not> e_bcrypt_compare env (ac_PasswordHash ac) password then failE (Sentinel ErrInvalidCredentials)
          else bindE (mapErr (Wrapped ''generate tokens'')
              (GenerateTokenPair env m (e_uuid_text env (ac_ID ac)) (ac_Role ac))) (\<lambda>pair.
            bindE (mapErr (Wrapped ''generate family ID'') (gen_uuid env)) (\<lambda>familyID.
            bindE (saveRefreshSession env pair (ac_ID ac) familyID) (\<lambda>_.
            returnE (publicTokenPair pair))))) w2 = (r, w')"
        using ok l ac(1) assms(4,5) by (auto simp: Login_def Let_def mapErr_def split: if_splits)
      show ?thesis
      proof (cases "e_bcrypt_compare env (ar_password_hash a) password")
        case True
        have sign: "signing_works env (w_db w2)" using assms(2) by (simp add: d2)
        from r True ac have "bindE (mapErr (Wrapped ''generate tokens'')
              (GenerateTokenPair env m (e_uuid_text env (ar_id a)) (ar_role a))) (\<lambda>pair.
            bindE (mapErr (Wrapped ''generate family ID'') (gen_uuid env)) (\<lambda>familyID.
            bindE (saveRefreshSession env pair (ar_id a) familyID) (\<lambda>_.
            returnE (publicTokenPair pair)))) w2 = (r, w')" by simp
        from Login_enters [OF assms(1) sign ex this] True ok Some ac(5) show ?thesis
          by (simp add: d2 opened_for_def) blast
      next
        case False
        with r ac ok Some d2 show ?thesis by auto
      qed
    qed
  qed
qed

section \<open>Register\<close>

lemma role_text: "pg_text RoleUser"
  by (rule pg_text_ascii) code_simp

text \<open>
  C21: without faults, an admitted \<open>Register\<close> with a bad e-mail, password or name is refused with
  its own error before anything is done; with a name PostgreSQL cannot store, such as one with a
  zero byte, it fails with the driver's error (a bcrypt hash is ASCII, so it can be stored); with an
  e-mail that is taken, whatever its case, with \<open>ErrAccountAlreadyExist\<close>; otherwise one account is added: the normalised e-mail, the trimmed
  name, the hash, the role of a user and a balance of zero.
\<close>
theorem register_decides:
  assumes "calm env" "checkRateLimit env cfg ''register'' ip w = (Inr (), w1)"
    "e_bcrypt_hash env (w_tick w1) password = Inr h" "e_uuid env (w_tick w1 + 2) = Inr i"
    "Register env cfg email password name ip w = (r, w')"
  shows "case validateRegistration (normalizeEmail env email) password (TrimSpace name) of
     Some e \<Rightarrow> r = Inl e \<and> w' = w
   | None \<Rightarrow>
       if \<not> list_all pg_text [TrimSpace name, h]
       then r = Inl (Wrapped ''create account'' (Wrapped ''create account'' (PgError ''22021''))) \<and> w_db w' = w_db w
       else if \<exists>x\<in>set (accounts (w_db w)). ar_id x = i \<or> ar_email x = normalizeEmail env email
          \<or> e_pg_lower env (ar_email x) = e_pg_lower env (normalizeEmail env email)
       then r = Inl (Wrapped ''create account'' (Sentinel ErrAccountAlreadyExist)) \<and> w_db w' = w_db w
       else r = Inr \<lparr>ac_ID = i, ac_Name = TrimSpace name, ac_Email = normalizeEmail env email,
           ac_Balance = dec_Zero, ac_PasswordHash = h, ac_Role = RoleUser\<rparr>
         \<and> w_db w' = (w_db w)\<lparr>accounts := accounts (w_db w) @ [\<lparr>ar_id = i, ar_name = TrimSpace name,
             ar_email = normalizeEmail env email, ar_password_hash = h, ar_role = RoleUser, ar_balance = 0\<rparr>]\<rparr>"
proof (cases "validateRegistration (normalizeEmail env email) password (TrimSpace name)")
  case (Some e)
  with assms(5) show ?thesis by (simp add: Register_def Let_def)
next
  case None
  have d1: "w_db w1 = w_db w" using same_sql_db_eq [OF stays_checkRateLimit assms(2)] .
  let ?ac = "\<lparr>ac_ID = i, ac_Name = TrimSpace name, ac_Email = normalizeEmail env email,
    ac_Balance = dec_Zero, ac_PasswordHash = h, ac_Role = RoleUser\<rparr>"
  let ?now = "e_pg_now env (Suc (w_tick w1))"
  let ?w2 = "tick (put_tx (w_db w) ?now (tick w1))"
  have on: "on_tx ?w2 (w_db w) ?now" by simp
  let ?d' = "(w_db w)\<lparr>accounts := accounts (w_db w) @ [\<lparr>ar_id = i, ar_name = TrimSpace name,
    ar_email = normalizeEmail env email, ar_password_hash = h, ar_role = RoleUser, ar_balance = 0\<rparr>]\<rparr>"
  let ?taken = "\<exists>x\<in>set (accounts (w_db w)). ar_id x = i \<or> ar_email x = normalizeEmail env email
    \<or> e_pg_lower env (ar_email x) = e_pg_lower env (normalizeEmail env email)"
  let ?text = "list_all pg_text [TrimSpace name, h]"
  from None have email: "pg_text (normalizeEmail env email)"
    by (intro validEmail_text) (auto simp: validateRegistration_def split: if_splits)
  have create: "acc_Create env ?ac ?w2 =
      (if \<not> ?text then (Inl (Wrapped ''create account'' (PgError ''22021'')), fail_tx (w_db w) ?now ?w2)
       else if ?taken then (Inl (Sentinel ErrAccountAlreadyExist), fail_tx (w_db w) ?now ?w2)
       else (Inr (), put_tx ?d' ?now ?w2))"
    by (simp add: acc_Create_def mapErr_def sql_calm [OF assms(1) on] insert_account_def Let_def
        dec_rat_Zero numeric_zero email role_text)
  have r: "(bindE (mapErr (Wrapped ''create account'') (acc_Create env ?ac)) (\<lambda>_.
      bindE (mapErr (Wrapped ''commit registration'') (Commit env)) (\<lambda>_. returnE ?ac)) ?w2)
      = (r, snd (bindE (mapErr (Wrapped ''create account'') (acc_Create env ?ac)) (\<lambda>_.
      bindE (mapErr (Wrapped ''commit registration'') (Commit env)) (\<lambda>_. returnE ?ac)) ?w2))
      \<and> w_db w' = w_db (snd (bindE (mapErr (Wrapped ''create account'') (acc_Create env ?ac)) (\<lambda>_.
      bindE (mapErr (Wrapped ''commit registration'') (Commit env)) (\<lambda>_. returnE ?ac)) ?w2))"
    using assms(2-5) None d1
    by (auto simp: Register_def Let_def hash_password_def gen_uuid_def new_uuid_def with_tx_def
        NewTX_calm [OF assms(1)] split: prod.splits)
  consider (bad) "\<not> ?text" | (taken) "?text" ?taken | (free) "?text" "\<not> ?taken" by blast
  then show ?thesis
  proof cases
    case bad
    note c = create [unfolded if_P [OF bad]]
    from r bad None d1 show ?thesis unfolding bindE_def mapErr_def c by simp
  next
    case taken
    have c: "acc_Create env ?ac ?w2 = (Inl (Sentinel ErrAccountAlreadyExist), fail_tx (w_db w) ?now ?w2)"
      using create taken by (simp only: if_True if_False not_True_eq_False)
    from r taken None d1 show ?thesis unfolding bindE_def mapErr_def c by simp
  next
    case free
    have c: "acc_Create env ?ac ?w2 = (Inr (), put_tx ?d' ?now ?w2)"
      using create free by (simp only: if_True if_False not_True_eq_False)
    from r free None d1 show ?thesis
      unfolding bindE_def mapErr_def c by (simp add: Commit_calm [OF assms(1), of _ ?d' ?now])
  qed
qed

section \<open>Logout\<close>

text \<open>
  Without faults \<open>Logout\<close> always succeeds, rate limit or not, and closes exactly the open
  session the token names, if the token is valid and names its user; nothing else changes.
\<close>
lemma logout_closes:
  assumes "calm env" "db_inv (w_db w)" "Logout env cfg m tok ip w = (r, w')"
    "ValidateRefreshToken env m tok (snd (checkRateLimit env cfg ''logout'' ip w)) = (v, w2)"
  shows "r = Inr () \<and> w_db w' = (case v of Inl e \<Rightarrow> w_db w | Inr c \<Rightarrow>
     (case token_of (w_db w) (jc_ID c) of None \<Rightarrow> w_db w
      | Some s \<Rightarrow> if jc_UserID c = e_uuid_text env (rt_user s)
          then revoke (\<lambda>x. rt_jti x = jc_ID c) (w_db w) else w_db w))"
proof -
  obtain q w1 where w1: "checkRateLimit env cfg ''logout'' ip w = (q, w1)" by force
  have v: "ValidateRefreshToken env m tok w1 = (v, w2)" using assms(4) w1 by simp
  have d: "w_db w1 = w_db w" "w_db w2 = w_db w"
    using same_sql_db_eq [OF stays_checkRateLimit w1]
      same_sql_db_eq [OF same_stores_sql [OF stays_ValidateToken(2)] v] by simp_all
  show ?thesis
  proof (cases v)
    case (Inl e)
    with assms(3) w1 v d show ?thesis
      by (cases q) (auto simp: Logout_def bindE_def catchE_def)
  next
    case (Inr c)
    let ?now = "e_pg_now env (w_tick w2)" and ?P = "\<lambda>x. rt_jti x = jc_ID c"
    let ?w3 = "put_tx (w_db w) ?now w2"
    let ?w4 = "put_tx (w_db w) ?now ?w3"
    have on: "on_tx ?w3 (w_db w) ?now" "on_tx ?w4 (w_db w) ?now" by simp_all
    from assms(3) w1 v Inr have "with_tx env (Wrapped ''open logout transaction'') (logoutBody env c) w2 = (r, w')"
      by (cases q) (auto simp: Logout_def bindE_def catchE_def)
    then have body: "\<exists>w5. logoutBody env c ?w3 = (r, w5) \<and> w_db w' = w_db w5"
      by (auto simp: with_tx_def NewTX_calm [OF assms(1)] d split: prod.splits)
    note get = GetRefreshToken_calm [OF assms(1) on(1), of "jc_ID c"]
    note rv = RevokeToken_calm [OF assms(1) on(2), of "jc_ID c"]
    show ?thesis
    proof (cases "token_of (w_db w) (jc_ID c)")
      case None
      with body get Inr d show ?thesis by (auto simp: logoutBody_def bindE_def catchE_def)
    next
      case (Some s)
      have s_in: "s \<in> set (tokens (w_db w))" "?P s" using token_of_Some [OF Some] by simp_all
      consider (other) "jc_UserID c \<noteq> e_uuid_text env (rt_user s)"
        | (gone) "jc_UserID c = e_uuid_text env (rt_user s)" "rt_revoked s"
        | (open_row) "jc_UserID c = e_uuid_text env (rt_user s)" "\<not> rt_revoked s" by blast
      then show ?thesis
      proof cases
        case gone
        have "\<forall>x\<in>set (tokens (w_db w)). ?P x \<longrightarrow> rt_revoked x"
          using open_row_is_token [of "w_db w" _ "jc_ID c"] Some gone assms(2) by (auto simp: db_inv_def)
        then have "revoke ?P (w_db w) = w_db w" by (rule revoke_nothing)
        with body get Inr Some gone d show ?thesis by (auto simp: logoutBody_def bindE_def catchE_def)
      next
        case open_row
        with rv s_in have "tok_RevokeRefreshToken env (jc_ID c) ?w4 = (Inr (), put_tx (revoke ?P (w_db w)) ?now ?w4)"
          by auto
        with body get Inr Some open_row show ?thesis
          by (auto simp: logoutBody_def bindE_def catchE_def mapErr_def
              Commit_calm [OF assms(1), of _ "revoke ?P (w_db w)" ?now])
      qed (use body get Inr Some d in \<open>auto simp: logoutBody_def bindE_def catchE_def\<close>)
    qed
  qed
qed

text \<open>
  Without faults \<open>LogoutAll\<close> succeeds and closes every session of the user, and touches no
  other row of any table.
\<close>
lemma logout_all_closes:
  assumes "calm env" "LogoutAll env u w = (r, w')"
  shows "r = Inr () \<and> (\<forall>x\<in>set (tokens (w_db w')). rt_user x = u \<longrightarrow> rt_revoked x)
    \<and> filter (\<lambda>x. rt_user x \<noteq> u) (tokens (w_db w')) = filter (\<lambda>x. rt_user x \<noteq> u) (tokens (w_db w))
    \<and> accounts (w_db w') = accounts (w_db w) \<and> transactions (w_db w') = transactions (w_db w)
    \<and> idempotency (w_db w') = idempotency (w_db w)"
proof -
  let ?now = "e_pg_now env (w_tick w)" and ?P = "\<lambda>x. rt_user x = u"
  let ?w1 = "put_tx (w_db w) ?now w"
  have "on_tx ?w1 (w_db w) ?now" by simp
  note rv = RevokeUser_calm [OF assms(1) this, of u]
  let ?w2 = "put_tx (revoke ?P (w_db w)) ?now ?w1"
  have body: "catchE (tok_RevokeAllUserTokens env u) (\<lambda>err. if errors_is err (Sentinel ErrUserNotFound) then returnE ()
      else failE (Wrapped ''revoke all sessions'' err)) ?w1 = (Inr (), ?w2)"
    unfolding catchE_def rv by simp
  have "on_tx ?w2 (revoke ?P (w_db w)) ?now" by simp
  note cm = Commit_calm [OF assms(1) this]
  have "LogoutAll env u w = (Inr (), Rollback ((tick ?w2)\<lparr>w_db := revoke ?P (w_db w), w_tx := None\<rparr>))"
    by (simp only: LogoutAll_def with_tx_def NewTX_calm [OF assms(1)] prod.case sum.case
        bindE_def body mapErr_def cm)
  with assms(2) have w': "r = Inr () \<and> w_db w' = revoke ?P (w_db w)" by auto
  have "filter (\<lambda>x. \<not> ?P x) (map (\<lambda>r. if ?P r then close_row r else r) ts) = filter (\<lambda>x. \<not> ?P x) ts" for ts
    by (induction ts) auto
  then have f: "filter (\<lambda>x. \<not> ?P x) (tokens (revoke ?P (w_db w))) = filter (\<lambda>x. \<not> ?P x) (tokens (w_db w))"
    unfolding revoke_rows by blast
  have a: "\<forall>x\<in>set (tokens (revoke ?P (w_db w))). ?P x \<longrightarrow> rt_revoked x"
    unfolding revoke_rows list.set_map by (intro ballI impI, elim imageE) (simp split: if_splits)
  show ?thesis
    unfolding w' [THEN conjunct1] w' [THEN conjunct2] by (intro conjI refl a f revoke_tables)
qed

section \<open>Witnesses\<close>

lemma admitted:
  fixes w :: world
  assumes "\<not> isl (fst (checkRateLimit env cfg op i w))"
  obtains w1 where "checkRateLimit env cfg op i w = (Inr (), w1)"
  using assms by (cases "checkRateLimit env cfg op i w"; cases "fst (checkRateLimit env cfg op i w)") auto

theorem logout_closes_witness:
  "w_db (snd (Logout auth_env sample_limits sample_manager ''OLD'' ''ip'' (sample_world (session_db False))))
     = revoke (\<lambda>x. rt_jti x = ''old'') (session_db False)"
proof -
  let ?w = "sample_world (session_db False)"
  obtain r w' where l: "Logout auth_env sample_limits sample_manager ''OLD'' ''ip'' ?w = (r, w')" by force
  have v: "ValidateRefreshToken auth_env sample_manager ''OLD'' w1 = (Inr old_claims, tick w1)" for w1 :: world
    by (rule OLD_valid)
  have d: "db_inv (w_db ?w)" by (simp add: session_db_inv)
  from logout_closes [OF auth_env_calm d l v] l show ?thesis by (simp add: session_facts alice_text)
qed

theorem logout_all_closes_witness:
  "filter (\<lambda>x. rt_user x = alice \<and> \<not> rt_revoked x)
     (tokens (w_db (snd (LogoutAll auth_env alice (sample_world (session_db False)))))) = []"
proof -
  obtain r w' where l: "LogoutAll auth_env alice (sample_world (session_db False)) = (r, w')" by force
  from logout_all_closes [OF auth_env_calm l] l show ?thesis by (simp add: filter_empty_conv)
qed

theorem login_decides_witness:
  "\<exists>r w' row. Login auth_env sample_limits sample_manager ''alice@example.com'' ''pass-word'' ''ip''
        (sample_world (session_db False)) = (r, w')
     \<and> \<not> isl r \<and> w_db w' = add_token row (session_db False) \<and> rt_user row = alice \<and> \<not> rt_revoked row"
proof -
  let ?w = "sample_world (session_db False)"
  have n: "normalizeEmail auth_env ''alice@example.com'' = ''alice@example.com''" by code_simp
  have "\<not> isl (fst (checkRateLimit auth_env sample_limits ''login'' (loginRateIdentity ''ip'' ''alice@example.com'') ?w))"
    by code_simp
  then obtain w1 where w1: "checkRateLimit auth_env sample_limits ''login''
      (loginRateIdentity ''ip'' (normalizeEmail auth_env ''alice@example.com'')) ?w = (Inr (), w1)"
    unfolding n by (rule admitted)
  obtain r w' where l: "Login auth_env sample_limits sample_manager ''alice@example.com'' ''pass-word'' ''ip'' ?w = (r, w')"
    by force
  have a: "account_with_email auth_env (session_db False) ''alice@example.com'' =
      Some ((sample_account alice ''alice@example.com'' 100)\<lparr>ar_password_hash := ''hash:pass-word''\<rparr>)"
    by (simp add: account_with_email_def find_row_def session_db_def auth_env_def sample_env_def sample_account_def)
  have c: "e_bcrypt_compare auth_env ''hash:pass-word'' ''pass-word''"
    by (simp add: auth_env_def sample_env_def)
  have d: "signing_works auth_env (w_db ?w)" "db_inv (w_db ?w)"
    by (simp_all add: auth_env_signs session_db_inv)
  have v: "validEmail ''alice@example.com''" by code_simp
  from login_decides [OF auth_env_calm d w1 l] obtain pair row where
    "r = Inr (publicTokenPair pair)" "session_row pair alice (rt_family row) row" "w_db w' = add_token row (session_db False)"
    by (auto simp: n a c v minPasswordLen_def maxPasswordLen_def sample_account_def)
  with l show ?thesis by (intro exI [of _ r] exI [of _ w'] exI [of _ row]) (simp add: session_row_def)
qed

theorem register_decides_witness:
  "fst (Register auth_env sample_limits '' BOB@example.com'' ''pass-word'' ''Bobby'' ''ip'' (sample_world (session_db False)))
     = Inl (Wrapped ''create account'' (Sentinel ErrAccountAlreadyExist))"
proof -
  let ?w = "sample_world (session_db False)"
  have n: "normalizeEmail auth_env '' BOB@example.com'' = ''bob@example.com''" by code_simp
  have v: "validateRegistration ''bob@example.com'' ''pass-word'' (TrimSpace ''Bobby'') = None" by code_simp
  have "\<not> isl (fst (checkRateLimit auth_env sample_limits ''register'' ''ip'' ?w))" by code_simp
  then obtain w1 where w1: "checkRateLimit auth_env sample_limits ''register'' ''ip'' ?w = (Inr (), w1)"
    by (rule admitted)
  obtain r w' where l: "Register auth_env sample_limits '' BOB@example.com'' ''pass-word'' ''Bobby'' ''ip'' ?w = (r, w')"
    by force
  have h: "e_bcrypt_hash auth_env (w_tick w1) ''pass-word'' = Inr ''hash:pass-word''"
    "e_uuid auth_env (w_tick w1 + 2) = Inr (7 + of_nat (w_tick w1 + 2))"
    by (simp_all add: auth_env_def sample_env_def)
  have "sample_account bob ''bob@example.com'' 5 \<in> set (accounts (session_db False))"
    "ar_email (sample_account bob ''bob@example.com'' 5) = ''bob@example.com''"
    by (simp_all add: session_db_def sample_account_def)
  then have t: "\<exists>x\<in>set (accounts (w_db ?w)). ar_id x = i \<or> ar_email x = ''bob@example.com''
      \<or> e_pg_lower auth_env (ar_email x) = e_pg_lower auth_env ''bob@example.com''" for i
    unfolding sample_world_simps by blast
  have p: "\<not> \<not> list_all pg_text [TrimSpace ''Bobby'', ''hash:pass-word'']" by code_simp
  from register_decides [OF auth_env_calm w1 h l, unfolded n v option.case if_not_P [OF p] if_P [OF t]] l show ?thesis
    by simp
qed

end
