(* ===== verification/Jwt_Props.thy ===== *)
theory Jwt_Props
  imports Auth_Samples
begin

text \<open>
  What the token manager of \<open>jwt.go\<close> guarantees, given two documented facts about the JWT
  library: it answers nothing but the claims that were signed, and it accepts a token it signed
  with the same secret and issuer until the expiry.
\<close>

definition jwt_sound :: "env \<Rightarrow> bool" where
  "jwt_sound env \<longleftrightarrow> (\<forall>k c t k' i n c'. e_jwt_sign env k c = Inr t \<longrightarrow> e_jwt_parse env k' i n t = Inr c' \<longrightarrow> c' = c)"

definition jwt_complete :: "env \<Rightarrow> bool" where
  "jwt_complete env \<longleftrightarrow> (\<forall>k c t n. e_jwt_sign env k c = Inr t \<longrightarrow> n < 1000000000 * jc_ExpiresAt c
     \<longrightarrow> e_jwt_parse env k (jc_Issuer c) n t = Inr c)"

lemma pair_signed:
  assumes "GenerateTokenPair env m user role w = (Inr p, w')"
  shows "e_jwt_sign env (m_accessSecret m) (access_claims m user role (e_clock env (w_tick w))) = Inr (tp_AccessToken p)"
    "e_jwt_sign env (m_refreshSecret m) (refresh_claims m user (tp_JTI p) (e_clock env (w_tick w))) = Inr (tp_RefreshToken p)"
    "\<exists>i. tp_JTI p = e_uuid_text env i"
  using assms by (auto simp: GenerateTokenPair_def now_nano_def new_uuid_def split: sum.splits)

lemma Validate_Inr:
  "ValidateAccessToken env m tok w = (Inr c, w') \<longleftrightarrow> w' = tick w
     \<and> e_jwt_parse env (m_accessSecret m) (m_issuer m) (e_clock env (w_tick w)) tok = Inr c
     \<and> jc_UserID c \<noteq> [] \<and> jc_Subject c = jc_UserID c \<and> jc_Role c \<noteq> []"
  "ValidateRefreshToken env m tok w = (Inr c, w') \<longleftrightarrow> w' = tick w
     \<and> e_jwt_parse env (m_refreshSecret m) (m_issuer m) (e_clock env (w_tick w)) tok = Inr c
     \<and> jc_ID c \<noteq> [] \<and> jc_UserID c \<noteq> [] \<and> jc_Subject c = jc_UserID c"
  by (auto simp: ValidateAccessToken_def ValidateRefreshToken_def bindE_def jwt_parse_def now_nano_def
    split: sum.splits jwt_error.splits if_splits)

section \<open>Samples\<close>

definition pair_env :: env where
  "pair_env = auth_env\<lparr>
     e_jwt_sign := (\<lambda>k c. if c = access_claims sample_manager ''1'' ''user'' issued_at then Inr ''A''
        else if c = refresh_claims sample_manager ''1'' ''8'' issued_at then Inr ''R'' else Inl ''no''),
     e_jwt_parse := (\<lambda>k i n t. if t = ''A'' then Inr (access_claims sample_manager ''1'' ''user'' issued_at)
        else if t = ''R'' then Inr (refresh_claims sample_manager ''1'' ''8'' issued_at) else Inl JwtOther)\<rparr>"

lemma pair_env_laws: "jwt_sound pair_env" "jwt_complete pair_env"
  by (auto simp: jwt_sound_def jwt_complete_def pair_env_def access_claims_def refresh_claims_def split: if_splits)

definition sample_pair :: token_pair where
  "sample_pair = \<lparr>tp_AccessToken = ''A'', tp_RefreshToken = ''R'', tp_ExpiresIn = 900, tp_JTI = ''8'',
     tp_ExpiresAt = issued_at + 2592000000000000\<rparr>"

lemma sample_pair_issued:
  "\<exists>w'. GenerateTokenPair pair_env sample_manager ''1'' ''user'' (sample_world sample_db) = (Inr sample_pair, w')"
proof -
  have "fst (GenerateTokenPair pair_env sample_manager ''1'' ''user'' (sample_world sample_db)) = Inr sample_pair"
    by code_simp
  then show ?thesis by (metis prod.collapse)
qed

section \<open>Properties\<close>

text \<open>
  C22: an access token is never accepted as a refresh token nor a refresh token as an access
  token, at any time, whatever the two secrets are.
\<close>
theorem tokens_not_interchangeable:
  assumes "jwt_sound env" "GenerateTokenPair env m user role w = (Inr p, w')"
  shows "isl (fst (ValidateRefreshToken env m (tp_AccessToken p) v))
    \<and> isl (fst (ValidateAccessToken env m (tp_RefreshToken p) v))"
proof -
  note s = pair_signed [OF assms(2)]
  have same: "c' = c" if "e_jwt_sign env k c = Inr t" "e_jwt_parse env k' i n t = Inr c'" for k c t k' i n c'
    using assms(1) that unfolding jwt_sound_def by blast
  have "ValidateRefreshToken env m (tp_AccessToken p) v \<noteq> (Inr c, v')" for c v'
  proof
    assume "ValidateRefreshToken env m (tp_AccessToken p) v = (Inr c, v')"
    then have c: "e_jwt_parse env (m_refreshSecret m) (m_issuer m) (e_clock env (w_tick v)) (tp_AccessToken p) = Inr c"
      "jc_ID c \<noteq> []" by (simp_all add: Validate_Inr)
    from same [OF s(1) c(1)] c(2) show False by (simp add: access_claims_def)
  qed
  moreover have "ValidateAccessToken env m (tp_RefreshToken p) v \<noteq> (Inr c, v')" for c v'
  proof
    assume "ValidateAccessToken env m (tp_RefreshToken p) v = (Inr c, v')"
    then have c: "e_jwt_parse env (m_accessSecret m) (m_issuer m) (e_clock env (w_tick v)) (tp_RefreshToken p) = Inr c"
      "jc_Role c \<noteq> []" by (simp_all add: Validate_Inr)
    from same [OF s(2) c(1)] c(2) show False by (simp add: refresh_claims_def)
  qed
  ultimately show ?thesis by (metis isl_def old.sum.exhaust prod.collapse)
qed

theorem tokens_not_interchangeable_witness:
  "isl (fst (ValidateRefreshToken pair_env sample_manager ''A'' (sample_world sample_db)))
   \<and> isl (fst (ValidateAccessToken pair_env sample_manager ''R'' (sample_world sample_db)))"
proof -
  from sample_pair_issued obtain w' where
    "GenerateTokenPair pair_env sample_manager ''1'' ''user'' (sample_world sample_db) = (Inr sample_pair, w')" by blast
  from tokens_not_interchangeable [OF pair_env_laws(1) this, of "sample_world sample_db"]
  show ?thesis by (simp add: sample_pair_def)
qed

text \<open>
  C23: until its whole-second expiry an issued access token is accepted and yields the user and
  the role it was issued for, and the refresh token its user and its id.
\<close>
theorem token_pair_roundtrip:
  assumes "jwt_complete env" "GenerateTokenPair env m user role w = (Inr p, w')"
    "user \<noteq> []" "role \<noteq> []" "tp_JTI p \<noteq> []" "now = e_clock env (w_tick v)"
  shows "(now < 1000000000 * ((e_clock env (w_tick w) + m_accessTTL m) div 1000000000) \<longrightarrow>
      (\<exists>c. ValidateAccessToken env m (tp_AccessToken p) v = (Inr c, tick v) \<and> jc_UserID c = user \<and> jc_Role c = role))
    \<and> (now < 1000000000 * ((e_clock env (w_tick w) + m_refreshTTL m) div 1000000000) \<longrightarrow>
      (\<exists>c. ValidateRefreshToken env m (tp_RefreshToken p) v = (Inr c, tick v) \<and> jc_UserID c = user \<and> jc_ID c = tp_JTI p))"
proof -
  note s = pair_signed [OF assms(2)]
  let ?a = "access_claims m user role (e_clock env (w_tick w))"
    and ?r = "refresh_claims m user (tp_JTI p) (e_clock env (w_tick w))"
  have "e_jwt_parse env (m_accessSecret m) (m_issuer m) now (tp_AccessToken p) = Inr ?a"
    if "now < 1000000000 * jc_ExpiresAt ?a"
    using assms(1) s(1) that unfolding jwt_complete_def by (metis access_claims_def jwt_claims.select_convs(5))
  moreover have "e_jwt_parse env (m_refreshSecret m) (m_issuer m) now (tp_RefreshToken p) = Inr ?r"
    if "now < 1000000000 * jc_ExpiresAt ?r"
    using assms(1) s(2) that unfolding jwt_complete_def by (metis refresh_claims_def jwt_claims.select_convs(5))
  ultimately show ?thesis
    using assms(3-6) by (auto simp: Validate_Inr access_claims_def refresh_claims_def NewNumericDate_def)
qed

theorem token_pair_roundtrip_witness:
  "\<exists>c. ValidateAccessToken pair_env sample_manager ''A'' (sample_world sample_db) = (Inr c, tick (sample_world sample_db))
     \<and> jc_UserID c = ''1'' \<and> jc_Role c = ''user''"
proof -
  from sample_pair_issued obtain w' where
    g: "GenerateTokenPair pair_env sample_manager ''1'' ''user'' (sample_world sample_db) = (Inr sample_pair, w')" by blast
  have "e_clock pair_env n = issued_at" for n by (simp add: pair_env_def auth_env_def)
  with token_pair_roundtrip [OF pair_env_laws(2) g _ _ _ refl, of "sample_world sample_db"]
  show ?thesis by (simp add: sample_pair_def issued_at_def sample_manager_def)
qed

end
