(* ===== verification/Http_Samples.thy ===== *)
theory Http_Samples
  imports Http_Frame Auth_Samples
begin

text \<open>
  A small server on which the properties of the HTTP side are evaluated: the sample accounts, a
  token library that knows one access token, and requests for it.
\<close>

definition web_claims :: jwt_claims where
  "web_claims = access_claims sample_manager ''1'' ''user'' issued_at"

text \<open>The token library also knows the access token \<open>ALICE\<close>.\<close>

definition web_env :: env where
  "web_env = sample_env\<lparr>e_jwt_parse := (\<lambda>k i n t. if k = ''a-secret'' \<and> t = ''ALICE'' then Inr web_claims else Inl JwtOther)\<rparr>"

definition web_app :: app where
  "web_app = \<lparr>ap_limits = sample_limits, ap_manager = sample_manager\<rparr>"

definition pay_request :: "string \<Rightarrow> http_request" where
  "pay_request token = \<lparr>rq_method = ''POST'', rq_path = [''transactions''], rq_query = [],
     rq_headers = [(''Authorization'', ''Bearer '' @ token), (''Idempotency-Key'', ''order-1'')],
     rq_cookies = [], rq_body = object_text [(''receiver_id'', ''2''), (''amount'', ''10'')],
     rq_remote = ''10.0.0.1:5000''\<rparr>"

lemma pay_route: "find_route (pay_request token) = Some ETransfer"
  by (simp add: find_route_def pay_request_def routes_def method_matches_def)

text \<open>A request without a body, for a user with a token.\<close>

definition get_request :: "string \<Rightarrow> string list \<Rightarrow> (string \<times> string) list \<Rightarrow> http_request" where
  "get_request token path query = \<lparr>rq_method = ''GET'', rq_path = path, rq_query = query,
     rq_headers = [(''Authorization'', ''bearer '' @ token)], rq_cookies = [], rq_body = [],
     rq_remote = ''[::1]:5000''\<rparr>"

end
