(* ===== verification/Http_Props.thy ===== *)
theory Http_Props
  imports Http_Samples Auth_Props
begin

text \<open>
  Properties of the whole server: what any request and any sequence of requests does to the
  money and the sessions, who sees what, and the shape of the replies. They hold for every
  environment, so under every schedule of faults.
\<close>

section \<open>Session events and the books\<close>

lemma event_tables:
  "accounts (apply_event ev d) = accounts d @ (case ev of Registered a \<Rightarrow> [a] | _ \<Rightarrow> [])"
  "transactions (apply_event ev d) = transactions d"
  by (cases ev; simp add: revoke_def)+

lemma find_row_append: "find_row P xs = Some r \<Longrightarrow> find_row P (xs @ ys) = Some r"
  by (simp add: find_row_def) (induction xs; simp split: if_splits)

lemma event_books:
  assumes "enabled ev d"
  shows "balance_of d i = Some b \<Longrightarrow> balance_of (apply_event ev d) i = Some b"
    and "transactions (apply_event ev d) = transactions d"
    and "total_balance (apply_event ev d) = total_balance d"
proof -
  show "balance_of d i = Some b \<Longrightarrow> balance_of (apply_event ev d) i = Some b"
    by (auto simp: balance_of_def event_tables find_row_append)
  show "transactions (apply_event ev d) = transactions d" by (rule event_tables)
  show "total_balance (apply_event ev d) = total_balance d"
    using assms by (cases ev) (simp_all add: total_balance_def event_tables revoke_def)
qed

lemma run_books:
  assumes "session_run d d'"
  shows "balance_of d i = Some b \<Longrightarrow> balance_of d' i = Some b"
    and "transactions d' = transactions d"
    and "total_balance d' = total_balance d"
    and "db_inv d \<Longrightarrow> db_inv d'"
    and "evolves (tokens d) (tokens d')"
  using assms
  by (induction rule: session_run.induct)
    (auto simp: event_books event_inv intro: evolves_trans [OF _ evolves_event])

section \<open>A transfer over HTTP is a step of the ledger\<close>

lemma http_transfer_step:
  assumes "authenticated env app r w claims w1" "asks_transfer env r user s dto a"
    "Transfer env cfg s (dto_Receiver_id dto) (idempotency_key r) a w1 = (res, w')" "db_inv (w_db w)"
  obtains (same) "w_db w' = w_db w"
  | (moved) i now where "transfer_enabled (transferCommandOf env s (dto_Receiver_id dto) (idempotency_key r) a) i (w_db w)"
      "command_ok (transferCommandOf env s (dto_Receiver_id dto) (idempotency_key r) a)"
      "w_db w' = apply_transfer (transferCommandOf env s (dto_Receiver_id dto) (idempotency_key r) a) i now (w_db w)"
proof -
  have w1: "w_db w1 = w_db w" using authenticated_stores [OF assms(1)] by (simp add: same_stores_def)
  have a: "dec_int32_ok a" using assms(2) decoded_amount_ok by (auto simp: asks_transfer_def)
  from Transfer_is_ledger_step [OF assms(3) _ a] assms(4) w1
  have "ledger_step env (transferCommandOf env s (dto_Receiver_id dto) (idempotency_key r) a) (w_db w) res (w_db w')"
    by simp
  with Transfer_command_ok [OF assms(3) a] w1 that show ?thesis
    by (cases "w_db w' = w_db w") (auto elim!: ledger_stepE)
qed

lemma command_parties [simp]:
  "c_SenderID (transferCommandOf env s r k a) = s" "c_ReceiverID (transferCommandOf env s r k a) = r"
  "amt (transferCommandOf env s r k a) = dec_rat a"
  by (simp_all add: transferCommandOf_def Let_def)

section \<open>What every request keeps\<close>

definition books_kept :: "uuid \<Rightarrow> rat \<Rightarrow> database \<Rightarrow> database \<Rightarrow> bool" where
  "books_kept i x d d' \<longleftrightarrow> db_inv d' \<and> total_balance d' = total_balance d \<and> evolves (tokens d) (tokens d')
     \<and> (opening_balance d i = Some x \<longrightarrow> opening_balance d' i = Some x)"

lemma serve_http_books:
  assumes "db_inv (w_db w)"
  shows "books_kept i x (w_db w) (w_db (snd (serve_http env app checks r w)))"
proof -
  obtain rp w' where s: "serve_http env app checks r w = (rp, w')" by force
  then have "books_kept i x (w_db w) (w_db w')"
  proof (cases rule: serve_http_cases)
    case session
    from run_books [OF this] assms show ?thesis
      by (auto simp: books_kept_def opening_balance_def credits_def debits_def)
  next
    case (transfer claims w1 s dto a res)
    from transfer(2-4) assms show ?thesis
    proof (cases rule: http_transfer_step)
      case same
      with assms show ?thesis by (simp add: books_kept_def)
    next
      case (moved j now)
      then have ne: "s \<noteq> dto_Receiver_id dto" by (simp add: transfer_enabled_def)
      have "tokens (w_db w') = tokens (w_db w)"
        unfolding moved(3) by (simp add: apply_transfer_def move_money_def)
      moreover have "opening_balance (w_db w') i = opening_balance (w_db w) i"
        unfolding moved(3) using ne by (simp add: opening_apply)
      ultimately show ?thesis
        using db_inv_apply [OF assms moved(2,1), of now] total_move [OF assms moved(2,1), of now] moved(3)
        by (simp add: books_kept_def)
    qed
  qed
  with s show ?thesis by simp
qed

interpretation served: keeping_server "serve_http env app checks" "\<lambda>w. db_inv (w_db w)"
  "\<lambda>w w'. books_kept i x (w_db w) (w_db w')" for env app checks i x
  by unfold_locales (rule serve_http_books, assumption, auto simp: books_kept_def intro: evolves_trans)

section \<open>Properties\<close>

text \<open>
  C3: nobody spends another's money: whatever the request and the faults, an account's balance
  falls only when the request is \<open>POST /transactions\<close> with a valid access token whose user is
  that account, and then by exactly the amount in the body.
\<close>
theorem only_owner_spends:
  assumes "serve_http env app checks r w = (rp, w')" "db_inv (w_db w)" "balance_of (w_db w) i = Some b"
    "\<And>b'. balance_of (w_db w') i = Some b' \<Longrightarrow> b' < b"
  shows "find_route r = Some ETransfer \<and> (\<exists>claims w1 dto a. authenticated env app r w claims w1
     \<and> asks_transfer env r (jc_UserID claims) i dto a \<and> balance_of (w_db w') i = Some (b - dec_rat a))"
  using assms(1)
proof (cases rule: serve_http_cases)
  case session
  from run_books(1) [OF this assms(3)] assms(4) show ?thesis by force
next
  case (transfer claims w1 s dto a res)
  from transfer(2-4) assms(2) show ?thesis
  proof (cases rule: http_transfer_step)
    case same
    with assms(3,4) show ?thesis by force
  next
    case (moved j now)
    then have ne: "s \<noteq> dto_Receiver_id dto" and pos: "0 < dec_rat a" by (simp_all add: transfer_enabled_def command_ok_def)
    have b: "balance_of (w_db w') i = (if i = s then Some (b - dec_rat a)
        else if i = dto_Receiver_id dto then Some (b + dec_rat a) else Some b)"
      using moved(3) ne assms(3) by (auto simp: balance_after)
    have "i = s"
    proof (rule ccontr)
      assume "i \<noteq> s"
      with b assms(4) [of "b + dec_rat a"] assms(4) [of b] pos show False by (auto split: if_splits)
    qed
    with b transfer show ?thesis by auto
  qed
qed

lemma paid: "balance_of (w_db (snd (serve_http web_env web_app [] (pay_request ''ALICE'') (sample_world sample_db)))) alice = Some 90"
  by code_simp

theorem only_owner_spends_witness:
  "\<exists>claims w1 dto a. authenticated web_env web_app (pay_request ''ALICE'') (sample_world sample_db) claims w1
     \<and> asks_transfer web_env (pay_request ''ALICE'') (jc_UserID claims) alice dto a \<and> dec_rat a = 10"
proof -
  obtain rp w' where s: "serve_http web_env web_app [] (pay_request ''ALICE'') (sample_world sample_db) = (rp, w')" by force
  have db: "db_inv (w_db (sample_world sample_db))" "balance_of (w_db (sample_world sample_db)) alice = Some 100"
    by (simp_all add: sample_inv sample_balances)
  have after: "balance_of (w_db w') alice = Some 90" using paid s by simp
  then have less: "b' < 100" if "balance_of (w_db w') alice = Some b'" for b' using that by simp
  from only_owner_spends [OF s db less] after show ?thesis by auto
qed

text \<open>
  C4: the books hold for the whole server: over any sequence of requests and under all faults the
  integrity of the tables is kept, the sum of all balances does not change, every account keeps
  its opening balance (its balance less its completed incoming plus its completed outgoing
  transactions), and no refresh session is lost, altered or reopened.
\<close>
theorem server_keeps_books:
  assumes "db_inv (w_db w)"
  shows "db_inv (w_db (snd (serve_all (serve_http env app checks) rs w)))
    \<and> total_balance (w_db (snd (serve_all (serve_http env app checks) rs w))) = total_balance (w_db w)
    \<and> evolves (tokens (w_db w)) (tokens (w_db (snd (serve_all (serve_http env app checks) rs w))))
    \<and> (opening_balance (w_db w) i = Some x \<longrightarrow>
        opening_balance (w_db (snd (serve_all (serve_http env app checks) rs w))) i = Some x)"
  by (rule served.kept_by_all [OF assms, unfolded books_kept_def, rule_format])

theorem server_keeps_books_witness:
  "total_balance (w_db (snd (serve_all (serve_http web_env web_app [])
     [pay_request ''ALICE'', pay_request ''MALLORY''] (sample_world sample_db)))) = 105"
  using server_keeps_books [of "sample_world sample_db"] sample_inv sample_balances(3)
  by (simp del: serve_all.simps)

text \<open>
  C5: every route but registration, login, refresh and the health checks needs a valid access
  token: without one the reply is 401 and neither the tables nor the cache are touched.
\<close>
theorem protected_routes:
  assumes "serve_http env app checks r w = (rp, w')" "find_route r = Some e"
    "e \<notin> {ERegister, ELogin, ERefresh, EHealth, EReady}"
    "\<And>claims w1. \<not> authenticated env app r w claims w1"
  shows "rp_code rp = Some 401 \<and> w_db w' = w_db w \<and> w_redis w' = w_redis w"
proof -
  from assms(3) obtain h where h: "endpoint_handler env app checks e = Middleware env app h" by (cases e) auto
  with assms(1,2) have "Middleware env app h r None w = (rp, w')" by (simp add: serve_http_def)
  then show ?thesis
    by (cases rule: Middleware_cases) (use assms(4) in \<open>auto simp: unauthorized_code same_stores_def\<close>)
qed

theorem protected_routes_witness:
  "rp_code (fst (serve_http web_env web_app [] (pay_request ''MALLORY'') (sample_world sample_db))) = Some 401"
proof -
  obtain rp w' where s: "serve_http web_env web_app [] (pay_request ''MALLORY'') (sample_world sample_db) = (rp, w')" by force
  have "bearerToken (pay_request ''MALLORY'') = Inr ''MALLORY''" by code_simp
  then have "\<not> authenticated web_env web_app (pay_request ''MALLORY'') (sample_world sample_db) claims w1" for claims w1
    by (simp add: authenticated_def ValidateAccessToken_def bindE_def jwt_parse_def now_nano_def web_env_def)
  from protected_routes [OF s pay_route _ this] s show ?thesis by simp
qed

end
