(* ===== verification/Http_Replies.thy ===== *)
theory Http_Replies
  imports Http_Samples
begin

text \<open>
  What the replies of the server look like and whom they show data to: one status, at most one
  body that fits it, and private data only for its owner.
\<close>

section \<open>Well-formed replies\<close>

fun body_fits :: "int \<Rightarrow> payload \<Rightarrow> bool" where
  "body_fits code (ErrorBody s m) \<longleftrightarrow> code \<in> {400, 401, 403, 404, 409, 422, 429, 500} \<and> (s = status code \<or> code = 401 \<and> m = None)"
| "body_fits code (PlainBody s) \<longleftrightarrow> code \<in> {404, 405}"
| "body_fits code (FieldBody k v) \<longleftrightarrow> code \<in> {200, 201, 503}"
| "body_fits code (RegisteredBody a p) \<longleftrightarrow> code = 201"
| "body_fits code _ \<longleftrightarrow> code = 200"

text \<open>One status; one body that fits it, or none where the reply could not be encoded.\<close>

definition well_formed :: "response \<Rightarrow> bool" where
  "well_formed rp \<longleftrightarrow> (case rp_code rp of
     None \<Rightarrow> False
   | Some code \<Rightarrow> (case rp_body rp of
       [] \<Rightarrow> code = 500
     | [b] \<Rightarrow> body_fits code b
     | _ \<Rightarrow> False))"

definition blank :: "response \<Rightarrow> bool" where
  "blank w \<longleftrightarrow> rp_code w = None \<and> rp_body w = []"

lemma blank_simps [simp]:
  "blank new_response" "blank json_response" "blank (SetAuthCookie p n t a w) = blank w"
  by (simp_all add: blank_def json_response_def set_header_def)

lemma blank_cookies [simp]: "blank (set_pair_cookies p w) = blank w" "blank (clear_cookies w) = blank w"
  by (simp_all add: set_pair_cookies_def clear_cookies_def)

lemma well_formed_WriteError [simp]:
  "blank w \<Longrightarrow> code \<in> {400, 401, 403, 404, 409, 422, 429, 500} \<Longrightarrow> well_formed (WriteError code err flag w)"
  by (auto simp: well_formed_def blank_def)

lemma well_formed_auth [simp]: "blank w \<Longrightarrow> well_formed (WriteAuthError err w)"
  by (simp add: WriteAuthError_def)

lemma well_formed_transfer_error [simp]: "blank w \<Longrightarrow> well_formed (transfer_error err w)"
  by (simp add: transfer_error_def)

lemma well_formed_log [simp]: "blank w \<Longrightarrow> body_fits code v \<Longrightarrow> well_formed (json_or_log code v w)"
  by (simp add: well_formed_def json_or_log_def blank_def)

lemma well_formed_json [simp]:
  "blank w \<Longrightarrow> encodable v \<Longrightarrow> body_fits code v \<Longrightarrow> well_formed (json_or_error code v flag w)"
proof -
  assume w: "blank w" "encodable v" "body_fits code v"
  then have "json_or_error code v flag w = json_or_log code v w"
    by (cases "WriteJSON code v w") (auto simp: json_or_error_def json_or_log_def WriteJSON_def Let_def)
  with w show ?thesis by simp
qed

lemma well_formed_unauthorized [simp]: "well_formed (unauthorized m)"
  by (simp add: well_formed_def unauthorized_code)

lemma well_formed_no_route: "well_formed (no_route r)"
  by (simp add: no_route_def well_formed_def write_body_def write_header_def)

lemmas handler_defs = handle_Register_def handle_Login_def handle_Refresh_def handle_Logout_def
  handle_LogoutAll_def handle_Transfer_def handle_GetTransaction_def handle_TransactionFilter_def
  handle_GetAccount_def handle_AccountTransactions_def handle_Health_def handle_Readiness_def
  reply_error_def reply_auth_error_def success_body_def

lemma handlers_well_formed:
  "well_formed (fst (handle_Register env app r who w))" "well_formed (fst (handle_Login env app r who w))"
  "well_formed (fst (handle_Refresh env app r who w))" "well_formed (fst (handle_Logout env app r who w))"
  "well_formed (fst (handle_LogoutAll env app r who w))" "well_formed (fst (handle_Transfer env app r who w))"
  "well_formed (fst (handle_GetTransaction env app r who w))"
  "well_formed (fst (handle_TransactionFilter env app r who w))"
  "well_formed (fst (handle_GetAccount env app r who w))"
  "well_formed (fst (handle_AccountTransactions env app r who w))"
  "well_formed (fst (handle_Health r who w))" "well_formed (fst (handle_Readiness checks r who w))"
  by (simp_all add: handler_defs Let_def split: prod.split sum.split option.split bool.split)

lemma Middleware_well_formed:
  assumes "\<And>who v. well_formed (fst (h r who v))"
  shows "well_formed (fst (Middleware env app h r who w))"
  using assms by (auto simp: Middleware_def split: prod.split sum.split)

section \<open>No reply without a body\<close>

text \<open>The encoder refuses a stored transaction only for the year of its time.\<close>

definition odd_time_stored :: "database \<Rightarrow> bool" where
  "odd_time_stored d \<longleftrightarrow> list_ex (\<lambda>row. \<not> time_encodable (tr_created_at row)) (transactions d)"

definition shown_times :: "transaction list \<Rightarrow> database \<Rightarrow> bool" where
  "shown_times xs d \<longleftrightarrow> tx_Created_at ` set xs \<subseteq> tr_created_at ` set (transactions d)"

lemma scan_transaction_time: "scan_transaction r = Inr x \<Longrightarrow> tx_Created_at x = tr_created_at r"
  by (auto simp: scan_transaction_def split: sum.splits)

lemma scan_all_times: "scan_all scan_transaction rs = Inr xs \<Longrightarrow> tx_Created_at ` set xs = tr_created_at ` set rs"
proof (induction rs arbitrary: xs)
  case (Cons r rs)
  then obtain y ys where "scan_transaction r = Inr y" "scan_all scan_transaction rs = Inr ys" "xs = y # ys"
    by (auto split: sum.splits)
  with Cons.IH [of ys] show ?case by (simp add: scan_transaction_time)
qed simp

lemma GetTransactions_times:
  assumes "tx_GetTransactions env flt w = (Inr xs, w')" "on_tx w d now"
  shows "shown_times xs d"
proof -
  from assms(1) obtain q rows w1 where q: "sqlrequest flt = Some q" and
    s: "sql env (\<lambda>t. case run_query q (transactions (t_db t)) of
      None \<Rightarrow> Inl ''42P18'' | Some rs \<Rightarrow> Inr (rs, t_db t)) w = (Inr rows, w1)" and
    x: "scan_all scan_transaction rows = Inr xs"
    by (auto simp: tx_GetTransactions_def liftR_def elim!: bindE_InrE split: option.splits)
  from s assms(2) have "rows = listed_rows flt d" by (auto simp: run_listed [OF q] elim!: sql_on)
  with scan_all_times [OF x] listed_rows_in show ?thesis by (fastforce simp: shown_times_def)
qed

lemma filter_times:
  assumes "GetTransactionFilter env cfg flt u k w = (Inr xs, w')"
  shows "shown_times xs (w_db w)"
  using assms unfolding GetTransactionFilter_def
  by (rule limited_Inr) (auto elim!: bindE_InrE dest: GetTransactions_times)

lemma history_times:
  fixes w w' :: "'z world_scheme"
  assumes "TransactionHistory env cfg i l off w = (Inr (n, xs), w')"
  shows "shown_times xs (w_db w)"
proof -
  from assms obtain w1 w2 :: "'z world_scheme" and now where on: "on_tx w1 (w_db w) now" and
    b: "bindE (tx_TotalTransactions env i) (\<lambda>total.
          bindE (tx_GetTransactions env (history_filter i l off)) (\<lambda>transactions.
          bindE (Commit env) (\<lambda>_. returnE (total, transactions)))) w1 = (Inr (n, xs), w2)"
    unfolding TransactionHistory_def by (rule limited_Inr) blast
  from b obtain w3 w4 :: "'z world_scheme" where t: "tx_TotalTransactions env i w1 = (Inr n, w3)"
    and g: "tx_GetTransactions env (history_filter i l off) w3 = (Inr xs, w4)"
    by (auto elim!: bindE_InrE)
  from t on have "on_tx w3 (w_db w) now" by (auto simp: tx_TotalTransactions_def elim!: sql_on)
  with g show ?thesis by (rule GetTransactions_times)
qed

lemma transaction_time:
  fixes w w' :: "'z world_scheme"
  assumes "GetTransaction env cfg i u k w = (Inr x, w')"
  shows "shown_times [x] (w_db w)"
proof -
  from assms obtain w1 w2 :: "'z world_scheme" and now where on: "on_tx w1 (w_db w) now" and
    b: "bindE (tx_GetByID env i) (\<lambda>x. if tx_Sender_id x \<noteq> u \<and> tx_Receiver_id x \<noteq> u
      then failE (Sentinel ErrAccessDenied) else bindE (Commit env) (\<lambda>_. returnE x)) w1 = (Inr x, w2)"
    unfolding GetTransaction_def by (rule limited_Inr) blast
  from b obtain w3 :: "'z world_scheme" where "tx_GetByID env i w1 = (Inr x, w3)"
    by (auto elim!: bindE_InrE split: if_splits)
  with on obtain r where "find_row (\<lambda>r. tr_id r = i) (transactions (w_db w)) = Some r" "scan_transaction r = Inr x"
    by (auto simp: tx_GetByID_def elim!: select_row_on)
  then show ?thesis by (auto simp: shown_times_def dest: find_row_Some scan_transaction_time)
qed

lemma all_encodable:
  assumes "shown_times xs d" "\<not> odd_time_stored d"
  shows "list_all (\<lambda>t. time_encodable (tv_created_at t)) (map view_transaction xs)"
proof -
  have "time_encodable (tx_Created_at x)" if "x \<in> set xs" for x
  proof -
    from that assms(1) have "tx_Created_at x \<in> tr_created_at ` set (transactions d)" by (auto simp: shown_times_def)
    with assms(2) show ?thesis by (auto simp: odd_time_stored_def list_ex_iff)
  qed
  then show ?thesis by (auto simp: list_all_iff view_transaction_def)
qed

definition has_body :: "response \<Rightarrow> bool" where
  "has_body rp \<longleftrightarrow> rp_body rp \<noteq> []"

lemma has_body_writers [simp]:
  "has_body (WriteError code err flag w)" "has_body (WriteAuthError err w)" "has_body (transfer_error err w)"
  "encodable v \<Longrightarrow> has_body (json_or_log code v w)" "has_body (unauthorized m)" "has_body (no_route r)"
  by (simp_all add: has_body_def WriteAuthError_def transfer_error_def json_or_log_def unauthorized_code
    no_route_def write_body_def)

lemma has_body_json [simp]: "encodable v \<Longrightarrow> has_body (json_or_error code v flag w)"
  by (cases "WriteJSON code v w") (auto simp: json_or_error_def WriteJSON_def has_body_def write_body_def Let_def)

lemma handlers_answer:
  "has_body (fst (handle_Register env app r who w))" "has_body (fst (handle_Login env app r who w))"
  "has_body (fst (handle_Refresh env app r who w))" "has_body (fst (handle_Logout env app r who w))"
  "has_body (fst (handle_LogoutAll env app r who w))" "has_body (fst (handle_Transfer env app r who w))"
  "has_body (fst (handle_GetAccount env app r who w))"
  "has_body (fst (handle_Health r who w))" "has_body (fst (handle_Readiness checks r who w))"
  by (simp_all add: handler_defs Let_def split: prod.split sum.split option.split bool.split)

lemma readers_answer:
  assumes "\<not> odd_time_stored (w_db w)"
  shows "has_body (fst (handle_GetTransaction env app r who w))"
    "has_body (fst (handle_TransactionFilter env app r who w))"
    "has_body (fst (handle_AccountTransactions env app r who w))"
proof -
  note enc = all_encodable [OF _ assms]
  show "has_body (fst (handle_GetTransaction env app r who w))"
    by (auto simp: handler_defs split: prod.split sum.split option.split dest!: transaction_time enc)
  show "has_body (fst (handle_TransactionFilter env app r who w))"
    by (auto simp: handler_defs Let_def split: prod.split sum.split option.split dest!: filter_times enc)
  show "has_body (fst (handle_AccountTransactions env app r who w))"
    by (auto simp: handler_defs Let_def split: prod.split sum.split option.split dest!: history_times enc)
qed

lemma Middleware_answers:
  assumes "\<And>who v. w_db v = w_db w \<Longrightarrow> has_body (fst (h r who v))"
  shows "has_body (fst (Middleware env app h r who w))"
proof -
  have "w_db v = w_db w" if "ValidateAccessToken env m tok w = (q, v)" for m tok q v
    using staysD [OF stays_ValidateToken(1) that] by (simp add: same_stores_def)
  with assms show ?thesis by (auto simp: Middleware_def split: prod.split sum.split)
qed

section \<open>Private data\<close>

text \<open>Whether a user may see a body: an account's own data, a transaction of which it is a party.\<close>

definition party_text :: "env \<Rightarrow> string \<Rightarrow> transaction_view \<Rightarrow> bool" where
  "party_text env user t \<longleftrightarrow> user = e_uuid_text env (tv_sender_id t) \<or> user = e_uuid_text env (tv_receiver_id t)"

fun may_see :: "env \<Rightarrow> string \<Rightarrow> payload \<Rightarrow> bool" where
  "may_see env user (AccountBody a) \<longleftrightarrow> user = e_uuid_text env (av_id a)"
| "may_see env user (HistoryBody ts n) \<longleftrightarrow> list_all (party_text env user) ts"
| "may_see env user (TransactionBody t) \<longleftrightarrow>
     (case e_uuid_parse env user of None \<Rightarrow> False | Some u \<Rightarrow> u = tv_sender_id t \<or> u = tv_receiver_id t)"
| "may_see env user _ \<longleftrightarrow> True"

fun private_body :: "payload \<Rightarrow> bool" where
  "private_body (AccountBody a) \<longleftrightarrow> True"
| "private_body (HistoryBody ts n) \<longleftrightarrow> True"
| "private_body (TransactionBody t) \<longleftrightarrow> True"
| "private_body _ \<longleftrightarrow> False"

definition public_reply :: "response \<Rightarrow> bool" where
  "public_reply rp \<longleftrightarrow> list_all (\<lambda>b. \<not> private_body b) (rp_body rp)"

lemma public_writers [simp]:
  "public_reply new_response" "public_reply json_response"
  "public_reply (WriteError code err flag w) = public_reply w"
  "public_reply (SetAuthCookie p n tk a w) = public_reply w" "public_reply (unauthorized m)"
  by (auto simp: public_reply_def json_response_def set_header_def unauthorized_code)

lemma public_cookies [simp]:
  "public_reply (set_pair_cookies p w) = public_reply w" "public_reply (clear_cookies w) = public_reply w"
  by (simp_all add: set_pair_cookies_def clear_cookies_def)

lemma public_errors [simp]:
  "public_reply (WriteAuthError err w) = public_reply w" "public_reply (transfer_error err w) = public_reply w"
  by (simp_all add: WriteAuthError_def transfer_error_def)

lemma public_json [simp]:
  "public_reply w \<Longrightarrow> \<not> private_body v \<Longrightarrow> public_reply (json_or_log code v w)"
  "public_reply w \<Longrightarrow> \<not> private_body v \<Longrightarrow> public_reply (json_or_error code v flag w)"
proof -
  show log: "public_reply w \<Longrightarrow> \<not> private_body v \<Longrightarrow> public_reply (json_or_log code v w)"
    by (simp add: public_reply_def json_or_log_def)
  show "public_reply w \<Longrightarrow> \<not> private_body v \<Longrightarrow> public_reply (json_or_error code v flag w)"
    using log by (cases "WriteJSON code v w") (auto simp: json_or_error_def json_or_log_def split: option.split)
qed

lemma public_no_route: "public_reply (no_route r)"
  by (simp add: no_route_def public_reply_def write_body_def write_header_def)

lemma public_handlers:
  "public_reply (fst (handle_Register env app r who w))" "public_reply (fst (handle_Login env app r who w))"
  "public_reply (fst (handle_Refresh env app r who w))" "public_reply (fst (handle_Logout env app r who w))"
  "public_reply (fst (handle_LogoutAll env app r who w))" "public_reply (fst (handle_Transfer env app r who w))"
  "public_reply (fst (handle_TransactionFilter env app r who w))"
  "public_reply (fst (handle_Health r who w))" "public_reply (fst (handle_Readiness checks r who w))"
  by (simp_all add: handler_defs Let_def split: prod.split sum.split option.split bool.split)

lemma body_of_log: "b \<in> set (rp_body (json_or_log code v w)) \<Longrightarrow> b = v \<or> b \<in> set (rp_body w)"
  by (auto simp: json_or_log_def split: if_splits)

lemma body_of_error: "b \<in> set (rp_body (WriteError code err flag w)) \<Longrightarrow> \<not> private_body b \<or> b \<in> set (rp_body w)"
  by auto

lemma json_response_body [simp]: "rp_body json_response = []"
  by (simp add: json_response_def set_header_def)

lemma account_private:
  assumes "handle_GetAccount env app r (Some who) w = (rp, w')" "b \<in> set (rp_body rp)" "private_body b"
  shows "may_see env (id_UserID who) b"
  using assms
  by (auto simp: handle_GetAccount_def reply_error_def view_account_def dest!: body_of_log GetAccount_id
      split: sum.splits prod.splits if_splits)

lemma history_private:
  assumes "handle_AccountTransactions env app r (Some who) w = (rp, w')" "b \<in> set (rp_body rp)"
    "private_body b" "db_inv (w_db w)" "id_UserID who \<noteq> e_uuid_text env uuid_Nil"
  shows "may_see env (id_UserID who) b"
proof -
  from assms(1-3,5) obtain i l off n txs where h: "TransactionHistory env (ap_limits app) i l off w = (Inr (n, txs), w')"
    and i: "id_UserID who = e_uuid_text env i" "i \<noteq> uuid_Nil" and b: "b = HistoryBody (map view_transaction txs) n"
    by (auto simp: handle_AccountTransactions_def reply_error_def Let_def dest!: body_of_log
        split: sum.splits prod.splits if_splits) metis+
  define rows where "rows = filter_window (history_filter i l off)
    (newest_first (filter (\<lambda>r. tr_receiver r = i \<or> tr_sender r = i) (transactions (w_db w))))"
  from TransactionHistory_Inr [OF h assms(4) i(2)] have shown: "list_all2 shows_row rows txs" by (simp add: rows_def)
  have own: "tr_receiver x = i \<or> tr_sender x = i" if row: "x \<in> set rows" for x
    using row by (auto simp: rows_def newest_first_def dest: in_filter_window)
  have "party_text env (id_UserID who) (view_transaction x)" if mem: "x \<in> set txs" for x
  proof -
    obtain k where k: "k < length txs" "x = txs ! k" using mem by (auto simp: in_set_conv_nth)
    then have "rows ! k \<in> set rows" using list_all2_lengthD [OF shown] by simp
    then have "tr_receiver (rows ! k) = i \<or> tr_sender (rows ! k) = i" by (rule own)
    moreover have "shows_row (rows ! k) x" using list_all2_nthD2 [OF shown k(1)] k(2) by simp
    ultimately have "tx_Receiver_id x = i \<or> tx_Sender_id x = i" by (auto simp: shows_row_def)
    with i(1) show ?thesis by (auto simp: party_text_def view_transaction_def)
  qed
  with b show ?thesis by (auto simp: list_all_iff)
qed

lemma transaction_private:
  assumes "handle_GetTransaction env app r (Some who) w = (rp, w')" "b \<in> set (rp_body rp)" "private_body b"
  shows "may_see env (id_UserID who) b"
  using assms
  by (auto simp: handle_GetTransaction_def uuid_parse_def view_transaction_def
      dest!: body_of_log GetTransaction_party split: sum.splits prod.splits if_splits option.splits)

section \<open>Properties\<close>

lemma serve_http_well_formed: "well_formed (fst (serve_http env app checks r w))"
proof (cases "find_route r")
  case (Some e)
  then show ?thesis
    by (cases e) (simp_all add: serve_http_def handlers_well_formed Middleware_well_formed)
qed (simp add: serve_http_def well_formed_no_route)

lemma serve_http_answers:
  "has_body (fst (serve_http env app checks r w))
   \<or> find_route r \<in> {Some EAccountTransactions, Some EGetTransaction, Some ETransactionFilter}
     \<and> odd_time_stored (w_db w)"
proof (cases "find_route r")
  case (Some e)
  have "has_body (fst (endpoint_handler env app checks e r None w))"
    if "e \<notin> {EAccountTransactions, EGetTransaction, ETransactionFilter} \<or> \<not> odd_time_stored (w_db w)"
    using that by (cases e) (auto intro!: handlers_answer readers_answer Middleware_answers)
  with Some show ?thesis by (auto simp: serve_http_def)
qed (simp add: serve_http_def)

text \<open>
  C24: every request, whatever it holds and whatever fails, is answered with one known status and
  exactly one body, whose kind fits the status: an error body names its status, and data only comes
  with a success. The one exception is a bare 500, which only the three routes that show
  transactions can answer, and only while the table holds a transaction whose time JSON
  cannot express.
\<close>
theorem replies_well_formed:
  "well_formed (fst (serve_http env app checks r w))
   \<and> ((\<exists>b. rp_body (fst (serve_http env app checks r w)) = [b])
      \<or> rp_body (fst (serve_http env app checks r w)) = [] \<and> rp_code (fst (serve_http env app checks r w)) = Some 500
        \<and> find_route r \<in> {Some EAccountTransactions, Some EGetTransaction, Some ETransactionFilter}
        \<and> list_ex (\<lambda>row. \<not> time_encodable (tr_created_at row)) (transactions (w_db w)))"
  using serve_http_well_formed [of env app checks r w] serve_http_answers [of env app checks r w]
  by (auto simp: well_formed_def has_body_def odd_time_stored_def split: option.splits list.splits)

text \<open>
  C6: private data goes to its owner only: a reply that shows an account, a history or a single
  transaction went to a request with a valid access token whose user is that account, or a party
  of every transaction shown (the zero id, which no generator yields, set aside).
\<close>
theorem private_replies:
  assumes "serve_http env app checks r w = (rp, w')" "db_inv (w_db w)"
    "b \<in> set (rp_body rp)" "private_body b"
  shows "\<exists>claims w1. authenticated env app r w claims w1
    \<and> (jc_UserID claims = e_uuid_text env uuid_Nil \<or> may_see env (jc_UserID claims) b)"
proof -
  have not_public: "\<not> public_reply rp" using assms(3,4) by (auto simp: public_reply_def list_all_iff)
  then obtain e where e: "find_route r = Some e"
    using assms(1) public_no_route by (cases "find_route r") (auto simp: serve_http_def)
  have plain: "endpoint_handler env app checks e r None w = (rp, w')" using assms(1) e by (simp add: serve_http_def)
  have guarded: ?thesis
    if "Middleware env app h r None w = (rp, w')"
      "\<And>who v v'. h r (Some who) v = (rp, v') \<Longrightarrow> db_inv (w_db v) \<Longrightarrow> id_UserID who \<noteq> e_uuid_text env uuid_Nil
         \<Longrightarrow> may_see env (id_UserID who) b" for h
    using that(1)
  proof (cases rule: Middleware_cases)
    case (refused m)
    with not_public show ?thesis by simp
  next
    case (passed claims w1)
    with that(2) [OF passed(2)] authenticated_stores [OF passed(1)] assms(2) show ?thesis
      by (auto simp: same_stores_def identity_of_def)
  qed
  have public: "\<not> Middleware env app h r None w = (rp, w')"
    if "\<And>who v. public_reply (fst (h r who v))" for h
    using not_public that by (auto elim!: Middleware_cases) (metis fst_conv)
  show ?thesis
  proof (cases e)
    case EGetAccount
    with plain account_private [OF _ assms(3,4)] show ?thesis by (intro guarded [of "handle_GetAccount env app"]) auto
  next
    case EAccountTransactions
    with plain history_private [OF _ assms(3,4)] show ?thesis
      by (intro guarded [of "handle_AccountTransactions env app"]) auto
  next
    case EGetTransaction
    with plain transaction_private [OF _ assms(3,4)] show ?thesis
      by (intro guarded [of "handle_GetTransaction env app"]) auto
  qed (use plain public public_handlers not_public in \<open>auto, (metis fst_conv)+\<close>)
qed

theorem private_replies_witness:
  "\<exists>claims w1. authenticated web_env web_app (get_request ''ALICE'' [''accounts'', ''1''] []) (sample_world sample_db) claims w1
     \<and> jc_UserID claims = ''1''"
proof -
  let ?r = "get_request ''ALICE'' [''accounts'', ''1''] []"
  obtain rp w' where s: "serve_http web_env web_app [] ?r (sample_world sample_db) = (rp, w')" by force
  have "list_ex (\<lambda>b. private_body b \<and> may_see web_env ''1'' b) (rp_body (fst (serve_http web_env web_app [] ?r (sample_world sample_db))))"
    by code_simp
  with s obtain b where b: "b \<in> set (rp_body rp)" "private_body b" by (auto simp: list_ex_iff)
  have inv: "db_inv (w_db (sample_world sample_db))" by (simp add: sample_inv)
  from private_replies [OF s inv b] obtain claims w1
    where c: "authenticated web_env web_app ?r (sample_world sample_db) claims w1" by blast
  moreover have "jc_UserID claims = ''1''"
  proof -
    have "jc_UserID web_claims = ''1''" by (simp add: web_claims_def access_claims_def)
    with c show ?thesis
      by (auto simp: authenticated_def ValidateAccessToken_def bindE_def jwt_parse_def now_nano_def web_env_def
          split: if_splits)
  qed
  ultimately show ?thesis by blast
qed

end
