(* ===== verification/Decimal_Json.thy ===== *)
theory Decimal_Json
  imports Decimal_Props Json_Props Domain
begin

text \<open>
  The JSON form of a decimal (\<open>decimal.go\<close>, \<open>MarshalJSON\<close> and \<open>UnmarshalJSON\<close>). A JSON number
  goes through \<open>float64\<close>: \<open>format_float\<close> is \<open>strconv.FormatFloat\<close> of the number read, \<open>None\<close> for
  one out of range.
\<close>

definition UnmarshalJSON :: "(string \<Rightarrow> string option) \<Rightarrow> string \<Rightarrow> (error, decimal) result" where
  "UnmarshalJSON format_float data =
     (let parsed = (\<lambda>s. case NewFromString s of Inl e \<Rightarrow> Inl (DecErr e) | Inr d \<Rightarrow> Inr d) in
      case json_parse data of
        None \<Rightarrow> Inl (Plain ''json: syntax'')
      | Some (v, rest) \<Rightarrow>
          if skip_ws rest \<noteq> [] then Inl (Plain ''json: syntax'')
          else (case v of
              JString s \<Rightarrow> parsed s
            | JNull \<Rightarrow> parsed []
            | JNumber n \<Rightarrow>
                (case format_float n of None \<Rightarrow> Inl (Plain ''json: cannot unmarshal'') | Some s \<Rightarrow> parsed s)
            | _ \<Rightarrow> Inl (Plain ''json: cannot unmarshal'')))"

lemma plain_digits_char: "is_digit c \<Longrightarrow> plain_char c"
  by (auto simp: plain_char_def is_digit_def ascii_def)

lemma plain_marks [simp]: "plain_char (CHR ''-'')" "plain_char (CHR ''+'')" "plain_char (CHR ''.'')"
  by (simp_all add: plain_char_def ascii_def)

lemma plain_decString:
  assumes "dec_wf d"
  shows "list_all plain_char (decString d)"
proof -
  have ok: "numeral_ok (printed d)" using assms by (rule printed_ok)
  have digits: "list_all is_digit s \<Longrightarrow> list_all plain_char s" for s
    by (auto simp: list_all_iff plain_digits_char)
  have "n_expo (printed d) = None" by (auto simp: printed_def Let_def split: prod.split)
  moreover from ok have "list_all plain_char (n_sign (printed d))" "list_all plain_char (n_int (printed d))"
    "list_all plain_char (frac_digits (printed d))"
    by (auto simp: numeral_ok_def digits)
  ultimately show ?thesis
    by (auto simp: decString_printed numeral_text_def frac_digits_def split: option.splits)
qed

lemma json_parse_quote: "list_all plain_char s \<Longrightarrow> json_parse (json_quote s) = Some (JString s, [])"
  using json_value_plain [of s "2 * length (json_quote s)" "[]"] by (simp add: json_parse_def json_quote_def)

lemma MarshalJSON_quote: "MarshalJSON d = json_quote (decString d)"
  by (simp add: MarshalJSON_def json_quote_def)

text \<open>
  C29: parsing inverts printing in every form a decimal takes: the text \<open>String()\<close> produces for a
  decimal within the exponent limit is accepted by \<open>NewFromString\<close>, by the database driver's
  \<open>Scan\<close> after \<open>Value\<close> and by \<open>UnmarshalJSON\<close> after \<open>MarshalJSON\<close>, and denotes the same number.
\<close>
theorem decimal_roundtrips:
  assumes "dec_wf d"
  shows "\<exists>d'. NewFromString (decString d) = Inr d' \<and> dec_Scan (dec_Value d) = Inr d'
    \<and> UnmarshalJSON format_float (MarshalJSON d) = Inr d' \<and> dec_wf d' \<and> dec_rat d' = dec_rat d"
  using print_parse [OF assms] json_parse_quote [OF plain_decString [OF assms]]
  by (auto simp: UnmarshalJSON_def MarshalJSON_quote skip_ws_def)

theorem decimal_roundtrips_witness:
  "decString \<lparr>d_value = Some (- 12500), d_exp = - 3\<rparr> = ''-12.5''
   \<and> (\<exists>d'. NewFromString ''-12.5'' = Inr d' \<and> dec_rat d' = - 25 / 2)"
proof -
  let ?d = "\<lparr>d_value = Some (- 12500), d_exp = - 3\<rparr>"
  have "dec_wf ?d" by (simp add: dec_wf_def MaxAbsExponent_def)
  from decimal_roundtrips [OF this] obtain d' where
    "NewFromString (decString ?d) = Inr d'" "dec_rat d' = dec_rat ?d" by blast
  moreover have "decString ?d = ''-12.5''" by code_simp
  moreover have "dec_rat ?d = - 25 / 2"
    by (simp add: dec_rat_def power_int_def power_divide)
  ultimately show ?thesis by auto
qed

end
