(* ===== verification/Http_Pay.thy ===== *)
theory Http_Pay
  imports Http_Samples Decimal_Json
begin

text \<open>
  \<open>POST /transactions\<close> from the bytes of the body to the status line: the body is read back
  exactly, and without faults the reply follows the decision table of the transfer.
\<close>

section \<open>The body\<close>

lemma object_members_length: "length ms \<le> length (object_members ms)"
  by (induction ms rule: object_members.induct) (auto simp: json_quote_def)

lemma json_parse_object:
  assumes "ms \<noteq> []" "list_all (\<lambda>(k, v). list_all plain_char k \<and> list_all plain_char v) ms"
  shows "json_parse (object_text ms) = Some (JObject (string_members ms), [])"
proof -
  obtain s where s: "object_members ms = CHR 0x22 # s" using object_members_start [OF assms(1)] by blast
  have "json_members (2 * length (object_text ms)) (object_members ms @ CHR ''}'' # []) = Some (string_members ms, [])"
    using assms object_members_length [of ms] by (intro json_members_plain) (simp_all add: object_text_def)
  then show ?thesis by (simp add: json_parse_def object_text_def s)
qed

text \<open>A client's body for a transfer, with the amount as the program prints it.\<close>

definition transfer_body :: "env \<Rightarrow> uuid \<Rightarrow> decimal \<Rightarrow> string" where
  "transfer_body env u d = object_text [(''receiver_id'', e_uuid_text env u), (''amount'', decString d)]"

lemma transfer_body_decodes:
  assumes "rq_body r = transfer_body env u d" "int (length (rq_body r)) \<le> maxJSONBodyBytes"
    "e_uuid_parse env (e_uuid_text env u) = Some u" "list_all plain_char (e_uuid_text env u)" "dec_wf d"
  shows "decode_transferDTO env r = Inr \<lparr>dto_Receiver_id = u, dto_Amount = decString d\<rparr>"
proof -
  have "json_parse (rq_body r)
      = Some (JObject (string_members [(''receiver_id'', e_uuid_text env u), (''amount'', decString d)]), [])"
    unfolding assms(1) transfer_body_def
    by (rule json_parse_object) (simp_all add: plain_char_def ascii_def plain_decString assms)
  then show ?thesis
    using assms(2,3) by (simp add: decode_transferDTO_def DecodeJSON_def decode_struct_def struct_field_def
        transferDTO_struct_def text_field_def string_field_def skip_ws_def)
qed

section \<open>The status of a decided transfer\<close>

lemma limiter_error:
  "limiter env cfg cmd w = Inl e \<Longrightarrow> errors_is e (Sentinel x) \<Longrightarrow> x = ErrRateLimited"
proof -
  have window: "checkWindow env ident limit window suffix v = (Inl e, v') \<Longrightarrow> errors_is e (Sentinel x) \<Longrightarrow> x = ErrRateLimited"
    for ident limit window suffix and v v' :: world
    by (auto simp: checkWindow_def now_nano_def Let_def bindE_def mapErr_def redis_call_def rateLimitScript_def
      split: option.splits prod.splits sum.splits if_splits)
  assume "limiter env cfg cmd w = Inl e" "errors_is e (Sentinel x)"
  moreover then obtain w' where "CheckRateLimit env cfg (e_uuid_text env (c_SenderID cmd)) (w\<lparr>w_tick := w_tick w + 3\<rparr>) = (Inl e, w')"
    unfolding limiter_def by (metis prod.collapse)
  ultimately show ?thesis by (auto simp: CheckRateLimit_def elim!: bindE_InlE dest: window)
qed

text \<open>
  The status for each verdict of the decision table. A request over the rate limit gets the
  status of an internal error, as does one whose sender has no account.
\<close>

definition verdict_status :: "(error, uuid option) result \<Rightarrow> int" where
  "verdict_status v =
     (case v of
        Inr _ \<Rightarrow> 201
      | Inl e \<Rightarrow> if e = Sentinel ErrIdempotencyConflict then 409
          else if e \<in> {Sentinel ErrSameAccount, Sentinel ErrInsufficientFunds, Sentinel ErrReceiverAccountNotFound}
          then 400 else 500)"

lemma verdict_error:
  assumes "transfer_verdict cmd (limiter env cfg cmd w) d = Inl e"
  shows "rp_code (transfer_error e json_response) = Some (verdict_status (Inl e))"
proof -
  have blank: "rp_code json_response = None" by (simp add: json_response_def set_header_def)
  from assms consider "limiter env cfg cmd w = Inl e"
    | "e \<in> {Sentinel ErrSameAccount, Sentinel ErrIdempotencyConflict, Sentinel ErrInsufficientFunds, Sentinel ErrReceiverAccountNotFound,
        Wrapped ''create idempotency record'' (PgError ''23503''), Wrapped ''add to balance'' (PgError ''22003'')}"
    by (auto simp: transfer_verdict_def split: if_splits option.splits sum.splits)
  then show ?thesis
  proof cases
    case 1
    from limiter_error [OF 1] have n: "\<not> errors_is e (Sentinel x)" if "x \<noteq> ErrRateLimited" for x using that by blast
    have "e \<noteq> Sentinel x" if "x \<noteq> ErrRateLimited" for x using n [OF that] by auto
    with n blank show ?thesis by (simp add: transfer_error_def verdict_status_def)
  next
    case 2
    with blank show ?thesis by (elim insertE emptyE) (simp_all add: transfer_error_def verdict_status_def)
  qed
qed

section \<open>Properties\<close>

text \<open>
  C25: the body of a transfer survives its trip: a JSON object with the printed receiver and the
  printed amount, within the limit of 64 KiB, is decoded to that receiver and to an amount with
  exactly the same value.
\<close>
theorem transfer_body_roundtrip:
  assumes "rq_body r = transfer_body env u d" "int (length (rq_body r)) \<le> maxJSONBodyBytes"
    "e_uuid_parse env (e_uuid_text env u) = Some u" "list_all plain_char (e_uuid_text env u)" "dec_wf d"
  shows "\<exists>dto a. decode_transferDTO env r = Inr dto \<and> dto_Receiver_id dto = u
    \<and> NewFromString (dto_Amount dto) = Inr a \<and> dec_rat a = dec_rat d"
  using transfer_body_decodes [OF assms] print_parse [OF assms(5)] by auto

theorem transfer_body_roundtrip_witness:
  "\<exists>dto a. decode_transferDTO web_env ((pay_request ''ALICE'')\<lparr>rq_body := transfer_body web_env bob ten\<rparr>) = Inr dto
    \<and> dto_Receiver_id dto = bob \<and> NewFromString (dto_Amount dto) = Inr a \<and> dec_rat a = 10"
proof -
  let ?r = "(pay_request ''ALICE'')\<lparr>rq_body := transfer_body web_env bob ten\<rparr>"
  have "int (length (rq_body ?r)) \<le> maxJSONBodyBytes" "e_uuid_parse web_env (e_uuid_text web_env bob) = Some bob"
    by code_simp+
  moreover have "list_all plain_char (e_uuid_text web_env bob)"
  proof -
    have "e_uuid_text web_env bob = ''2''" by code_simp
    then show ?thesis by (simp add: plain_digits_char is_digit_def)
  qed
  moreover note ten_ok(5)
  ultimately show ?thesis using transfer_body_roundtrip [of ?r web_env bob ten] ten_ok(4) by simp
qed

text \<open>
  C7: \<open>POST /transactions\<close> end to end: without faults, a well-formed request with a valid token is
  answered as the decision table of the transfer says: 201 with the id of the transaction when
  the money has moved, now or in an earlier request with the same key; 409 for a key used with
  another payload; 400 for the caller's own account, missing funds or an unknown receiver; 500
  otherwise. The tables change only when the money moves.
\<close>
theorem transfer_endpoint_decides:
  fixes cmd v
  assumes "calm env" "db_inv (w_db w)" "find_route r = Some ETransfer" "authenticated env app r w claims w1"
    "asks_transfer env r (jc_UserID claims) s dto a" "IsPositive a" "FitsNumeric a moneyPrecision moneyScale"
    "\<And>n. \<exists>i. e_uuid env n = Inr i \<and> i \<notin> set (map tr_id (transactions (w_db w)))"
    "serve_http env app checks r w = (rp, w')"
    "cmd = transferCommandOf env s (dto_Receiver_id dto) (idempotency_key r) a"
    "v = transfer_verdict cmd (limiter env (ap_limits app) cmd w1) (w_db w)"
  shows "rp_code rp = Some (verdict_status v)
    \<and> (case v of
        Inl e \<Rightarrow> rp_body rp = [ErrorBody (status (verdict_status v)) (Some e)] \<and> w_db w' = w_db w
      | Inr (Some i) \<Rightarrow> rp_body rp = [FieldBody ''transaction_id'' (e_uuid_text env i)] \<and> w_db w' = w_db w
      | Inr None \<Rightarrow> \<exists>i now. rp_body rp = [FieldBody ''transaction_id'' (e_uuid_text env i)]
          \<and> w_db w' = apply_transfer cmd i now (w_db w))"
proof -
  have w1: "w_db w1 = w_db w" using authenticated_stores [OF assms(4)] by (simp add: same_stores_def)
  have blank: "rp_code json_response = None" "rp_body json_response = []"
    by (simp_all add: json_response_def set_header_def)
  from assms(4) obtain token where tok: "bearerToken r = Inr token"
    "ValidateAccessToken env (ap_manager app) token w = (Inr claims, w1)" by (auto simp: authenticated_def)
  have ask: "e_uuid_parse env (jc_UserID claims) = Some s" "ValidateIdempotencyKey (idempotency_key r) = None"
    "decode_transferDTO env r = Inr dto" "NewFromString (dto_Amount dto) = Inr a"
    using assms(5) by (simp_all add: asks_transfer_def)
  obtain res w2 where t: "Transfer env (ap_limits app) s (dto_Receiver_id dto) (idempotency_key r) a w1 = (res, w2)" by force
  with assms(3,9) tok ask have out: "rp = transfer_response res" "w' = w2"
    by (auto simp: serve_http_def Middleware_def handle_Transfer_def uuid_parse_def Let_def transfer_response_def
        split: sum.splits)
  have "verdict_holds env cmd (w_db w) v res (w_db w2)"
    using Transfer_calm [OF assms(1) _ decoded_amount_ok [OF ask(3,4)] assms(6,7) ask(2) _ t] assms(2,8,10,11) w1
    by simp
  then show ?thesis
  proof (cases v)
    case (Inl e)
    with \<open>verdict_holds env cmd (w_db w) v res (w_db w2)\<close> have "res = Inl e" "w_db w2 = w_db w"
      by (simp_all add: verdict_holds_def)
    moreover have code: "rp_code (transfer_error e json_response) = Some (verdict_status (Inl e))"
      using verdict_error assms(11) Inl by simp
    moreover from code have "rp_body (transfer_error e json_response) = [ErrorBody (status (verdict_status (Inl e))) (Some e)]"
      by (auto simp: transfer_error_def blank split: if_splits)
    ultimately show ?thesis using Inl out by (simp add: transfer_response_def)
  next
    case (Inr p)
    then show ?thesis
      using \<open>verdict_holds env cmd (w_db w) v res (w_db w2)\<close> out blank
      by (cases p) (auto simp: verdict_holds_def transfer_response_def json_or_log_def verdict_status_def)
  qed
qed

theorem transfer_endpoint_decides_witness:
  "rp_code (fst (serve_http web_env web_app [] (pay_request ''ALICE'') (sample_world sample_db))) = Some 201
   \<and> w_db (snd (serve_http web_env web_app [] (pay_request ''ALICE'') (sample_world sample_db))) \<noteq> sample_db"
proof -
  let ?w = "sample_world sample_db" and ?r = "pay_request ''ALICE''"
  let ?dto = "\<lparr>dto_Receiver_id = bob, dto_Amount = ''10''\<rparr>"
  let ?cmd = "transferCommandOf web_env alice (dto_Receiver_id ?dto) (idempotency_key ?r) ten"
  obtain rp w' where s: "serve_http web_env web_app [] ?r ?w = (rp, w')" by force
  have calm: "calm web_env" by (simp add: calm_def web_env_def sample_env_def)
  have inv: "db_inv (w_db ?w)" by (simp add: sample_inv)
  have "bearerToken ?r = Inr ''ALICE''" by code_simp
  moreover have "ValidateAccessToken web_env (ap_manager web_app) ''ALICE'' ?w = (Inr web_claims, tick ?w)"
    by (simp add: ValidateAccessToken_def bindE_def jwt_parse_def now_nano_def web_env_def web_app_def sample_manager_def
        web_claims_def access_claims_def)
  ultimately have auth: "authenticated web_env web_app ?r ?w web_claims (tick ?w)" by (simp add: authenticated_def)
  have asks: "asks_transfer web_env ?r (jc_UserID web_claims) alice ?dto ten"
    unfolding asks_transfer_def by code_simp
  have fresh: "\<exists>i. e_uuid web_env n = Inr i \<and> i \<notin> set (map tr_id (transactions (w_db ?w)))" for n
    by (simp add: web_env_def sample_env_def sample_db_def)
  have "limiter web_env (ap_limits web_app) ?cmd (tick ?w)
      = fst (CheckRateLimit web_env sample_limits (e_uuid_text web_env alice) ((sample_world sample_db)\<lparr>w_tick := 4\<rparr>))"
    by (simp add: limiter_def web_app_def transferCommandOf_def Let_def sample_world_def tick_def)
  also have "\<dots> = Inr ()" by code_simp
  finally have lim: "limiter web_env (ap_limits web_app) ?cmd (tick ?w) = Inr ()" .
  have "find_idem sample_db alice k = None" for k by (simp add: find_idem_def find_row_def sample_db_def)
  then have v: "transfer_verdict ?cmd (limiter web_env (ap_limits web_app) ?cmd (tick ?w)) (w_db ?w) = Inr None"
    using sample_balances ten_ok(4) unfolding lim
    by (simp add: transfer_verdict_def transferCommandOf_def Let_def) (simp add: alice_def bob_def)
  from transfer_endpoint_decides [OF calm inv pay_route auth asks ten_ok(2,3) fresh s refl v [symmetric]]
  obtain i now where "rp_code rp = Some 201" "w_db w' = apply_transfer ?cmd i now sample_db"
    by (auto simp: verdict_status_def)
  moreover have "transactions (apply_transfer ?cmd i now sample_db) \<noteq> transactions sample_db"
    by (simp add: apply_transfer_def)
  ultimately show ?thesis using s by auto
qed

end
