(* ===== verification/Go_Duration.thy ===== *)
theory Go_Duration
  imports Go_Strconv
begin

text \<open>
  \<open>time.ParseDuration\<close> of Go's standard library, which the configuration is read with, and the
  properties of its loop the configuration rests on.
\<close>

section \<open>Durations\<close>

text \<open>
  \<open>time.ParseDuration\<close> with unsigned 64-bit accumulators that are checked before they pass
  \<open>2 ^ 63\<close>. The one expression on \<open>float64\<close>, \<open>uint64(float64(f) * (float64(unit) / scale))\<close> with
  the scale a power of ten, is the parameter \<open>float_part f unit digits\<close>.
\<close>

fun leading_int :: "int \<Rightarrow> string \<Rightarrow> (int \<times> string) option" where
  "leading_int x [] = Some (x, [])"
| "leading_int x (c # cs) =
     (if \<not> is_digit c then Some (x, c # cs)
      else if x > 2 ^ 63 div 10 then None
      else if x * 10 + digit_val c > 2 ^ 63 then None
      else leading_int (x * 10 + digit_val c) cs)"

text \<open>The fraction, the number of its digits that count, and the rest: digits past the range are read but ignored.\<close>

fun leading_fraction :: "int \<Rightarrow> nat \<Rightarrow> bool \<Rightarrow> string \<Rightarrow> int \<times> nat \<times> string" where
  "leading_fraction x k overflow [] = (x, k, [])"
| "leading_fraction x k overflow (c # cs) =
     (if \<not> is_digit c then (x, k, c # cs)
      else if overflow then leading_fraction x k True cs
      else if x > (2 ^ 63 - 1) div 10 then leading_fraction x k True cs
      else if x * 10 + digit_val c > 2 ^ 63 then leading_fraction x k True cs
      else leading_fraction (x * 10 + digit_val c) (Suc k) False cs)"

definition unit_map :: "(string \<times> int) list" where
  "unit_map = [(''ns'', 1), (''us'', 1000), ([CHR 0xC2, CHR 0xB5, CHR ''s''], 1000),
     ([CHR 0xCE, CHR 0xBC, CHR ''s''], 1000), (''ms'', 1000000), (''s'', 1000000000),
     (''m'', 60000000000), (''h'', 3600000000000)]"

definition unit_char :: "char \<Rightarrow> bool" where
  "unit_char c \<longleftrightarrow> \<not> (c = CHR ''.'' \<or> is_digit c)"

text \<open>One number with its unit: its nanoseconds and the rest of the text.\<close>

definition duration_part :: "(int \<Rightarrow> int \<Rightarrow> nat \<Rightarrow> int) \<Rightarrow> string \<Rightarrow> (int \<times> string) option" where
  "duration_part float_part s =
     (if \<not> (hd s = CHR ''.'' \<or> is_digit (hd s)) then None
      else (case leading_int 0 s of
          None \<Rightarrow> None
        | Some (v, s1) \<Rightarrow>
            (let pre = length s1 \<noteq> length s;
                 dot = (s1 \<noteq> [] \<and> hd s1 = CHR ''.'');
                 (f, k, s2) = (if dot then leading_fraction 0 0 False (tl s1) else (0, 0, s1));
                 post = (dot \<and> length s2 \<noteq> length (tl s1))
             in if \<not> pre \<and> \<not> post then None
                else (let u = takeWhile unit_char s2; s3 = dropWhile unit_char s2 in
                  if u = [] then None
                  else (case map_of unit_map u of
                      None \<Rightarrow> None
                    | Some unit \<Rightarrow>
                        if v > 2 ^ 63 div unit then None
                        else (let v1 = v * unit;
                                  v2 = (if f > 0 then v1 + float_part f unit k else v1)
                              in if f > 0 \<and> v2 > 2 ^ 63 then None else Some (v2, s3)))))))"

text \<open>The loop over the parts; each takes at least one character of the text.\<close>

fun duration_parts :: "(int \<Rightarrow> int \<Rightarrow> nat \<Rightarrow> int) \<Rightarrow> nat \<Rightarrow> int \<Rightarrow> string \<Rightarrow> int option" where
  "duration_parts float_part 0 d s = (if s = [] then Some d else None)"
| "duration_parts float_part (Suc n) d s =
     (if s = [] then Some d
      else (case duration_part float_part s of
          None \<Rightarrow> None
        | Some (v, s1) \<Rightarrow> if d + v > 2 ^ 63 then None else duration_parts float_part n (d + v) s1))"

definition ParseDuration :: "(int \<Rightarrow> int \<Rightarrow> nat \<Rightarrow> int) \<Rightarrow> string \<Rightarrow> int option" where
  "ParseDuration float_part s0 =
     (let neg = (s0 \<noteq> [] \<and> hd s0 = CHR ''-'');
          s = (if s0 \<noteq> [] \<and> (hd s0 = CHR ''-'' \<or> hd s0 = CHR ''+'') then tl s0 else s0)
      in if s = ''0'' then Some 0
         else if s = [] then None
         else (case duration_parts float_part (length s) 0 s of
             None \<Rightarrow> None
           | Some d \<Rightarrow> if neg then Some (- d) else if d > 2 ^ 63 - 1 then None else Some d))"

lemma leading_int_length: "leading_int x s = Some (v, s') \<Longrightarrow> length s' \<le> length s"
  by (induction x s rule: leading_int.induct) (auto split: if_splits)

lemma leading_fraction_length: "leading_fraction x k b s = (f, j, s') \<Longrightarrow> length s' \<le> length s"
  by (induction x k b s rule: leading_fraction.induct) (auto split: if_splits)

lemma duration_part_shorter: "duration_part fp s = Some (v, s') \<Longrightarrow> s \<noteq> [] \<Longrightarrow> length s' < length s"
proof -
  assume d: "duration_part fp s = Some (v, s')" and "s \<noteq> []"
  from d obtain v1 s1 where l: "leading_int 0 s = Some (v1, s1)"
    by (auto simp: duration_part_def split: if_splits option.splits)
  obtain f k s2 where f: "(if s1 \<noteq> [] \<and> hd s1 = CHR ''.'' then leading_fraction 0 0 False (tl s1) else (0, 0, s1)) = (f, k, s2)"
    by (metis prod.collapse)
  from d l f have u: "takeWhile unit_char s2 \<noteq> []" "s' = dropWhile unit_char s2"
    by (auto simp: duration_part_def Let_def split: if_splits option.splits)
  have "length s1 \<le> length s" using l by (rule leading_int_length)
  moreover have "length s2 \<le> length s1" using f by (auto split: if_splits dest!: leading_fraction_length)
  moreover have "length s2 = length (takeWhile unit_char s2) + length s'"
    unfolding u(2) by (metis length_append takeWhile_dropWhile_id)
  ultimately show ?thesis using u(1) by (cases "takeWhile unit_char s2") auto
qed

text \<open>The counter of the loop is enough: with the length of the text it never stops it.\<close>

lemma duration_parts_enough:
  "length s \<le> n \<Longrightarrow> duration_parts fp (n + k) d s = duration_parts fp n d s"
proof (induction n arbitrary: d s)
  case 0
  then show ?case by (cases k) simp_all
next
  case (Suc n)
  show ?case
  proof (cases "s = [] \<or> duration_part fp s = None")
    case False
    then obtain v s1 where "duration_part fp s = Some (v, s1)" "s \<noteq> []" by auto
    with duration_part_shorter [of fp s v s1] Suc show ?thesis by simp
  qed auto
qed

section \<open>The texts an operator writes\<close>

lemma leading_int_digits:
  assumes "list_all is_digit ds" "0 \<le> x" "digits_val x ds \<le> 2 ^ 63" "u \<noteq> []" "\<not> is_digit (hd u)"
  shows "leading_int x (ds @ u) = Some (digits_val x ds, u)"
  using assms
proof (induction ds arbitrary: x)
  case Nil
  then show ?case by (cases u) simp_all
next
  case (Cons c ds)
  let ?x = "x * 10 + digit_val c"
  have c: "is_digit c" "0 \<le> digit_val c" using Cons.prems(1) digit_val_bounds [of c] by auto
  have "?x \<le> digits_val ?x ds" using Cons.prems(1,2) c by (intro digits_val_mono) auto
  with Cons.prems(3) have le: "?x \<le> 2 ^ 63" by simp
  then have "\<not> x > 2 ^ 63 div 10" using c(2) by simp
  with c le Cons show ?case by simp
qed

lemma unit_map_units:
  "map_of unit_map u = Some k \<Longrightarrow> u \<noteq> [] \<and> list_all unit_char u \<and> 0 < k"
  by (auto simp: unit_map_def unit_char_def is_digit_def split: if_splits)

text \<open>A whole number of a unit within the range is that many nanoseconds.\<close>

lemma ParseDuration_unit:
  assumes "ds \<noteq> []" "list_all is_digit ds" "map_of unit_map u = Some k" "digits_val 0 ds * k < 2 ^ 63"
  shows "ParseDuration fp (ds @ u) = Some (digits_val 0 ds * k)"
proof -
  let ?v = "digits_val 0 ds"
  have u: "u \<noteq> []" "list_all unit_char u" "0 < k" using unit_map_units [OF assms(3)] by auto
  have v: "0 \<le> ?v" using digits_val_bounds [OF assms(2)] by simp
  have vk: "?v \<le> 2 ^ 63 div k" using assms(4) u(3) by (simp add: zdiv_mono1 [of "?v * k" "2 ^ 63" k, simplified])
  have "?v * 1 \<le> ?v * k" using v u(3) by (intro mult_left_mono) auto
  with assms(4) have v63: "?v \<le> 2 ^ 63" by simp
  obtain c cs where ds: "ds = c # cs" using assms(1) by (cases ds) auto
  have c: "is_digit c" using assms(2) ds by simp
  obtain a as where ua: "u = a # as" using u(1) by (cases u) auto
  have a: "\<not> is_digit a" "a \<noteq> CHR ''.''" using u(2) ua by (auto simp: unit_char_def)
  have li: "leading_int 0 (ds @ u) = Some (?v, u)"
    using assms(2) v63 u(1) a ua by (intro leading_int_digits) auto
  have all: "takeWhile unit_char u = u" "dropWhile unit_char u = []"
    using u(2) by (auto simp: list_all_iff takeWhile_eq_all_conv)
  have part: "duration_part fp (ds @ u) = Some (?v * k, [])"
  proof -
    have "is_digit (hd (ds @ u))" "hd u \<noteq> CHR ''.''" "length u \<noteq> length (ds @ u)" using c a ds ua by simp_all
    with li assms(3) vk u(1) show ?thesis by (simp add: duration_part_def Let_def all)
  qed
  have "duration_parts fp (length (ds @ u)) 0 (ds @ u) = Some (?v * k)"
    using part assms(4) by (simp add: ds ua)
  moreover have "c \<noteq> CHR ''-''" "c \<noteq> CHR ''+''" using c by auto
  moreover have "ds @ u \<noteq> ''0''" using ds ua by auto
  ultimately show ?thesis using assms(4) by (simp add: ParseDuration_def Let_def ds)
qed

end
