(* ===== verification/Config.thy ===== *)
theory Config
  imports Jwt_Manager Go_Text Go_Duration
begin

text \<open>
  Package \<open>internal/infrastructure/config\<close> (\<open>config.go\<close>): the configuration read from the
  environment of the process and its validation. The environment answers the empty string for a
  variable that is not set; \<open>godotenv.Load\<close>, which may add variables to it, is a parameter, and so
  is the one expression of \<open>time.ParseDuration\<close> on floats.
\<close>

type_synonym environment = "string \<Rightarrow> string"

section \<open>The configuration\<close>

definition EnvironmentDevelopment :: string where "EnvironmentDevelopment = ''development''"
definition EnvironmentStaging :: string where "EnvironmentStaging = ''staging''"
definition EnvironmentProduction :: string where "EnvironmentProduction = ''production''"

definition SSLModeDisable :: string where "SSLModeDisable = ''disable''"
definition SSLModeAllow :: string where "SSLModeAllow = ''allow''"
definition SSLModePrefer :: string where "SSLModePrefer = ''prefer''"
definition SSLModeRequire :: string where "SSLModeRequire = ''require''"
definition SSLModeVerifyCA :: string where "SSLModeVerifyCA = ''verify-ca''"
definition SSLModeVerifyFull :: string where "SSLModeVerifyFull = ''verify-full''"

record HTTPConfig =
  h_Port :: string
  h_ReadHeaderTimeout :: time
  h_ReadTimeout :: time
  h_WriteTimeout :: time
  h_IdleTimeout :: time
  h_ShutdownTimeout :: time

record JWTConfig =
  j_AccessSecret :: string
  j_RefreshSecret :: string
  j_AccessTTL :: time
  j_RefreshTTL :: time
  j_Issuer :: string

record PostgresConfig =
  p_HOST :: string
  p_PORT :: string
  p_DBNAME :: string
  p_USER :: string
  p_PASSWORD :: string
  p_SSLMODE :: string
  p_MaxConns :: int
  p_MaxIdleConns :: int
  p_ConnMaxLifetime :: time
  p_ConnMaxIdleTime :: time

record RedisConfig =
  r_HOST :: string
  r_PORT :: string
  r_USER :: string
  r_PASSWORD :: string
  r_DB :: int
  r_RateLimitMin :: int
  r_RateLimitHour :: int
  r_RateLimitDay :: int

record RateLimitConfig =
  l_PerMinute :: int
  l_PerHour :: int
  l_PerDay :: int

record Config =
  c_Environment :: string
  c_LogLevel :: string
  c_HTTP :: HTTPConfig
  c_Postgres :: PostgresConfig
  c_Redis :: RedisConfig
  c_JWT :: JWTConfig
  c_Ratelimit :: RateLimitConfig

section \<open>Reading a variable\<close>

definition getEnv :: "environment \<Rightarrow> string \<Rightarrow> string \<Rightarrow> string" where
  "getEnv os key defaultValue = (let v = TrimSpace (os key) in if v \<noteq> [] then v else defaultValue)"

text \<open>A text that is no integer, or no duration, reads as \<open>-1\<close>.\<close>

definition getEnvAsInt :: "environment \<Rightarrow> string \<Rightarrow> int \<Rightarrow> int" where
  "getEnvAsInt os key defaultValue =
     (let raw = TrimSpace (os key) in
      if raw = [] then defaultValue
      else (case parse_int raw 64 of Inl err \<Rightarrow> - 1 | Inr i \<Rightarrow> i))"

definition getEnvAsDuration ::
  "(int \<Rightarrow> int \<Rightarrow> nat \<Rightarrow> int) \<Rightarrow> environment \<Rightarrow> string \<Rightarrow> time \<Rightarrow> time" where
  "getEnvAsDuration float_part os key defaultValue =
     (let raw = TrimSpace (os key) in
      if raw = [] then defaultValue
      else (case ParseDuration float_part raw of None \<Rightarrow> - 1 | Some d \<Rightarrow> d))"

definition Second :: time where "Second = 1000000000"
definition Minute :: time where "Minute = 60 * Second"
definition Hour :: time where "Hour = 60 * Minute"

section \<open>Validation\<close>

text \<open>The errors by the variable they name; \<open>errors.Join\<close> drops the nil ones.\<close>

datatype config_error =
    InvalidValue string string     \<comment> \<open>the variable and the value refused\<close>
  | NotSet string
  | BadRule string
  | Joined "config_error list"

definition errors_Join :: "config_error option list \<Rightarrow> config_error option" where
  "errors_Join errs = (let es = List.map_filter (\<lambda>e. e) errs in if es = [] then None else Some (Joined es))"

text \<open>\<open>if c { errs = append(errs, e) }\<close>.\<close>

definition append_if :: "bool \<Rightarrow> config_error \<Rightarrow> config_error option list" where
  "append_if c e = (if c then [Some e] else [])"

definition oneOf :: "string \<Rightarrow> string list \<Rightarrow> bool" where
  "oneOf value allowed = list_ex (\<lambda>a. value = a) allowed"

definition required_var :: "string \<Rightarrow> string \<Rightarrow> config_error option" where
  "required_var key value = (if TrimSpace value = [] then Some (NotSet key) else None)"

definition Postgres_Validate :: "PostgresConfig \<Rightarrow> config_error option" where
  "Postgres_Validate c = errors_Join
     ([required_var ''POSTGRES_HOST'' (p_HOST c), required_var ''POSTGRES_PORT'' (p_PORT c),
       required_var ''POSTGRES_DB'' (p_DBNAME c), required_var ''POSTGRES_USER'' (p_USER c),
       required_var ''POSTGRES_PASSWORD'' (p_PASSWORD c)]
      @ append_if (\<not> oneOf (p_SSLMODE c) [SSLModeDisable, SSLModeAllow, SSLModePrefer,
            SSLModeRequire, SSLModeVerifyCA, SSLModeVerifyFull])
          (InvalidValue ''POSTGRES_SSLMODE'' (p_SSLMODE c))
      @ append_if (p_MaxConns c \<le> 0) (BadRule ''POSTGRES_MAX_CONNS'')
      @ append_if (p_MaxIdleConns c < 0 \<or> p_MaxIdleConns c > p_MaxConns c) (BadRule ''POSTGRES_MAX_IDLE_CONNS'')
      @ append_if (p_ConnMaxLifetime c \<le> 0 \<or> p_ConnMaxIdleTime c \<le> 0) (BadRule ''POSTGRES_CONN_MAX_*''))"

definition Config_Validate :: "Config \<Rightarrow> config_error option" where
  "Config_Validate c = errors_Join
     (append_if (\<not> oneOf (c_Environment c) [EnvironmentDevelopment, EnvironmentStaging, EnvironmentProduction])
          (InvalidValue ''ENVIRONMENT'' (c_Environment c))
      @ append_if (\<not> oneOf (c_LogLevel c) [''debug'', ''info'', ''warn'', ''error''])
          (InvalidValue ''LOG_LEVEL'' (c_LogLevel c))
      @ [Postgres_Validate (c_Postgres c),
         required_var ''REDIS_HOST'' (r_HOST (c_Redis c)), required_var ''REDIS_PORT'' (r_PORT (c_Redis c))]
      @ append_if (r_DB (c_Redis c) < 0) (BadRule ''REDIS_DB'')
      @ append_if (j_AccessSecret (c_JWT c) = [] \<or> j_RefreshSecret (c_JWT c) = [])
          (BadRule ''ACCESS_TOKEN_SECRET, REFRESH_TOKEN_SECRET: empty'')
      @ append_if (j_AccessSecret (c_JWT c) = j_RefreshSecret (c_JWT c) \<and> j_AccessSecret (c_JWT c) \<noteq> [])
          (BadRule ''ACCESS_TOKEN_SECRET, REFRESH_TOKEN_SECRET: equal'')
      @ append_if (j_AccessTTL (c_JWT c) \<ge> j_RefreshTTL (c_JWT c)) (BadRule ''ACCESS_TOKEN_TTL'')
      @ append_if (h_ReadHeaderTimeout (c_HTTP c) \<le> 0 \<or> h_ReadTimeout (c_HTTP c) \<le> 0
            \<or> h_WriteTimeout (c_HTTP c) \<le> 0 \<or> h_IdleTimeout (c_HTTP c) \<le> 0
            \<or> h_ShutdownTimeout (c_HTTP c) \<le> 0) (BadRule ''HTTP_*_TIMEOUT'')
      @ append_if (l_PerMinute (c_Ratelimit c) \<le> 0 \<or> l_PerHour (c_Ratelimit c) \<le> 0
            \<or> l_PerDay (c_Ratelimit c) \<le> 0) (BadRule ''RATE_LIMIT_*: positive'')
      @ append_if (l_PerMinute (c_Ratelimit c) > l_PerHour (c_Ratelimit c)
            \<or> l_PerHour (c_Ratelimit c) > l_PerDay (c_Ratelimit c)) (BadRule ''RATE_LIMIT_*: order'')
      @ (if c_Environment c = EnvironmentProduction
         then append_if (p_SSLMODE (c_Postgres c) = SSLModeDisable \<or> p_SSLMODE (c_Postgres c) = SSLModeAllow
               \<or> p_SSLMODE (c_Postgres c) = SSLModePrefer)
               (InvalidValue ''POSTGRES_SSLMODE'' (p_SSLMODE (c_Postgres c)))
           @ append_if (r_PASSWORD (c_Redis c) = []) (BadRule ''REDIS_PASSWORD'')
         else []))"

section \<open>Loading\<close>

datatype load_error = DotEnvError string | InvalidConfig config_error

text \<open>What \<open>godotenv.Load\<close> did: the environment with its variables added, no file, another error.\<close>

datatype dotenv_outcome = DotLoaded environment | DotNotExist | DotFailed string

definition loadDotEnv :: "(environment \<Rightarrow> dotenv_outcome) \<Rightarrow> environment \<Rightarrow> (load_error, environment) result" where
  "loadDotEnv godotenv os =
     (case godotenv os of
        DotLoaded os' \<Rightarrow> Inr os' | DotNotExist \<Rightarrow> Inr os | DotFailed m \<Rightarrow> Inl (DotEnvError m))"

definition loadPostgresConfig :: "(int \<Rightarrow> int \<Rightarrow> nat \<Rightarrow> int) \<Rightarrow> environment \<Rightarrow> PostgresConfig" where
  "loadPostgresConfig fp os =
     \<lparr>p_HOST = getEnv os ''POSTGRES_HOST'' ''localhost'',
      p_PORT = getEnv os ''POSTGRES_PORT'' ''5432'',
      p_DBNAME = getEnv os ''POSTGRES_DB'' [],
      p_USER = getEnv os ''POSTGRES_USER'' [],
      p_PASSWORD = getEnv os ''POSTGRES_PASSWORD'' [],
      p_SSLMODE = getEnv os ''POSTGRES_SSLMODE'' SSLModeRequire,
      p_MaxConns = getEnvAsInt os ''POSTGRES_MAX_CONNS'' 10,
      p_MaxIdleConns = getEnvAsInt os ''POSTGRES_MAX_IDLE_CONNS'' 5,
      p_ConnMaxLifetime = getEnvAsDuration fp os ''POSTGRES_CONN_MAX_LIFETIME'' (30 * Minute),
      p_ConnMaxIdleTime = getEnvAsDuration fp os ''POSTGRES_CONN_MAX_IDLE_TIME'' (5 * Minute)\<rparr>"

definition loadConfig :: "(int \<Rightarrow> int \<Rightarrow> nat \<Rightarrow> int) \<Rightarrow> environment \<Rightarrow> Config" where
  "loadConfig fp os =
     \<lparr>c_Environment = getEnv os ''ENVIRONMENT'' EnvironmentDevelopment,
      c_LogLevel = getEnv os ''LOG_LEVEL'' ''info'',
      c_HTTP = \<lparr>h_Port = getEnv os ''HTTP_PORT'' ''8080'',
        h_ReadHeaderTimeout = getEnvAsDuration fp os ''HTTP_READ_HEADER_TIMEOUT'' (5 * Second),
        h_ReadTimeout = getEnvAsDuration fp os ''HTTP_READ_TIMEOUT'' (10 * Second),
        h_WriteTimeout = getEnvAsDuration fp os ''HTTP_WRITE_TIMEOUT'' (15 * Second),
        h_IdleTimeout = getEnvAsDuration fp os ''HTTP_IDLE_TIMEOUT'' (60 * Second),
        h_ShutdownTimeout = getEnvAsDuration fp os ''HTTP_SHUTDOWN_TIMEOUT'' (10 * Second)\<rparr>,
      c_Postgres = loadPostgresConfig fp os,
      c_Redis = \<lparr>r_HOST = getEnv os ''REDIS_HOST'' ''localhost'',
        r_PORT = getEnv os ''REDIS_PORT'' ''6379'',
        r_USER = getEnv os ''REDIS_USER'' [],
        r_PASSWORD = getEnv os ''REDIS_PASSWORD'' [],
        r_DB = getEnvAsInt os ''REDIS_DB'' 0,
        r_RateLimitMin = 0, r_RateLimitHour = 0, r_RateLimitDay = 0\<rparr>,
      c_JWT = \<lparr>j_AccessSecret = getEnv os ''ACCESS_TOKEN_SECRET'' [],
        j_RefreshSecret = getEnv os ''REFRESH_TOKEN_SECRET'' [],
        j_AccessTTL = getEnvAsDuration fp os ''ACCESS_TOKEN_TTL'' (15 * Minute),
        j_RefreshTTL = getEnvAsDuration fp os ''REFRESH_TOKEN_TTL'' (720 * Hour),
        j_Issuer = getEnv os ''ISSUER'' ''my-app''\<rparr>,
      c_Ratelimit = \<lparr>l_PerMinute = getEnvAsInt os ''RATE_LIMIT_PER_MINUTE'' 60,
        l_PerHour = getEnvAsInt os ''RATE_LIMIT_PER_HOUR'' 1000,
        l_PerDay = getEnvAsInt os ''RATE_LIMIT_PER_DAY'' 10000\<rparr>\<rparr>"

definition Load ::
  "(int \<Rightarrow> int \<Rightarrow> nat \<Rightarrow> int) \<Rightarrow> (environment \<Rightarrow> dotenv_outcome) \<Rightarrow> environment \<Rightarrow> (load_error, Config) result" where
  "Load fp godotenv os =
     (case loadDotEnv godotenv os of
        Inl err \<Rightarrow> Inl err
      | Inr os' \<Rightarrow>
          (let cfg = loadConfig fp os' in
           case Config_Validate cfg of Some err \<Rightarrow> Inl (InvalidConfig err) | None \<Rightarrow> Inr cfg))"

definition LoadPostgres ::
  "(int \<Rightarrow> int \<Rightarrow> nat \<Rightarrow> int) \<Rightarrow> (environment \<Rightarrow> dotenv_outcome) \<Rightarrow> environment
     \<Rightarrow> (load_error, PostgresConfig) result" where
  "LoadPostgres fp godotenv os =
     (case loadDotEnv godotenv os of
        Inl err \<Rightarrow> Inl err
      | Inr os' \<Rightarrow>
          (let cfg = loadPostgresConfig fp os' in
           case Postgres_Validate cfg of Some err \<Rightarrow> Inl (InvalidConfig err) | None \<Rightarrow> Inr cfg))"

section \<open>What the configuration becomes\<close>

text \<open>\<open>NewManager\<close> of \<open>jwt.go\<close>.\<close>

definition NewManager :: "JWTConfig \<Rightarrow> manager" where
  "NewManager cfg = \<lparr>m_accessSecret = j_AccessSecret cfg, m_refreshSecret = j_RefreshSecret cfg,
     m_accessTTL = j_AccessTTL cfg, m_refreshTTL = j_RefreshTTL cfg, m_issuer = j_Issuer cfg\<rparr>"

text \<open>\<open>net.JoinHostPort\<close>: a host with a colon is an IPv6 address.\<close>

definition JoinHostPort :: "string \<Rightarrow> string \<Rightarrow> string" where
  "JoinHostPort host port =
     (if CHR '':'' \<in> set host then CHR ''['' # host @ '']:'' @ port else host @ '':'' @ port)"

definition Redis_Addr :: "RedisConfig \<Rightarrow> string" where
  "Redis_Addr c = JoinHostPort (r_HOST c) (r_PORT c)"

end
