(* ===== verification/Postgres_Url.thy ===== *)
theory Postgres_Url
  imports Config
begin

text \<open>
  The connection string of \<open>config.go\<close> (\<open>PostgresDSN\<close>), with what \<open>net/url\<close> and \<open>net\<close> do to its
  parts: percent encoding by position, and the string of a URL. No reader of connection strings is
  modelled: what the driver makes of one is its own. The lemmas show that two strings differ when
  the settings do, by a left inverse of the encoding.
\<close>

section \<open>Percent encoding\<close>

datatype encoding = EncodePath | EncodeUserPassword | EncodeHost | EncodeQueryComponent

definition url_alnum :: "char \<Rightarrow> bool" where
  "url_alnum c \<longleftrightarrow> byte_in 0x61 0x7A c \<or> byte_in 0x41 0x5A c \<or> byte_in 0x30 0x39 c"

definition shouldEscape :: "char \<Rightarrow> encoding \<Rightarrow> bool" where
  "shouldEscape c mode =
     (if url_alnum c then False
      else if mode = EncodeHost \<and> c \<in> set ([CHR 0x22, CHR 0x27] @ ''!$&()*+,;=:[]<>'') then False
      else if c \<in> set ''-_.~'' then False
      else if c \<in> set ''$&+,/:;=?@'' then
        (case mode of
           EncodePath \<Rightarrow> c = CHR ''?''
         | EncodeUserPassword \<Rightarrow> c \<in> set ''@/?:''
         | EncodeQueryComponent \<Rightarrow> True
         | EncodeHost \<Rightarrow> True)
      else True)"

definition upperhex :: string where "upperhex = ''0123456789ABCDEF''"

fun url_escape :: "encoding \<Rightarrow> string \<Rightarrow> string" where
  "url_escape mode [] = []"
| "url_escape mode (c # s) =
     (if shouldEscape c mode then
        (if c = CHR '' '' \<and> mode = EncodeQueryComponent then [CHR ''+'']
         else [CHR ''%'', upperhex ! (of_char c div 16), upperhex ! (of_char c mod 16)])
      else [c]) @ url_escape mode s"

section \<open>The connection string\<close>

definition PostgresDSN :: "PostgresConfig \<Rightarrow> string" where
  "PostgresDSN c =
     ''postgres://''
     @ url_escape EncodeUserPassword (p_USER c) @ '':'' @ url_escape EncodeUserPassword (p_PASSWORD c) @ ''@''
     @ url_escape EncodeHost (JoinHostPort (p_HOST c) (p_PORT c))
     @ url_escape EncodePath (CHR ''/'' # p_DBNAME c)
     @ ''?'' @ url_escape EncodeQueryComponent ''sslmode'' @ ''=''
     @ url_escape EncodeQueryComponent (p_SSLMODE c)"

section \<open>A left inverse\<close>

text \<open>
  These definitions belong to the proof. They stand for no code: \<open>net/url\<close> and the driver refuse
  some of these strings and read others differently.
\<close>

fun unhex :: "char \<Rightarrow> nat option" where
  "unhex c = find (\<lambda>i. upperhex ! i = c) [0..<16]"

fun url_unescape :: "encoding \<Rightarrow> string \<Rightarrow> string option" where
  "url_unescape mode [] = Some []"
| "url_unescape mode (c # s) =
     (if c = CHR ''%'' then
        (case s of
           a # b # s' \<Rightarrow>
             (case (unhex a, unhex b) of
                (Some x, Some y) \<Rightarrow> map_option (Cons (char_of (16 * x + y))) (url_unescape mode s')
              | _ \<Rightarrow> None)
         | _ \<Rightarrow> None)
      else if c = CHR ''+'' \<and> mode = EncodeQueryComponent then map_option (Cons (CHR '' '')) (url_unescape mode s)
      else map_option (Cons c) (url_unescape mode s))"

text \<open>The text before the first \<open>c\<close> and the text after it.\<close>

definition cut_at :: "char \<Rightarrow> string \<Rightarrow> string \<times> string" where
  "cut_at c s = (takeWhile (\<lambda>x. x \<noteq> c) s, drop 1 (dropWhile (\<lambda>x. x \<noteq> c) s))"

text \<open>User, password, host with port, database and the parameter \<open>sslmode\<close>.\<close>

definition dsn_parts :: "string \<Rightarrow> string option list" where
  "dsn_parts s =
     (case cut_at (CHR ''?'') (drop (length ''postgres://'') s) of (rest, query) \<Rightarrow>
     (case cut_at (CHR ''/'') rest of (authority, path) \<Rightarrow>
     (case cut_at (CHR ''@'') authority of (userinfo, hostport) \<Rightarrow>
     (case cut_at (CHR '':'') userinfo of (user, password) \<Rightarrow>
        [url_unescape EncodeUserPassword user, url_unescape EncodeUserPassword password,
         url_unescape EncodeHost hostport, url_unescape EncodePath path,
         url_unescape EncodeQueryComponent (snd (cut_at (CHR ''='') query))]))))"

section \<open>Decoding inverts encoding\<close>

lemma upperhex_facts:
  assumes "n < 16"
  shows "unhex (upperhex ! n) = Some n" "url_alnum (upperhex ! n)"
proof -
  have "\<forall>n\<in>set [0..<16]. unhex (upperhex ! n) = Some n \<and> url_alnum (upperhex ! n)" by code_simp
  with assms show "unhex (upperhex ! n) = Some n" "url_alnum (upperhex ! n)" by simp_all
qed

lemma not_url_alnum [simp]:
  "\<not> url_alnum (CHR ''%'')" "\<not> url_alnum (CHR ''+'')" "\<not> url_alnum (CHR ''@'')" "\<not> url_alnum (CHR ''/'')"
  "\<not> url_alnum (CHR '':'')" "\<not> url_alnum (CHR ''?'')" "\<not> url_alnum (CHR '' '')"
  by code_simp+

lemma byte_halves: "of_char (c::char) div 16 < (16::nat)" "of_char c mod 16 < (16::nat)"
  "char_of (16 * (of_char c div 16) + of_char c mod 16 :: nat) = c"
  using nat_of_char_less_256 [of c] by (simp_all add: less_mult_imp_div_less)

lemma escapes_itself [simp]: "shouldEscape (CHR ''%'') mode"
  by (simp add: shouldEscape_def)

lemma unescape_escape: "url_unescape mode (url_escape mode s) = Some s"
proof (induction s)
  case (Cons c s)
  show ?case
  proof (cases "shouldEscape c mode")
    case True
    with Cons show ?thesis
      by (cases mode) (auto simp: upperhex_facts byte_halves simp del: unhex.simps)
  next
    case False
    then have "c \<noteq> CHR ''%''" "\<not> (c = CHR ''+'' \<and> mode = EncodeQueryComponent)"
      by (auto simp: shouldEscape_def)
    with False Cons show ?thesis by auto
  qed
qed simp

text \<open>A delimiter that is escaped does not appear in the encoded text.\<close>

lemma escaped_absent:
  assumes "shouldEscape d mode" "\<not> url_alnum d" "d \<notin> {CHR ''%'', CHR ''+''}"
  shows "d \<notin> set (url_escape mode s)"
proof (induction s)
  case (Cons c s)
  have "d \<noteq> upperhex ! n" if "n < 16" for n using upperhex_facts(2) [OF that] assms(2) by auto
  with assms Cons byte_halves [of c] show ?case by auto
qed simp

lemma cut_absent [simp]: "c \<notin> set s \<Longrightarrow> cut_at c (s @ c # t) = (s, t)"
  by (induction s) (auto simp: cut_at_def)

lemma delimiters_absent [simp]:
  "CHR '':'' \<notin> set (url_escape EncodeUserPassword s)" "CHR ''@'' \<notin> set (url_escape EncodeUserPassword s)"
  "CHR ''/'' \<notin> set (url_escape EncodeUserPassword s)" "CHR ''?'' \<notin> set (url_escape EncodeUserPassword s)"
  "CHR ''/'' \<notin> set (url_escape EncodeHost s)" "CHR ''?'' \<notin> set (url_escape EncodeHost s)"
  "CHR ''?'' \<notin> set (url_escape EncodePath s)"
  by (rule escaped_absent; simp add: shouldEscape_def)+

text \<open>Cutting at the delimiters and decoding gives the parts back: none runs into another.\<close>

lemma dsn_parts_PostgresDSN:
  "dsn_parts (PostgresDSN c) =
     map Some [p_USER c, p_PASSWORD c, JoinHostPort (p_HOST c) (p_PORT c), p_DBNAME c, p_SSLMODE c]"
proof -
  let ?user = "url_escape EncodeUserPassword (p_USER c)"
  let ?password = "url_escape EncodeUserPassword (p_PASSWORD c)"
  let ?host = "url_escape EncodeHost (JoinHostPort (p_HOST c) (p_PORT c))"
  let ?path = "url_escape EncodePath (p_DBNAME c)"
  let ?query = "''sslmode='' @ url_escape EncodeQueryComponent (p_SSLMODE c)"
  have slash: "url_escape EncodePath (CHR ''/'' # s) = CHR ''/'' # url_escape EncodePath s" for s
    by (simp add: shouldEscape_def)
  have name: "url_escape EncodeQueryComponent ''sslmode'' = ''sslmode''" by code_simp
  have "drop (length ''postgres://'') (PostgresDSN c)
      = ((?user @ CHR '':'' # ?password) @ CHR ''@'' # ?host) @ CHR ''/'' # ?path @ CHR ''?'' # ?query"
    unfolding PostgresDSN_def slash name by (simp only: append_assoc append.simps list.size drop_append drop_Cons') simp
  moreover have "cut_at (CHR ''?'') (((?user @ CHR '':'' # ?password) @ CHR ''@'' # ?host) @ CHR ''/'' # ?path @ CHR ''?'' # ?query)
      = (((?user @ CHR '':'' # ?password) @ CHR ''@'' # ?host) @ CHR ''/'' # ?path, ?query)"
    using cut_absent [of "CHR ''?''" "((?user @ CHR '':'' # ?password) @ CHR ''@'' # ?host) @ CHR ''/'' # ?path" ?query]
    by simp
  moreover have "cut_at (CHR ''/'') (((?user @ CHR '':'' # ?password) @ CHR ''@'' # ?host) @ CHR ''/'' # ?path)
      = ((?user @ CHR '':'' # ?password) @ CHR ''@'' # ?host, ?path)"
    by (rule cut_absent) simp
  moreover have "cut_at (CHR ''@'') ((?user @ CHR '':'' # ?password) @ CHR ''@'' # ?host)
      = (?user @ CHR '':'' # ?password, ?host)"
    by (rule cut_absent) simp
  moreover have "cut_at (CHR ''='') ?query = (''sslmode'', url_escape EncodeQueryComponent (p_SSLMODE c))"
    using cut_absent [of "CHR ''=''" "''sslmode''"] by simp
  ultimately show ?thesis
    unfolding dsn_parts_def by (simp only: prod.case cut_absent delimiters_absent unescape_escape snd_conv not_False_eq_True list.map)
qed

text \<open>The last colon of \<open>host:port\<close> ends the host, whose brackets show whether it has colons itself.\<close>

lemma append_colon_eq:
  assumes "CHR '':'' \<notin> set p" "CHR '':'' \<notin> set p'" "h @ CHR '':'' # p = h' @ CHR '':'' # p'"
  shows "h = h' \<and> p = p'"
  using assms
proof (induction h arbitrary: h')
  case Nil
  then show ?case by (cases h') auto
next
  case (Cons x h)
  then show ?case by (cases h') auto
qed

lemma JoinHostPort_inject:
  assumes "CHR '':'' \<notin> set p" "CHR '':'' \<notin> set p'"
  shows "JoinHostPort h p = JoinHostPort h' p' \<longleftrightarrow> h = h' \<and> p = p'"
proof
  let ?b = "\<lambda>h. if CHR '':'' \<in> set h then CHR ''['' # h @ '']'' else h"
  have split: "JoinHostPort h p = ?b h @ CHR '':'' # p" for h p by (simp add: JoinHostPort_def)
  assume "JoinHostPort h p = JoinHostPort h' p'"
  with append_colon_eq [OF assms] have "?b h = ?b h'" "p = p'" unfolding split by blast+
  then show "h = h' \<and> p = p'" by (auto split: if_splits)
qed simp

section \<open>Property\<close>

text \<open>
  C15: the connection string determines the settings: two configurations whose ports hold no colon
  have the same one exactly when user, password, host, port, database and SSL mode agree, whatever
  characters these hold. So no character of a password, a name or a host can make the string
  that of another user, host, database or SSL mode.
\<close>
theorem dsn_determines_settings:
  assumes "CHR '':'' \<notin> set (p_PORT c)" "CHR '':'' \<notin> set (p_PORT c')"
  shows "PostgresDSN c = PostgresDSN c' \<longleftrightarrow>
     p_USER c = p_USER c' \<and> p_PASSWORD c = p_PASSWORD c' \<and> p_HOST c = p_HOST c' \<and> p_PORT c = p_PORT c'
     \<and> p_DBNAME c = p_DBNAME c' \<and> p_SSLMODE c = p_SSLMODE c'"
proof
  assume "PostgresDSN c = PostgresDSN c'"
  with dsn_parts_PostgresDSN [of c] dsn_parts_PostgresDSN [of c'] have
    "p_USER c = p_USER c'" "p_PASSWORD c = p_PASSWORD c'" "p_DBNAME c = p_DBNAME c'" "p_SSLMODE c = p_SSLMODE c'"
    "JoinHostPort (p_HOST c) (p_PORT c) = JoinHostPort (p_HOST c') (p_PORT c')" by simp_all
  then show "p_USER c = p_USER c' \<and> p_PASSWORD c = p_PASSWORD c' \<and> p_HOST c = p_HOST c' \<and> p_PORT c = p_PORT c'
     \<and> p_DBNAME c = p_DBNAME c' \<and> p_SSLMODE c = p_SSLMODE c'"
    using JoinHostPort_inject [OF assms] by simp
qed (simp add: PostgresDSN_def)

text \<open>A password with every delimiter, and a user and host that try to look like it.\<close>

definition dsn_sample :: "string \<Rightarrow> string \<Rightarrow> string \<Rightarrow> PostgresConfig" where
  "dsn_sample user password host =
     \<lparr>p_HOST = host, p_PORT = ''5432'', p_DBNAME = ''pay'', p_USER = user, p_PASSWORD = password, p_SSLMODE = ''disable'',
      p_MaxConns = 10, p_MaxIdleConns = 5, p_ConnMaxLifetime = 1, p_ConnMaxIdleTime = 1\<rparr>"

theorem dsn_determines_settings_witness:
  "PostgresDSN (dsn_sample ''admin'' ''x@evil:1/db?'' ''db'') \<noteq> PostgresDSN (dsn_sample ''admin'' ''x'' ''evil'')"
  using dsn_determines_settings [of "dsn_sample ''admin'' ''x@evil:1/db?'' ''db''" "dsn_sample ''admin'' ''x'' ''evil''"]
  by (simp add: dsn_sample_def)

end
