(* ===== verification/Startup.thy ===== *)
theory Startup
  imports Http_Server Postgres_Url
begin

text \<open>
  Package \<open>internal/pkg/app\<close> (\<open>app.go\<close>): the process from its environment to its end. The
  configuration is loaded, the stores are opened and pinged, the services are wired, the server
  answers requests until it fails or a signal stops it. \<open>NewLogger\<close> never fails and is left out. What the operating system does (opening
  the pool, listening, shutting down) is the parameter \<open>system\<close>; the requests are those that
  arrive, in the order in which they are served. Log lines and the closing of the stores are
  left out too.
\<close>

text \<open>The limits \<open>NewRedis\<close> of \<open>redis.go\<close> keeps of its options.\<close>

definition NewRedis :: "RateLimitConfig \<Rightarrow> redis_limits" where
  "NewRedis c = \<lparr>rateLimitMin = l_PerMinute c, rateLimitHour = l_PerHour c, rateLimitDay = l_PerDay c\<rparr>"

definition wire :: "Config \<Rightarrow> app" where
  "wire cfg = \<lparr>ap_limits = NewRedis (c_Ratelimit cfg), ap_manager = NewManager (c_JWT cfg)\<rparr>"

definition ping_postgres :: "env \<Rightarrow> nat \<Rightarrow> error option" where
  "ping_postgres env n = e_fault env n"

definition ping_redis :: "env \<Rightarrow> nat \<Rightarrow> error option" where
  "ping_redis env n = map_option Plain (e_redis_fault env n)"

record system =
  sy_open :: "string \<Rightarrow> error option"   \<comment> \<open>\<open>sql.Open\<close> with a connection string\<close>
  sy_serve :: "error option"      \<comment> \<open>how \<open>ListenAndServe\<close> failed, if it ended before a signal\<close>
  sy_shutdown :: "error option"

datatype run_error = LoadFailed load_error | RunFailed string error

text \<open>The error the process ends with, if any, the requests with their replies, and the state.\<close>

definition run_server ::
  "env \<Rightarrow> system \<Rightarrow> Config \<Rightarrow> http_request list \<Rightarrow> world
     \<Rightarrow> (run_error option \<times> (http_request \<times> response) list) \<times> world" where
  "run_server env sys cfg rs w =
     (case sy_open sys (PostgresDSN (c_Postgres cfg)) of
        Some err \<Rightarrow> ((Some (RunFailed ''open postgres'' err), []), w)
      | None \<Rightarrow>
     (case ping_postgres env (w_tick w) of
        Some err \<Rightarrow> ((Some (RunFailed ''ping postgres'' err), []), tick w)
      | None \<Rightarrow>
     (case ping_redis env (w_tick (tick w)) of
        Some err \<Rightarrow> ((Some (RunFailed ''ping redis'' err), []), tick (tick w))
      | None \<Rightarrow>
     (case serve_all (serve_http env (wire cfg) [ping_postgres env, ping_redis env]) rs (tick (tick w)) of
        (replies, w1) \<Rightarrow>
          (case sy_serve sys of
             Some err \<Rightarrow> ((Some (RunFailed ''http server'' err), replies), w1)
           | None \<Rightarrow>
               (case sy_shutdown sys of
                  Some err \<Rightarrow> ((Some (RunFailed ''http shutdown'' err), replies), w1)
                | None \<Rightarrow> ((None, replies), w1)))))))"

definition Run ::
  "(int \<Rightarrow> int \<Rightarrow> nat \<Rightarrow> int) \<Rightarrow> (environment \<Rightarrow> dotenv_outcome) \<Rightarrow> environment \<Rightarrow> env \<Rightarrow> system
     \<Rightarrow> http_request list \<Rightarrow> world \<Rightarrow> (run_error option \<times> (http_request \<times> response) list) \<times> world" where
  "Run fp godotenv os env sys rs w =
     (case Load fp godotenv os of
        Inl err \<Rightarrow> ((Some (LoadFailed err), []), w)
      | Inr cfg \<Rightarrow> run_server env sys cfg rs w)"

end
