(* ===== verification/Config_Props.thy ===== *)
theory Config_Props
  imports Startup Jwt_Props
begin

text \<open>
  What a configuration that was accepted guarantees to the server wired from it, and what it
  does not.
\<close>

section \<open>Validation\<close>

lemma errors_Join_None: "errors_Join errs = None \<longleftrightarrow> (\<forall>e\<in>set errs. e = None)"
  by (auto simp: errors_Join_def Let_def map_filter_def filter_empty_conv)

lemma append_if_None: "(\<forall>e\<in>set (append_if c e1). e = None) \<longleftrightarrow> \<not> c"
  by (simp add: append_if_def)

lemma required_var_None: "required_var k v = None \<longleftrightarrow> TrimSpace v \<noteq> []"
  by (simp add: required_var_def)

lemma oneOf_iff: "oneOf v vs \<longleftrightarrow> v \<in> set vs"
  by (auto simp: oneOf_def list_ex_iff)

lemmas validation_simps = errors_Join_None append_if_None required_var_None oneOf_iff ball_Un

text \<open>The accepted settings of the database and of the whole server.\<close>

definition postgres_ok :: "PostgresConfig \<Rightarrow> bool" where
  "postgres_ok c \<longleftrightarrow>
     list_all (\<lambda>v. TrimSpace v \<noteq> []) [p_HOST c, p_PORT c, p_DBNAME c, p_USER c, p_PASSWORD c]
     \<and> p_SSLMODE c \<in> {SSLModeDisable, SSLModeAllow, SSLModePrefer, SSLModeRequire, SSLModeVerifyCA, SSLModeVerifyFull}
     \<and> 0 < p_MaxConns c \<and> 0 \<le> p_MaxIdleConns c \<and> p_MaxIdleConns c \<le> p_MaxConns c
     \<and> 0 < p_ConnMaxLifetime c \<and> 0 < p_ConnMaxIdleTime c"

definition limits_ok :: "RateLimitConfig \<Rightarrow> bool" where
  "limits_ok l \<longleftrightarrow> 0 < l_PerMinute l \<and> l_PerMinute l \<le> l_PerHour l \<and> l_PerHour l \<le> l_PerDay l"

definition tokens_config_ok :: "JWTConfig \<Rightarrow> bool" where
  "tokens_config_ok j \<longleftrightarrow> j_AccessSecret j \<noteq> [] \<and> j_RefreshSecret j \<noteq> []
     \<and> j_AccessSecret j \<noteq> j_RefreshSecret j \<and> j_AccessTTL j < j_RefreshTTL j"

definition config_ok :: "Config \<Rightarrow> bool" where
  "config_ok c \<longleftrightarrow>
     c_Environment c \<in> {EnvironmentDevelopment, EnvironmentStaging, EnvironmentProduction}
     \<and> c_LogLevel c \<in> {''debug'', ''info'', ''warn'', ''error''}
     \<and> postgres_ok (c_Postgres c) \<and> tokens_config_ok (c_JWT c) \<and> limits_ok (c_Ratelimit c)
     \<and> TrimSpace (r_HOST (c_Redis c)) \<noteq> [] \<and> TrimSpace (r_PORT (c_Redis c)) \<noteq> [] \<and> 0 \<le> r_DB (c_Redis c)
     \<and> list_all (\<lambda>t. 0 < t) [h_ReadHeaderTimeout (c_HTTP c), h_ReadTimeout (c_HTTP c), h_WriteTimeout (c_HTTP c),
         h_IdleTimeout (c_HTTP c), h_ShutdownTimeout (c_HTTP c)]
     \<and> (c_Environment c = EnvironmentProduction \<longrightarrow>
         p_SSLMODE (c_Postgres c) \<in> {SSLModeRequire, SSLModeVerifyCA, SSLModeVerifyFull} \<and> r_PASSWORD (c_Redis c) \<noteq> [])"

lemma Postgres_Validate_None: "Postgres_Validate c = None \<longleftrightarrow> postgres_ok c"
  unfolding Postgres_Validate_def postgres_ok_def by (auto simp: validation_simps)

lemma ssl_modes_differ:
  "SSLModeRequire \<noteq> SSLModeDisable" "SSLModeRequire \<noteq> SSLModeAllow" "SSLModeRequire \<noteq> SSLModePrefer"
  "SSLModeVerifyCA \<noteq> SSLModeDisable" "SSLModeVerifyCA \<noteq> SSLModeAllow" "SSLModeVerifyCA \<noteq> SSLModePrefer"
  "SSLModeVerifyFull \<noteq> SSLModeDisable" "SSLModeVerifyFull \<noteq> SSLModeAllow" "SSLModeVerifyFull \<noteq> SSLModePrefer"
  by (simp_all add: SSLModeRequire_def SSLModeDisable_def SSLModeAllow_def SSLModePrefer_def
    SSLModeVerifyCA_def SSLModeVerifyFull_def)

lemma secure_modes:
  "postgres_ok p \<Longrightarrow> p_SSLMODE p \<notin> {SSLModeDisable, SSLModeAllow, SSLModePrefer}
     \<longleftrightarrow> p_SSLMODE p \<in> {SSLModeRequire, SSLModeVerifyCA, SSLModeVerifyFull}"
  using ssl_modes_differ unfolding postgres_ok_def by auto

lemma Config_Validate_None: "Config_Validate c = None \<longleftrightarrow> config_ok c"
proof -
  have "Config_Validate c = None \<longleftrightarrow>
     oneOf (c_Environment c) [EnvironmentDevelopment, EnvironmentStaging, EnvironmentProduction]
     \<and> oneOf (c_LogLevel c) [''debug'', ''info'', ''warn'', ''error'']
     \<and> Postgres_Validate (c_Postgres c) = None
     \<and> TrimSpace (r_HOST (c_Redis c)) \<noteq> [] \<and> TrimSpace (r_PORT (c_Redis c)) \<noteq> [] \<and> 0 \<le> r_DB (c_Redis c)
     \<and> tokens_config_ok (c_JWT c)
     \<and> (0 < h_ReadHeaderTimeout (c_HTTP c) \<and> 0 < h_ReadTimeout (c_HTTP c) \<and> 0 < h_WriteTimeout (c_HTTP c)
        \<and> 0 < h_IdleTimeout (c_HTTP c) \<and> 0 < h_ShutdownTimeout (c_HTTP c))
     \<and> limits_ok (c_Ratelimit c)
     \<and> (c_Environment c = EnvironmentProduction \<longrightarrow>
         p_SSLMODE (c_Postgres c) \<notin> {SSLModeDisable, SSLModeAllow, SSLModePrefer} \<and> r_PASSWORD (c_Redis c) \<noteq> [])"
    unfolding Config_Validate_def tokens_config_ok_def limits_ok_def
    by (simp add: validation_simps del: oneOf_iff) (auto simp: append_if_def)
  also have "\<dots> \<longleftrightarrow> config_ok c"
    unfolding config_ok_def Postgres_Validate_None oneOf_iff
    using secure_modes [of "c_Postgres c"] by (simp del: insert_iff) blast
  finally show ?thesis .
qed

lemma Load_Inr:
  "Load fp godotenv os = Inr cfg \<longleftrightarrow>
     (\<exists>os'. loadDotEnv godotenv os = Inr os' \<and> cfg = loadConfig fp os' \<and> config_ok cfg)"
  by (auto simp: Load_def Let_def Config_Validate_None [symmetric] split: sum.split option.split)

section \<open>Samples\<close>

text \<open>The variables of a small deployment; everything else is left to the defaults.\<close>

definition sample_vars :: environment where
  "sample_vars k = (case map_of
     [(''ENVIRONMENT'', ''production''), (''POSTGRES_DB'', ''processing''), (''POSTGRES_USER'', ''admin''),
      (''POSTGRES_PASSWORD'', '' secret ''), (''REDIS_PASSWORD'', ''pw''), (''ACCESS_TOKEN_SECRET'', ''a-secret''),
      (''REFRESH_TOKEN_SECRET'', ''r-secret''), (''REFRESH_TOKEN_TTL'', ''72h'')] k of
     Some v \<Rightarrow> v | None \<Rightarrow> [])"

definition no_dotenv :: "environment \<Rightarrow> dotenv_outcome" where
  "no_dotenv os = DotNotExist"

definition sound_system :: system where
  "sound_system = \<lparr>sy_open = (\<lambda>_. None), sy_serve = None, sy_shutdown = None\<rparr>"

definition no_floats :: "int \<Rightarrow> int \<Rightarrow> nat \<Rightarrow> int" where
  "no_floats f u k = 0"

lemma sample_vars_valid: "Config_Validate (loadConfig no_floats sample_vars) = None"
  by code_simp

lemma sample_load: "Load no_floats no_dotenv sample_vars = Inr (loadConfig no_floats sample_vars)"
  using sample_vars_valid by (simp add: Load_def loadDotEnv_def no_dotenv_def Let_def)

section \<open>Properties\<close>

text \<open>
  C14: what an accepted configuration gives the server wired from it: signing secrets that are
  set and differ, an access token that never outlives the refresh token of its pair, a rate
  limiter that lets the first call of everybody pass, a pool of at least one connection, and in
  production an encrypted connection to PostgreSQL and a password for Redis.
\<close>
theorem load_protects:
  assumes "Load fp godotenv os = Inr cfg" "\<And>n. e_redis_fault env n = None" "\<And>k. w_redis w k = None"
  shows "m_accessSecret (ap_manager (wire cfg)) \<noteq> m_refreshSecret (ap_manager (wire cfg))
    \<and> m_accessSecret (ap_manager (wire cfg)) \<noteq> [] \<and> m_refreshSecret (ap_manager (wire cfg)) \<noteq> []
    \<and> jc_ExpiresAt (access_claims (ap_manager (wire cfg)) user role now)
        \<le> jc_ExpiresAt (refresh_claims (ap_manager (wire cfg)) user jti now)
    \<and> fst (CheckRateLimit env (ap_limits (wire cfg)) ident w) = Inr ()
    \<and> 0 < p_MaxConns (c_Postgres cfg)
    \<and> (c_Environment cfg = EnvironmentProduction \<longrightarrow>
        p_SSLMODE (c_Postgres cfg) \<in> {SSLModeRequire, SSLModeVerifyCA, SSLModeVerifyFull}
        \<and> r_PASSWORD (c_Redis cfg) \<noteq> [])"
proof -
  from assms(1) have ok: "config_ok cfg" by (auto simp: Load_Inr)
  let ?j = "c_JWT cfg"
  have m: "ap_manager (wire cfg) = NewManager ?j" "ap_limits (wire cfg) = NewRedis (c_Ratelimit cfg)"
    by (simp_all add: wire_def)
  have j: "tokens_config_ok ?j" and l: "limits_ok (c_Ratelimit cfg)" using ok by (simp_all add: config_ok_def)
  have "fst (CheckRateLimit env (NewRedis (c_Ratelimit cfg)) ident w) = Inr ()"
    using l assms(2,3) by (intro CheckRateLimit_fresh) (auto simp: NewRedis_def limits_ok_def)
  moreover have "(now + j_AccessTTL ?j) div 1000000000 \<le> (now + j_RefreshTTL ?j) div 1000000000"
    using j by (intro zdiv_mono1) (simp_all add: tokens_config_ok_def)
  ultimately show ?thesis
    using ok j unfolding m
    by (simp add: NewManager_def access_claims_def refresh_claims_def NewNumericDate_def tokens_config_ok_def
        config_ok_def postgres_ok_def del: insert_iff)
qed

theorem load_protects_witness:
  "fst (CheckRateLimit sample_env (ap_limits (wire (loadConfig no_floats sample_vars))) ''10.0.0.1'' (sample_world sample_db)) = Inr ()
   \<and> r_PASSWORD (c_Redis (loadConfig no_floats sample_vars)) \<noteq> []"
proof -
  have "c_Environment (loadConfig no_floats sample_vars) = EnvironmentProduction" by code_simp
  moreover have "e_redis_fault sample_env n = None" for n by (simp add: sample_env_def)
  moreover have "w_redis (sample_world sample_db) k = None" for k by (simp add: sample_world_def)
  ultimately show ?thesis
    using load_protects [OF sample_load, of sample_env "sample_world sample_db" "''10.0.0.1''"]
    by blast
qed

text \<open>
  C38: a malformed \<open>ACCESS_TOKEN_TTL\<close> (a number without its unit, say) is not refused: it reads as
  \<open>-1\<close> nanoseconds, which the validation accepts whenever the rest is valid, and every access
  token of the server that starts is past its expiry when it is issued.
\<close>
theorem malformed_access_ttl_accepted:
  assumes "Load fp godotenv os = Inr cfg" "loadDotEnv godotenv os = Inr os'" "0 \<le> j_RefreshTTL (c_JWT cfg)"
    "loadDotEnv godotenv (os(''ACCESS_TOKEN_TTL'' := s)) = Inr (os'(''ACCESS_TOKEN_TTL'' := s))"
    "TrimSpace s \<noteq> []" "ParseDuration fp (TrimSpace s) = None"
  shows "\<exists>cfg'. Load fp godotenv (os(''ACCESS_TOKEN_TTL'' := s)) = Inr cfg'
    \<and> j_AccessTTL (c_JWT cfg') = - 1
    \<and> 1000000000 * jc_ExpiresAt (access_claims (ap_manager (wire cfg')) user role now) \<le> now"
proof -
  have cfg: "cfg = loadConfig fp os'" "config_ok cfg" using assms(1,2) by (auto simp: Load_Inr)
  let ?cfg' = "cfg\<lparr>c_JWT := (c_JWT cfg)\<lparr>j_AccessTTL := - 1\<rparr>\<rparr>"
  have "loadConfig fp (os'(''ACCESS_TOKEN_TTL'' := s)) = ?cfg'"
    using assms(5,6) by (simp add: cfg(1) loadConfig_def loadPostgresConfig_def getEnv_def getEnvAsInt_def getEnvAsDuration_def)
  moreover have "config_ok ?cfg'" using cfg(2) assms(3) by (simp add: config_ok_def tokens_config_ok_def)
  moreover have "1000000000 * ((now - 1) div 1000000000) \<le> now" by simp
  ultimately show ?thesis
    using assms(4) by (intro exI [of _ ?cfg'])
      (auto simp: Load_Inr access_claims_def NewNumericDate_def wire_def NewManager_def)
qed

theorem malformed_access_ttl_accepted_witness:
  "\<exists>cfg'. Load no_floats no_dotenv (sample_vars(''ACCESS_TOKEN_TTL'' := ''15'')) = Inr cfg'
    \<and> j_AccessTTL (c_JWT cfg') = - 1"
proof -
  have d: "loadDotEnv no_dotenv o1 = Inr o1" for o1 by (simp add: loadDotEnv_def no_dotenv_def)
  have "0 \<le> j_RefreshTTL (c_JWT (loadConfig no_floats sample_vars))" "TrimSpace ''15'' \<noteq> []"
    "ParseDuration no_floats (TrimSpace ''15'') = None" by code_simp+
  from malformed_access_ttl_accepted [OF sample_load d this(1) d this(2,3)] show ?thesis by blast
qed

end
