(* ===== verification/Startup_Props.thy ===== *)
theory Startup_Props
  imports Http_Props Http_Replies Config_Props
begin

text \<open>
  The process as a whole: whatever its environment, its system and the requests it is sent, from
  the load of the configuration to its end.
\<close>

lemma serve_all_replies:
  "map fst (fst (serve_all step qs s)) = qs"
  "(\<And>q s. P (fst (step q s))) \<Longrightarrow> list_all (\<lambda>(q, r). P r) (fst (serve_all step qs s))"
proof (induction qs arbitrary: s)
  case (Cons q qs)
  {
    case 1
    with Cons.IH(1) [of "snd (step q s)"] show ?case by (auto split: prod.split)
  next
    case 2
    with Cons.IH(2) [of "snd (step q s)"] show ?case
      by (auto split: prod.split) (metis fst_conv)
  }
qed simp_all

lemma serve_all_answers:
  assumes "serve_all (serve_http env app checks) rs w = (replies, w')"
  shows "map fst replies = rs" "list_all (\<lambda>(r, rp). well_formed rp) replies"
  using serve_all_replies(1) [of "serve_http env app checks" rs w]
    serve_all_replies(2) [of well_formed "serve_http env app checks" rs w] serve_http_well_formed assms by simp_all

text \<open>The stores answer a start: the pool opens, PostgreSQL and then Redis answer their ping.\<close>

definition stores_answer :: "env \<Rightarrow> system \<Rightarrow> Config \<Rightarrow> world \<Rightarrow> bool" where
  "stores_answer env sys cfg w \<longleftrightarrow>
     sy_open sys (PostgresDSN (c_Postgres cfg)) = None
     \<and> e_fault env (w_tick w) = None \<and> e_redis_fault env (Suc (w_tick w)) = None"

text \<open>How a run goes: refused by the configuration, stopped before the first request, or served.\<close>

lemma Run_cases:
  assumes "Run fp godotenv os env sys rs w = ((err, replies), w')"
  obtains (not_loaded) e where "Load fp godotenv os = Inl e" "err = Some (LoadFailed e)" "replies = []" "w' = w"
  | (not_started) cfg where "Load fp godotenv os = Inr cfg" "err \<noteq> None" "replies = []"
      "same_stores w w'"
  | (served) cfg checks w1 where "Load fp godotenv os = Inr cfg" "stores_answer env sys cfg w" "same_stores w w1"
      "serve_all (serve_http env (wire cfg) checks) rs w1 = (replies, w')"
      "err = None \<longleftrightarrow> sy_serve sys = None \<and> sy_shutdown sys = None"
proof (cases "Load fp godotenv os")
  case (Inl e)
  with assms show ?thesis by (intro not_loaded) (auto simp: Run_def)
next
  case (Inr cfg)
  let ?checks = "[ping_postgres env, ping_redis env]"
  have st: "same_stores w (tick w)" "same_stores w (tick (tick w))" "same_stores w w" by (simp_all add: same_stores_def)
  obtain rps w2 where sv: "serve_all (serve_http env (wire cfg) ?checks) rs (tick (tick w)) = (rps, w2)" by force
  show ?thesis
  proof (cases "sy_open sys (PostgresDSN (c_Postgres cfg)) = None \<and> ping_postgres env (w_tick w) = None \<and> ping_redis env (w_tick (tick w)) = None")
    case True
    with assms Inr sv st(2) show ?thesis
      by (intro served [of cfg "tick (tick w)" ?checks])
        (auto simp: Run_def run_server_def stores_answer_def ping_postgres_def ping_redis_def split: option.splits)
  next
    case False
    with assms Inr st show ?thesis
      by (auto simp: Run_def run_server_def split: option.splits intro!: not_started)
  qed
qed

text \<open>
  C12: the process from its environment to its end. Either the configuration was accepted, the
  pool opened with its connection string and both stores answered the ping of the start, and then
  every request is answered, in order and well formed, and the process ends with an error exactly
  if listening or shutting down fails; or it ends with an error, no request is answered and
  every store is left alone. However it ends, the integrity of the tables, the sum of the balances
  and the opening balance of every account are those it began with.
\<close>
theorem process_lifecycle:
  assumes "Run fp godotenv os env sys rs w = ((err, replies), w')" "db_inv (w_db w)"
  shows "((\<exists>cfg. Load fp godotenv os = Inr cfg
          \<and> sy_open sys (PostgresDSN (c_Postgres cfg)) = None
          \<and> e_fault env (w_tick w) = None \<and> e_redis_fault env (Suc (w_tick w)) = None
          \<and> map fst replies = rs \<and> (err = None \<longleftrightarrow> sy_serve sys = None \<and> sy_shutdown sys = None))
       \<or> replies = [] \<and> err \<noteq> None \<and> same_stores w w')
    \<and> list_all (\<lambda>(r, rp). well_formed rp) replies
    \<and> db_inv (w_db w') \<and> total_balance (w_db w') = total_balance (w_db w)
    \<and> (opening_balance (w_db w) i = Some x \<longrightarrow> opening_balance (w_db w') i = Some x)"
  using assms(1)
proof (cases rule: Run_cases)
  case not_loaded
  with assms(2) show ?thesis by (simp add: same_stores_def)
next
  case not_started
  with assms(2) show ?thesis by (simp add: same_stores_def)
next
  case (served cfg checks w1)
  let ?step = "serve_http env (wire cfg) checks"
  have w1: "w_db w1 = w_db w" using served(3) by (simp add: same_stores_def)
  have "books_kept i x (w_db w1) (w_db (snd (serve_all ?step rs w1)))"
    using assms(2) w1 by (intro served.kept_by_all) simp
  moreover note serve_all_answers [OF served(4)]
  ultimately show ?thesis using served(1,2,4,5) w1 by (simp add: books_kept_def stores_answer_def)
qed

theorem process_lifecycle_witness:
  "\<exists>err replies w'. Run no_floats no_dotenv sample_vars web_env sound_system [pay_request ''ALICE'']
      (sample_world sample_db) = ((err, replies), w')
    \<and> length replies = 1 \<and> total_balance (w_db w') = 105"
proof -
  obtain err replies w' where r: "Run no_floats no_dotenv sample_vars web_env sound_system [pay_request ''ALICE'']
      (sample_world sample_db) = ((err, replies), w')" by (metis prod.exhaust)
  have "db_inv (w_db (sample_world sample_db))" by (simp add: sample_inv)
  note p = process_lifecycle [OF r this]
  have "err = None"
    using r by (simp add: Run_def sample_load run_server_def sound_system_def ping_postgres_def ping_redis_def
        web_env_def sample_env_def del: serve_all.simps split: prod.splits)
  with p have "map fst replies = [pay_request ''ALICE'']" "total_balance (w_db w') = 105"
    by (auto simp: sample_balances)
  then have "length replies = 1" by (metis length_map One_nat_def length_Cons list.size(3))
  with r \<open>total_balance (w_db w') = 105\<close> show ?thesis by blast
qed

end
