(* ===== verification/Seed.thy ===== *)
theory Seed
  imports Config_Props Auth_Frame
begin

text \<open>
  The command \<open>cmd/seed\<close> (\<open>main.go\<close>): two demo accounts, inserted in one transaction and only in
  a development environment. The ids are the values of their texts; \<open>system\<close> says whether the
  pool opens, the ping and the statements are calls of the environment.
\<close>

definition demoPassword :: string where "demoPassword = ''DemoPass123!''"

record demo_account =
  da_id :: uuid
  da_name :: string
  da_email :: string
  da_balance :: rat

definition demoAccounts :: "demo_account list" where
  "demoAccounts =
     [\<lparr>da_id = 0x11111111111111111111111111111111, da_name = ''Demo Sender'',
       da_email = ''sender@example.test'', da_balance = 1000\<rparr>,
      \<lparr>da_id = 0x22222222222222222222222222222222, da_name = ''Demo Receiver'',
       da_email = ''receiver@example.test'', da_balance = 1000\<rparr>]"

text \<open>\<open>INSERT ... ON CONFLICT DO NOTHING\<close>: a row that breaks a unique constraint is skipped.\<close>

definition seed_row :: "string \<Rightarrow> demo_account \<Rightarrow> account_row" where
  "seed_row hash a = \<lparr>ar_id = da_id a, ar_name = da_name a, ar_email = da_email a,
     ar_password_hash = hash, ar_role = RoleUser, ar_balance = da_balance a\<rparr>"

definition seed_conflict :: "env \<Rightarrow> demo_account \<Rightarrow> database \<Rightarrow> bool" where
  "seed_conflict env a d \<longleftrightarrow> (\<exists>r\<in>set (accounts d). ar_id r = da_id a \<or> ar_email r = da_email a
     \<or> e_pg_lower env (ar_email r) = e_pg_lower env (da_email a))"

definition seed_insert :: "env \<Rightarrow> string \<Rightarrow> demo_account \<Rightarrow> database \<Rightarrow> database" where
  "seed_insert env hash a d =
     (if seed_conflict env a d then d else d\<lparr>accounts := accounts d @ [seed_row hash a]\<rparr>)"

fun seed_accounts :: "env \<Rightarrow> string \<Rightarrow> demo_account list \<Rightarrow> ('z, unit) io" where
  "seed_accounts env hash [] = returnE ()"
| "seed_accounts env hash (a # as) =
     bindE (mapErr (Wrapped (''seed '' @ da_email a))
         (sql env (\<lambda>t. Inr ((), seed_insert env hash a (t_db t)))))
       (\<lambda>_. seed_accounts env hash as)"

definition seed_transaction :: "env \<Rightarrow> string \<Rightarrow> ('z, unit) io" where
  "seed_transaction env hash =
     with_tx env (Wrapped ''begin seed transaction'')
       (bindE (seed_accounts env hash demoAccounts) (\<lambda>_.
        bindE (mapErr (Wrapped ''commit demo seed'') (Commit env)) (\<lambda>_. returnE ())))"

definition run_seed ::
  "(int \<Rightarrow> int \<Rightarrow> nat \<Rightarrow> int) \<Rightarrow> (environment \<Rightarrow> dotenv_outcome) \<Rightarrow> environment \<Rightarrow> env \<Rightarrow> system
     \<Rightarrow> world \<Rightarrow> run_error option \<times> world" where
  "run_seed fp godotenv os env sys w =
     (if os ''ENVIRONMENT'' \<noteq> EnvironmentDevelopment
      then (Some (RunFailed ''seed'' (Plain ''demo seed is allowed only with ENVIRONMENT=development'')), w)
      else (case LoadPostgres fp godotenv os of
          Inl err \<Rightarrow> (Some (LoadFailed err), w)
        | Inr cfg \<Rightarrow>
     (case sy_open sys (PostgresDSN cfg) of
        Some err \<Rightarrow> (Some (RunFailed ''open postgres'' err), w)
      | None \<Rightarrow>
     (case ping_postgres env (w_tick w) of
        Some err \<Rightarrow> (Some (RunFailed ''ping postgres'' err), tick w)
      | None \<Rightarrow>
     (case hash_password env demoPassword (tick w) of
        (Inl err, w1) \<Rightarrow> (Some (RunFailed ''hash demo password'' err), w1)
      | (Inr hash, w1) \<Rightarrow>
     (case seed_transaction env hash w1 of
        (Inl err, w2) \<Rightarrow> (Some (RunFailed ''seed'' err), w2)
      | (Inr _, w2) \<Rightarrow> (None, w2)))))))"

section \<open>What the transaction does\<close>

definition seeded :: "env \<Rightarrow> string \<Rightarrow> database \<Rightarrow> database" where
  "seeded env hash d = fold (seed_insert env hash) demoAccounts d"

lemma seed_accounts_run:
  fixes w :: "'z world_scheme"
  assumes "seed_accounts env hash as w = (r, w')" "w_tx w = Some t"
  shows "w_db w' = w_db w \<and> (r = Inr () \<longrightarrow>
    (\<exists>t'. w_tx w' = Some t' \<and> t_db t' = fold (seed_insert env hash) as (t_db t)))"
  using assms
proof (induction as arbitrary: w t)
  case (Cons a as)
  obtain q w1 where s: "mapErr (Wrapped (''seed '' @ da_email a))
      (sql env (\<lambda>t. Inr ((), seed_insert env hash a (t_db t)))) w = (q, w1)" by force
  then have db: "w_db w1 = w_db w"
    using staysD [OF stays_mapErr [OF stays_sql(1)] s] by (simp add: same_db_def)
  show ?case
  proof (cases q)
    case (Inl e)
    with s db Cons.prems show ?thesis by auto
  next
    case (Inr u)
    with s Cons.prems(2) obtain t1 where t1: "w_tx w1 = Some t1" "t_db t1 = seed_insert env hash a (t_db t)"
      by (auto simp: sql_Inr)
    have "seed_accounts env hash as w1 = (r, w')" using Cons.prems(1) s Inr by simp
    from Cons.IH [OF this t1(1)] db t1(2) show ?thesis by simp
  qed
qed simp

lemma seed_transaction_db:
  fixes w :: "'z world_scheme"
  assumes "seed_transaction env hash w = (r, w')"
  shows "w_db w' = w_db w \<and> r \<noteq> Inr ()
    \<or> w_db w' = seeded env hash (w_db w) \<and> (r = Inr () \<or> (\<exists>n e. e_commit env n = CommitUnknown e))"
proof (cases "NewTX env w")
  case (Pair q w1)
  show ?thesis
  proof (cases q)
    case (Inl e)
    with Pair assms show ?thesis by (auto simp: seed_transaction_def with_tx_def NewTX_def split: option.splits)
  next
    case (Inr u)
    then obtain t where n: "w_tx w1 = Some t" "t_db t = w_db w" "w_db w1 = w_db w"
      using Pair by (auto simp: NewTX_def split: option.splits)
    obtain p w2 where s: "seed_accounts env hash demoAccounts w1 = (p, w2)" by force
    note run = seed_accounts_run [OF s n(1)]
    show ?thesis
    proof (cases p)
      case (Inl e)
      with Pair Inr s n run assms show ?thesis by (auto simp: seed_transaction_def with_tx_def)
    next
      case ok: (Inr v)
      with run obtain t' where "w_tx w2 = Some t'" "t_db t' = seeded env hash (w_db w)" "w_db w2 = w_db w"
        using n by (auto simp: seeded_def)
      with Pair Inr s ok assms show ?thesis
        by (auto simp: seed_transaction_def with_tx_def bindE_def mapErr_def Commit_def split: if_splits commit_outcome.splits)
    qed
  qed
qed

lemma seed_insert_accounts:
  "set (accounts d) \<subseteq> set (accounts (seed_insert env hash a d))" "seed_conflict env a (seed_insert env hash a d)"
  by (auto simp: seed_insert_def seed_conflict_def seed_row_def)

lemma seed_conflict_mono: "seed_conflict env a d \<Longrightarrow> set (accounts d) \<subseteq> set (accounts d') \<Longrightarrow> seed_conflict env a d'"
  by (auto simp: seed_conflict_def)

lemma seeded_idempotent: "seeded env hash' (seeded env hash d) = seeded env hash d"
proof -
  obtain a b where ab: "demoAccounts = [a, b]" by (simp add: demoAccounts_def)
  let ?d = "seeded env hash d"
  have d: "?d = seed_insert env hash b (seed_insert env hash a d)" by (simp add: seeded_def ab)
  have "seed_conflict env a ?d" "seed_conflict env b ?d"
    unfolding d using seed_insert_accounts seed_conflict_mono by blast+
  then show ?thesis by (simp add: seeded_def [of env hash'] ab seed_insert_def)
qed

text \<open>
  The demo accounts that are not there, appended: what the two statements amount to, as
  PostgreSQL's \<open>LOWER\<close> does not confuse the two addresses.
\<close>

definition seed_emails_differ :: "env \<Rightarrow> bool" where
  "seed_emails_differ env \<longleftrightarrow> distinct (map (\<lambda>a. e_pg_lower env (da_email a)) demoAccounts)"

lemma seed_conflict_other:
  assumes "da_id a \<noteq> da_id b" "da_email a \<noteq> da_email b" "e_pg_lower env (da_email a) \<noteq> e_pg_lower env (da_email b)"
  shows "seed_conflict env b (seed_insert env hash a d) = seed_conflict env b d"
  using assms by (auto simp: seed_conflict_def seed_insert_def seed_row_def)

lemma seeded_missing:
  assumes "seed_emails_differ env"
  shows "seeded env hash d = d\<lparr>accounts := accounts d
    @ map (seed_row hash) (filter (\<lambda>a. \<not> seed_conflict env a d) demoAccounts)\<rparr>"
proof -
  obtain a b where ab: "demoAccounts = [a, b]" "da_id a \<noteq> da_id b" "da_email a \<noteq> da_email b"
    by (simp add: demoAccounts_def)
  have "e_pg_lower env (da_email a) \<noteq> e_pg_lower env (da_email b)"
    using assms by (simp add: seed_emails_differ_def ab(1))
  note other = seed_conflict_other [OF ab(2,3) this]
  have "seeded env hash d = seed_insert env hash b (seed_insert env hash a d)" by (simp add: seeded_def ab(1))
  also have "\<dots> = d\<lparr>accounts := accounts d
      @ map (seed_row hash) (filter (\<lambda>a. \<not> seed_conflict env a d) demoAccounts)\<rparr>"
    by (simp add: seed_insert_def [of env hash b] other) (simp add: seed_insert_def ab(1))
  finally show ?thesis .
qed

lemma db_inv_seed_insert:
  assumes "db_inv d" "a \<in> set demoAccounts"
  shows "db_inv (seed_insert env hash a d)"
proof (cases "seed_conflict env a d")
  case False
  let ?d = "d\<lparr>accounts := accounts d @ [seed_row hash a]\<rparr>"
  have ex: "account_exists d i \<Longrightarrow> account_exists ?d i" for i by (auto simp: account_exists_def)
  have "storable 1000" using storable_numeral [of 1000] by simp
  then have "storable (da_balance a) \<and> 0 \<le> da_balance a" using assms(2) by (auto simp: demoAccounts_def)
  then have "accounts_ok ?d"
    using assms(1) False by (auto simp: db_inv_def accounts_ok_def seed_conflict_def seed_row_def)
  moreover have "tokens_ok ?d" using assms(1) ex by (auto simp: db_inv_def tokens_ok_def)
  ultimately have "db_inv ?d" using ex by (intro db_inv_frame [OF assms(1)]) simp_all
  with False show ?thesis by (simp add: seed_insert_def)
qed (simp add: seed_insert_def assms)

lemma db_inv_seeded: "db_inv d \<Longrightarrow> db_inv (seeded env hash d)"
  using db_inv_seed_insert [where env = env and hash = hash] by (simp add: seeded_def demoAccounts_def)

section \<open>Property\<close>

lemma run_seed_db:
  assumes "run_seed fp godotenv os env sys w = (err, w')"
  shows "w_db w' = w_db w \<and> err \<noteq> None
    \<or> os ''ENVIRONMENT'' = EnvironmentDevelopment \<and> (\<exists>hash. e_bcrypt_hash env (Suc (w_tick w)) demoPassword = Inr hash
        \<and> w_db w' = seeded env hash (w_db w))
      \<and> (err = None \<or> (\<exists>n e. e_commit env n = CommitUnknown e))"
proof (cases "os ''ENVIRONMENT'' = EnvironmentDevelopment 
    \<and> (\<exists>cfg. LoadPostgres fp godotenv os = Inr cfg \<and> sy_open sys (PostgresDSN cfg) = None) \<and> ping_postgres env (w_tick w) = None")
  case True
  then obtain cfg where cfg: "LoadPostgres fp godotenv os = Inr cfg" "sy_open sys (PostgresDSN cfg) = None" by blast
  obtain p w1 where h: "hash_password env demoPassword (tick w) = (p, w1)" by force
  then have "w_db w1 = w_db w" "\<And>hash. p = Inr hash \<Longrightarrow> e_bcrypt_hash env (Suc (w_tick w)) demoPassword = Inr hash"
    by (auto simp: hash_password_def split: sum.splits)
  with True cfg h assms show ?thesis
    by (cases p) (auto simp: run_seed_def dest!: seed_transaction_db split: prod.splits sum.splits)
next
  case False
  with assms show ?thesis by (auto simp: run_seed_def split: if_splits sum.splits option.splits)
qed

text \<open>
  C40: the seed is all or nothing and idempotent. Whatever fails, either it ends with an error and
  the tables are as before; or the environment is a development one and exactly the demo accounts
  of which neither the id nor the e-mail was there have been added, with the hash of the demo
  password, their balances and the role of a user, and then it reports success unless the outcome
  of its commit is unknown. The integrity of the tables is kept; and once seeded, running it
  again, whatever the salt of the new hash and whatever fails then, changes no table.
\<close>
theorem seed_idempotent:
  assumes "run_seed fp godotenv os env sys w = (err, w1)" "db_inv (w_db w)" "seed_emails_differ env"
    "run_seed fp' godotenv' os' env' sys' w1 = (err', w2)" "e_pg_lower env' = e_pg_lower env"
  shows "(err \<noteq> None \<and> w_db w1 = w_db w
      \<or> os ''ENVIRONMENT'' = EnvironmentDevelopment \<and> (err = None \<or> (\<exists>n e. e_commit env n = CommitUnknown e))
        \<and> (\<exists>hash. e_bcrypt_hash env (Suc (w_tick w)) demoPassword = Inr hash
          \<and> w_db w1 = (w_db w)\<lparr>accounts := accounts (w_db w)
              @ map (seed_row hash) (filter (\<lambda>a. \<not> (\<exists>r\<in>set (accounts (w_db w)).
                  ar_id r = da_id a \<or> ar_email r = da_email a
                  \<or> e_pg_lower env (ar_email r) = e_pg_lower env (da_email a))) demoAccounts)\<rparr>))
    \<and> db_inv (w_db w1) \<and> (err = None \<longrightarrow> w_db w2 = w_db w1)"
proof -
  note inv = db_inv_seeded [OF assms(2), of env]
  have lower: "seeded env' hash d = seeded env hash d" for hash d
    by (simp add: seeded_def seed_insert_def [abs_def] seed_conflict_def [abs_def] assms(5))
  have kept: "db_inv (w_db w1)" "err = None \<longrightarrow> w_db w2 = w_db w1"
    using run_seed_db [OF assms(1)] run_seed_db [OF assms(4)] inv assms(2) by (auto simp: lower seeded_idempotent)
  with run_seed_db [OF assms(1)] show ?thesis
    unfolding seeded_missing [OF assms(3)] seed_conflict_def by blast
qed

definition dev_vars :: environment where
  "dev_vars = sample_vars(''ENVIRONMENT'' := EnvironmentDevelopment)"

lemma dev_seeds: "fst (run_seed no_floats no_dotenv dev_vars sample_env sound_system (sample_world sample_db)) = None"
  by code_simp

theorem seed_idempotent_witness:
  "\<exists>w1. run_seed no_floats no_dotenv dev_vars sample_env sound_system (sample_world sample_db) = (None, w1)
    \<and> w_db (snd (run_seed no_floats no_dotenv dev_vars sample_env sound_system w1)) = w_db w1"
proof -
  from dev_seeds obtain w1 where 1: "run_seed no_floats no_dotenv dev_vars sample_env sound_system (sample_world sample_db) = (None, w1)"
    by (metis prod.collapse)
  obtain err w2 where 2: "run_seed no_floats no_dotenv dev_vars sample_env sound_system w1 = (err, w2)" by force
  have "seed_emails_differ sample_env" by code_simp
  from seed_idempotent [OF 1 _ this 2 refl] sample_inv 1 2 show ?thesis by auto
qed

end
