(* ===== verification/Deployment.thy ===== *)
theory Deployment
  imports Seed Startup_Props
begin

text \<open>
  The command \<open>cmd/migrate\<close> (\<open>main.go\<close>) and the order of \<open>docker-compose.yml\<close>: the server starts
  when the migrations and then the seed have completed. The library goose is two parameters:
  \<open>SetDialect\<close>, and \<open>UpContext\<close>, which may change the state. Before the migrations have run, the
  tables of the state mean nothing, so theorems assume nothing of them. \<open>os\<close> holds the variables of the
  container, which has no \<open>.env\<close> file; \<open>sys\<close> says how the system treats each container.
\<close>

section \<open>The migration command\<close>

definition defaultMigrationsDir :: string where "defaultMigrationsDir = ''migrations''"

definition migrationsDir :: "environment \<Rightarrow> string" where
  "migrationsDir os = (let dir = os ''MIGRATIONS_DIR'' in if dir \<noteq> [] then dir else defaultMigrationsDir)"

definition environment_after :: "(environment \<Rightarrow> dotenv_outcome) \<Rightarrow> environment \<Rightarrow> environment" where
  "environment_after godotenv os = (case godotenv os of DotLoaded os' \<Rightarrow> os' | _ \<Rightarrow> os)"

definition run_migrate ::
  "(int \<Rightarrow> int \<Rightarrow> nat \<Rightarrow> int) \<Rightarrow> (environment \<Rightarrow> dotenv_outcome) \<Rightarrow> environment \<Rightarrow> env \<Rightarrow> system
     \<Rightarrow> error option \<Rightarrow> (string \<Rightarrow> world \<Rightarrow> error option \<times> world) \<Rightarrow> world \<Rightarrow> run_error option \<times> world" where
  "run_migrate fp godotenv os env sys dialect up w =
     (case LoadPostgres fp godotenv os of
        Inl err \<Rightarrow> (Some (LoadFailed err), w)
      | Inr cfg \<Rightarrow>
     (case sy_open sys (PostgresDSN cfg) of
        Some err \<Rightarrow> (Some (RunFailed ''open postgres'' err), w)
      | None \<Rightarrow>
     (case ping_postgres env (w_tick w) of
        Some err \<Rightarrow> (Some (RunFailed ''ping postgres'' err), tick w)
      | None \<Rightarrow>
     (case dialect of
        Some err \<Rightarrow> (Some (RunFailed ''set goose dialect'' err), tick w)
      | None \<Rightarrow>
     (case up (migrationsDir (environment_after godotenv os)) (tick w) of
        (Some err, w1) \<Rightarrow> (Some (RunFailed ''apply migrations'' err), w1)
      | (None, w1) \<Rightarrow> (None, w1))))))"

section \<open>\<open>docker-compose.yml\<close>\<close>

text \<open>\<open>${NAME:-default}\<close>.\<close>

definition interpolate :: "environment \<Rightarrow> string \<Rightarrow> string \<Rightarrow> string" where
  "interpolate vars k dflt = (if vars k = [] then dflt else vars k)"

definition container_vars :: "(string \<times> string) list \<Rightarrow> environment" where
  "container_vars kvs k = (case map_of kvs k of Some v \<Rightarrow> v | None \<Rightarrow> [])"

definition postgres_vars :: "environment \<Rightarrow> (string \<times> string) list" where
  "postgres_vars vars =
     [(''POSTGRES_HOST'', ''postgres''), (''POSTGRES_PORT'', ''5432''),
      (''POSTGRES_DB'', interpolate vars ''POSTGRES_DB'' ''postgres_bd''),
      (''POSTGRES_USER'', interpolate vars ''POSTGRES_USER'' ''admin''),
      (''POSTGRES_PASSWORD'', interpolate vars ''POSTGRES_PASSWORD'' ''secret''),
      (''POSTGRES_SSLMODE'', ''disable''), (''POSTGRES_MAX_CONNS'', ''10'')]"

definition migrate_vars :: "environment \<Rightarrow> environment" where
  "migrate_vars vars = container_vars (postgres_vars vars @ [(''MIGRATIONS_DIR'', ''/app/migrations'')])"

definition seed_vars :: "environment \<Rightarrow> environment" where
  "seed_vars vars = container_vars ((''ENVIRONMENT'', ''development'') # postgres_vars vars)"

definition app_vars :: "environment \<Rightarrow> environment" where
  "app_vars vars = container_vars
     ([(''ENVIRONMENT'', interpolate vars ''ENVIRONMENT'' ''development''),
       (''LOG_LEVEL'', interpolate vars ''LOG_LEVEL'' ''info'')] @ postgres_vars vars
      @ [(''REDIS_HOST'', ''redis''), (''REDIS_PORT'', ''6379''), (''REDIS_USER'', []),
         (''REDIS_PASSWORD'', vars ''REDIS_PASSWORD''),
         (''RATE_LIMIT_PER_MINUTE'', interpolate vars ''RATE_LIMIT_PER_MINUTE'' ''60''),
         (''RATE_LIMIT_PER_HOUR'', interpolate vars ''RATE_LIMIT_PER_HOUR'' ''1000''),
         (''RATE_LIMIT_PER_DAY'', interpolate vars ''RATE_LIMIT_PER_DAY'' ''10000''),
         (''ACCESS_TOKEN_SECRET'', interpolate vars ''ACCESS_TOKEN_SECRET'' ''development-access-secret-change-me''),
         (''REFRESH_TOKEN_SECRET'', interpolate vars ''REFRESH_TOKEN_SECRET'' ''development-refresh-secret-change-me'')])"

definition compose_up ::
  "(int \<Rightarrow> int \<Rightarrow> nat \<Rightarrow> int) \<Rightarrow> error option \<Rightarrow> (string \<Rightarrow> world \<Rightarrow> error option \<times> world) \<Rightarrow> env
     \<Rightarrow> (string \<Rightarrow> system) \<Rightarrow> environment \<Rightarrow> http_request list \<Rightarrow> world
     \<Rightarrow> (run_error option \<times> (http_request \<times> response) list) \<times> world" where
  "compose_up fp dialect up env sys vars rs w =
     (case run_migrate fp no_dotenv (migrate_vars vars) env (sys ''migrate'') dialect up w of
        (Some err, w1) \<Rightarrow> ((Some err, []), w1)
      | (None, w1) \<Rightarrow>
     (case run_seed fp no_dotenv (seed_vars vars) env (sys ''seed'') w1 of
        (Some err, w2) \<Rightarrow> ((Some err, []), w2)
      | (None, w2) \<Rightarrow> Run fp no_dotenv (app_vars vars) env (sys ''app'') rs w2))"

section \<open>What is deployed\<close>

definition empty_database :: database where
  "empty_database = \<lparr>accounts = [], transactions = [], tokens = [], idempotency = []\<rparr>"

lemma empty_inv: "db_inv empty_database"
  by (simp add: db_inv_def accounts_ok_def transactions_ok_def tokens_ok_def idempotency_ok_def empty_database_def)

lemma seeded_books:
  assumes "seed_emails_differ env"
  shows "total_balance (seeded env hash empty_database) = 2000"
    and "a \<in> set demoAccounts \<Longrightarrow> opening_balance (seeded env hash empty_database) (da_id a) = Some 1000"
proof -
  have rows: "seeded env hash empty_database
      = empty_database\<lparr>accounts := map (seed_row hash) demoAccounts\<rparr>"
    using assms by (simp add: seeded_def seed_emails_differ_def demoAccounts_def seed_insert_def seed_conflict_def
      seed_row_def empty_database_def)
  show "total_balance (seeded env hash empty_database) = 2000"
    unfolding rows by (simp add: total_balance_def demoAccounts_def seed_row_def)
  show "a \<in> set demoAccounts \<Longrightarrow> opening_balance (seeded env hash empty_database) (da_id a) = Some 1000"
    unfolding rows by (auto simp: demoAccounts_def seed_row_def opening_balance_def balance_of_def credits_def debits_def
      empty_database_def find_row_def)
qed

lemma run_migrate_done:
  "run_migrate fp godotenv os env sys dialect up w = (None, w1)
     \<Longrightarrow> dialect = None \<and> up (migrationsDir (environment_after godotenv os)) (tick w) = (None, w1)"
  by (auto simp: run_migrate_def split: sum.splits option.splits prod.splits)

lemma compose_migrations: "migrationsDir (environment_after no_dotenv (migrate_vars vars)) = ''/app/migrations''"
  by (simp add: migrationsDir_def environment_after_def no_dotenv_def migrate_vars_def container_vars_def
    postgres_vars_def Let_def)

text \<open>The server of a stack that answers was started by a migration and a seed that completed.\<close>

lemma compose_up_started:
  assumes "compose_up fp dialect up env sys vars rs w = ((err, replies), w')" "replies \<noteq> []"
  obtains w1 w2 where "run_migrate fp no_dotenv (migrate_vars vars) env (sys ''migrate'') dialect up w = (None, w1)"
    "run_seed fp no_dotenv (seed_vars vars) env (sys ''seed'') w1 = (None, w2)"
    "Run fp no_dotenv (app_vars vars) env (sys ''app'') rs w2 = ((err, replies), w')"
proof -
  obtain e1 w1 where m: "run_migrate fp no_dotenv (migrate_vars vars) env (sys ''migrate'') dialect up w = (e1, w1)"
    by force
  with assms have e1: "e1 = None" by (cases e1) (simp_all add: compose_up_def)
  obtain e2 w2 where s: "run_seed fp no_dotenv (seed_vars vars) env (sys ''seed'') w1 = (e2, w2)" by force
  with assms m e1 have e2: "e2 = None" by (cases e2) (simp_all add: compose_up_def)
  from assms(1) m s e1 e2 show ?thesis by (intro that) (simp_all add: compose_up_def)
qed

lemma compose_production_refused:
  assumes "vars ''ENVIRONMENT'' = EnvironmentProduction"
  shows "Load fp no_dotenv (app_vars vars) \<noteq> Inr cfg"
proof
  assume "Load fp no_dotenv (app_vars vars) = Inr cfg"
  then have ok: "config_ok (loadConfig fp (app_vars vars))"
    by (auto simp: Load_Inr loadDotEnv_def no_dotenv_def)
  have "app_vars vars ''ENVIRONMENT'' = ''production''" "app_vars vars ''POSTGRES_SSLMODE'' = ''disable''"
    using assms by (simp_all add: app_vars_def container_vars_def interpolate_def postgres_vars_def EnvironmentProduction_def)
  moreover have "TrimSpace ''production'' = ''production''" "TrimSpace ''disable'' = ''disable''" by code_simp+
  ultimately show False
    using ok by (simp add: config_ok_def loadConfig_def loadPostgresConfig_def getEnv_def EnvironmentProduction_def
      SSLModeRequire_def SSLModeVerifyCA_def SSLModeVerifyFull_def)
qed

section \<open>Properties\<close>

text \<open>
  C13: the stack of \<open>docker-compose.yml\<close>, started on a fresh PostgreSQL. Until the migrations have
  run, the model's tables mean nothing: the start has any, and only goose, successfully applied
  to \<open>/app/migrations\<close>, leaves those of the migrations, empty. Whatever fails, a request is answered
  only by the server of a run that comes after a migration and then a seed that both completed,
  and never with the variables of a production environment; then every request is answered, in
  order and well formed, the tables are sound, the balances add up to the 2000 of the seed, and
  each demo account began with its 1000.
\<close>
theorem deployment_sound:
  assumes "compose_up fp dialect up env sys vars rs w = ((err, replies), w')" "replies \<noteq> []"
    and "seed_emails_differ env"
    and goose: "\<And>v. up ''/app/migrations'' (tick w) = (None, v) \<Longrightarrow> w_db v = empty_database"
  shows "(\<exists>w1 w2. dialect = None \<and> up ''/app/migrations'' (tick w) = (None, w1)
        \<and> run_seed fp no_dotenv (seed_vars vars) env (sys ''seed'') w1 = (None, w2)
        \<and> Run fp no_dotenv (app_vars vars) env (sys ''app'') rs w2 = ((err, replies), w'))
    \<and> vars ''ENVIRONMENT'' \<noteq> EnvironmentProduction \<and> map fst replies = rs
    \<and> list_all (\<lambda>(r, rp). well_formed rp) replies \<and> db_inv (w_db w') \<and> total_balance (w_db w') = 2000
    \<and> list_all (\<lambda>a. opening_balance (w_db w') (da_id a) = Some 1000) demoAccounts"
proof -
  obtain w1 w2 where m: "run_migrate fp no_dotenv (migrate_vars vars) env (sys ''migrate'') dialect up w = (None, w1)"
    and s: "run_seed fp no_dotenv (seed_vars vars) env (sys ''seed'') w1 = (None, w2)"
    and r: "Run fp no_dotenv (app_vars vars) env (sys ''app'') rs w2 = ((err, replies), w')"
    by (rule compose_up_started [OF assms(1,2)])
  from run_migrate_done [OF m] have up: "dialect = None" "up ''/app/migrations'' (tick w) = (None, w1)"
    by (simp_all add: compose_migrations)
  from goose [OF up(2)] run_seed_db [OF s] obtain hash where w2: "w_db w2 = seeded env hash empty_database" by auto
  have order: "\<exists>w1 w2. dialect = None \<and> up ''/app/migrations'' (tick w) = (None, w1)
        \<and> run_seed fp no_dotenv (seed_vars vars) env (sys ''seed'') w1 = (None, w2)
        \<and> Run fp no_dotenv (app_vars vars) env (sys ''app'') rs w2 = ((err, replies), w')"
    using up s r by blast
  from r show ?thesis
  proof (cases rule: Run_cases)
    case (served cfg checks w3)
    have w3: "w_db w3 = seeded env hash empty_database" using served(3) w2 by (simp add: same_stores_def)
    then have inv: "db_inv (w_db w3)" using db_inv_seeded [OF empty_inv] by simp
    have "books_kept i x (w_db w3) (w_db w')" for i x
      using served.kept_by_all [OF inv, of i x env "wire cfg" checks rs] served(4) by simp
    then show ?thesis
      using order w3 seeded_books [OF assms(3)] serve_all_answers [OF served(4)]
        compose_production_refused [of vars fp cfg] served(1)
      by (auto simp: books_kept_def list_all_iff)
  qed (use assms(2) in simp_all)
qed

text \<open>A goose that creates the tables, on a database that holds none of them.\<close>

definition sample_goose :: "string \<Rightarrow> world \<Rightarrow> error option \<times> world" where
  "sample_goose dir v = (None, v\<lparr>w_db := empty_database\<rparr>)"

theorem deployment_sound_witness:
  "\<exists>err replies w'. compose_up no_floats None sample_goose sample_env (\<lambda>_. sound_system) (\<lambda>_. [])
      [get_request [] [''health''] []] (sample_world sample_db) = ((err, replies), w')
    \<and> length replies = 1 \<and> total_balance (w_db w') = 2000"
proof -
  let ?run = "compose_up no_floats None sample_goose sample_env (\<lambda>_. sound_system) (\<lambda>_. [])
      [get_request [] [''health''] []] (sample_world sample_db)"
  have n: "length (snd (fst ?run)) = 1" by code_simp
  obtain err replies w' where r: "?run = ((err, replies), w')" by (metis prod.exhaust)
  with n have l: "length replies = 1" by simp
  then have "replies \<noteq> []" by auto
  have e: "seed_emails_differ sample_env" by code_simp
  have g: "sample_goose ''/app/migrations'' (tick (sample_world sample_db)) = (None, v) \<Longrightarrow> w_db v = empty_database" for v
    by (auto simp: sample_goose_def)
  from deployment_sound [OF r \<open>replies \<noteq> []\<close> e g] have "total_balance (w_db w') = 2000" by simp
  with r l show ?thesis by blast
qed

end
