(* ===== verification/Logger.thy ===== *)
theory Logger
  imports Config_Props
begin

text \<open>
  Package \<open>internal/infrastructure/logger\<close> (\<open>logger.go\<close>): the level and the format chosen from the
  configuration, with \<open>slog.Level.UnmarshalText\<close>. Capital letters outside ASCII are a parameter.
  The lines themselves have no effect on the program's state.
\<close>

definition LevelDebug :: int where "LevelDebug = - 4"
definition LevelInfo :: int where "LevelInfo = 0"
definition LevelWarn :: int where "LevelWarn = 4"
definition LevelError :: int where "LevelError = 8"

definition upper_char :: "char \<Rightarrow> char" where
  "upper_char c = (if byte_in 0x61 0x7A c then char_of (of_char c - 32 :: nat) else c)"

definition ToUpper :: "(string \<Rightarrow> string) \<Rightarrow> string \<Rightarrow> string" where
  "ToUpper unicode_upper s = (if list_all ascii s then map upper_char s else unicode_upper s)"

definition level_names :: "(string \<times> int) list" where
  "level_names = [(''DEBUG'', LevelDebug), (''INFO'', LevelInfo), (''WARN'', LevelWarn), (''ERROR'', LevelError)]"

text \<open>A name and an optional offset from the first sign on; \<open>Level\<close> is an \<open>int\<close>, so the sum wraps.\<close>

definition level_of_text :: "(string \<Rightarrow> string) \<Rightarrow> string \<Rightarrow> int option" where
  "level_of_text unicode_upper s =
     (let name = takeWhile (\<lambda>c. c \<notin> set ''+-'') s; sign = dropWhile (\<lambda>c. c \<notin> set ''+-'') s in
      case (if sign = [] then Inr 0 else atoi sign) of
        Inl err \<Rightarrow> None
      | Inr offset \<Rightarrow>
          map_option (\<lambda>l. (l + offset + 2 ^ 63) mod 2 ^ 64 - 2 ^ 63) (map_of level_names (ToUpper unicode_upper name)))"

record logger =
  lg_Level :: int
  lg_JSON :: bool        \<comment> \<open>the JSON handler, otherwise the text handler\<close>

definition NewLogger :: "(string \<Rightarrow> string) \<Rightarrow> string \<Rightarrow> string \<Rightarrow> (error, logger) result" where
  "NewLogger unicode_upper loglevel environment =
     Inr \<lparr>lg_Level = (case level_of_text unicode_upper loglevel of None \<Rightarrow> LevelInfo | Some l \<Rightarrow> l),
       lg_JSON = (environment = ''production'')\<rparr>"

text \<open>\<open>Enabled\<close> of the handlers.\<close>

definition logger_enabled :: "logger \<Rightarrow> int \<Rightarrow> bool" where
  "logger_enabled l level \<longleftrightarrow> level \<ge> lg_Level l"

text \<open>With an accepted configuration the level is the one it names, so errors are logged.\<close>

lemma accepted_levels:
  "level_of_text up ''debug'' = Some LevelDebug" "level_of_text up ''info'' = Some LevelInfo"
  "level_of_text up ''warn'' = Some LevelWarn" "level_of_text up ''error'' = Some LevelError"
  by code_simp+

lemma accepted_config_logs:
  assumes "config_ok cfg"
  shows "\<exists>l. NewLogger up (c_LogLevel cfg) (c_Environment cfg) = Inr l
    \<and> level_of_text up (c_LogLevel cfg) = Some (lg_Level l) \<and> logger_enabled l LevelError
    \<and> (lg_JSON l \<longleftrightarrow> c_Environment cfg = EnvironmentProduction)"
proof -
  from assms have "c_LogLevel cfg \<in> {''debug'', ''info'', ''warn'', ''error''}" by (simp add: config_ok_def)
  then obtain n where n: "level_of_text up (c_LogLevel cfg) = Some n" "n \<le> LevelError"
    using accepted_levels [of up] by (auto simp: LevelDebug_def LevelInfo_def LevelWarn_def LevelError_def)
  then show ?thesis by (simp add: NewLogger_def logger_enabled_def EnvironmentProduction_def)
qed

end
