(* ===== verification/Client_Scripts.thy ===== *)
theory Client_Scripts
  imports Http_Frame Http_Samples
begin

text \<open>
  The programs \<open>scripts/api-auth-test\<close> and \<open>scripts/api-accounts-test\<close>: clients that send requests to
  a running server one after another and stop at the first refusal. The network is a parameter:
  for each request it says whether it was delivered, and whether the answer came back. A reader
  consumes the body of a response, so a second one finds it empty. What the scripts log is not
  modelled, except how they end.
\<close>

section \<open>The client\<close>

datatype delivery = Delivered | NotSent | ReplyLost

text \<open>\<open>http.Response\<close>: the status, and what is left to read of the body.\<close>

record client_response =
  cr_StatusCode :: int
  cr_Body :: "payload list"

definition http_send ::
  "(http_request \<Rightarrow> world \<Rightarrow> response \<times> world) \<Rightarrow> delivery \<Rightarrow> http_request \<Rightarrow> world
     \<Rightarrow> client_response option \<times> world" where
  "http_send serve d r w =
     (case d of
        NotSent \<Rightarrow> (None, w)
      | ReplyLost \<Rightarrow> (None, snd (serve r w))
      | Delivered \<Rightarrow>
          (case serve r w of (rp, w1) \<Rightarrow>
             (Some \<lparr>cr_StatusCode = (case rp_code rp of None \<Rightarrow> 200 | Some c \<Rightarrow> c), cr_Body = rp_body rp\<rparr>, w1)))"

text \<open>\<open>io.ReadAll(resp.Body)\<close>.\<close>

definition read_all :: "client_response \<Rightarrow> payload list \<times> client_response" where
  "read_all resp = (cr_Body resp, resp\<lparr>cr_Body := []\<rparr>)"

text \<open>The transport trims white space around the value of a header.\<close>

definition header_value :: "string \<Rightarrow> string" where
  "header_value v = (let b = (\<lambda>c. c \<in> set [CHR 0x20, CHR 0x09, CHR 0x0A, CHR 0x0D])
     in rev (dropWhile b (rev (dropWhile b v))))"

definition post_json :: "string list \<Rightarrow> string \<Rightarrow> string \<Rightarrow> http_request" where
  "post_json path body addr = \<lparr>rq_method = ''POST'', rq_path = path, rq_query = [],
     rq_headers = [content_type], rq_cookies = [], rq_body = body, rq_remote = addr\<rparr>"

definition bare_request :: "string \<Rightarrow> string list \<Rightarrow> string \<Rightarrow> http_request" where
  "bare_request method path addr = \<lparr>rq_method = method, rq_path = path, rq_query = [],
     rq_headers = [], rq_cookies = [], rq_body = [], rq_remote = addr\<rparr>"

text \<open>The segments of a path: the text of a UUID has nothing that a URL treats specially but a slash.\<close>

fun segments_of :: "string \<Rightarrow> string list" where
  "segments_of [] = [[]]"
| "segments_of (c # s) =
     (if c = CHR 0x2F then [] # segments_of s
      else (case segments_of s of p # ps \<Rightarrow> (c # p) # ps | [] \<Rightarrow> [[c]]))"

definition randomEmail :: "int \<Rightarrow> string" where
  "randomEmail unix = ''user_'' @ int_text unix @ ''@example.com''"

definition randomUsername :: "int \<Rightarrow> string" where
  "randomUsername unix = ''user_'' @ int_text unix"

definition quoted :: "string \<Rightarrow> string" where
  "quoted s = CHR 0x22 # s @ [CHR 0x22]"

definition register_json :: "string \<Rightarrow> string \<Rightarrow> string \<Rightarrow> string" where
  "register_json email username password =
     ''{'' @ [CHR 0x0A, CHR 0x09, CHR 0x09] @ quoted ''email'' @ '': '' @ quoted email @ '',''
     @ [CHR 0x0A, CHR 0x09, CHR 0x09] @ quoted ''username'' @ '': '' @ quoted username @ '',''
     @ [CHR 0x0A, CHR 0x09, CHR 0x09] @ quoted ''password'' @ '': '' @ quoted password
     @ [CHR 0x0A, CHR 0x09] @ ''}''"

text \<open>How a script ends: at which request, and with which status if there was one.\<close>

datatype script_end = NetworkFailed nat | Refused nat int | Finished

section \<open>\<open>api-auth-test\<close>\<close>

definition accessToken :: "client_response \<Rightarrow> string \<times> client_response" where
  "accessToken resp =
     (case cr_Body resp of RegisteredBody a t # _ \<Rightarrow> kv_access_token t | _ \<Rightarrow> [], resp\<lparr>cr_Body := []\<rparr>)"

definition refreshToken :: "client_response \<Rightarrow> string \<times> client_response" where
  "refreshToken resp =
     (case cr_Body resp of RegisteredBody a t # _ \<Rightarrow> kv_refresh_token t | _ \<Rightarrow> [], resp\<lparr>cr_Body := []\<rparr>)"

definition logout_request :: "string \<Rightarrow> string \<Rightarrow> http_request" where
  "logout_request refresh_token addr = (bare_request ''POST'' [''auth'', ''logout''] addr)
     \<lparr>rq_headers := [(''Authorization'', header_value (''Bearer '' @ refresh_token))],
      rq_cookies := [(''refresh_token'', header_value refresh_token)]\<rparr>"

definition logout_all_request :: "string \<Rightarrow> string \<Rightarrow> http_request" where
  "logout_all_request refresh_token addr = (bare_request ''POST'' [''auth'', ''logout-all''] addr)
     \<lparr>rq_headers := [(''Authorization'', header_value (''Bearer '' @ refresh_token))]\<rparr>"

definition auth_script ::
  "(http_request \<Rightarrow> world \<Rightarrow> response \<times> world) \<Rightarrow> (nat \<Rightarrow> delivery) \<Rightarrow> (nat \<Rightarrow> int) \<Rightarrow> string \<Rightarrow> world
     \<Rightarrow> script_end \<times> world" where
  "auth_script serve net now addr w =
     (let jsonData = register_json (randomEmail (now 0)) (randomUsername (now 1)) ''testpass'' in
      case http_send serve (net 0) (post_json [''auth'', ''register''] jsonData addr) w of
        (None, w1) \<Rightarrow> (NetworkFailed 0, w1)
      | (Some resp, w1) \<Rightarrow>
     (case read_all resp of (body, resp) \<Rightarrow>
      if cr_StatusCode resp \<noteq> 201 then (Refused 0 (cr_StatusCode resp), w1)
      else
     (case accessToken resp of (access_token, resp) \<Rightarrow>
     (case refreshToken resp of (refresh_token, resp) \<Rightarrow>
     (case http_send serve (net 1) (post_json [''auth'', ''login''] jsonData addr) w1 of
        (None, w2) \<Rightarrow> (NetworkFailed 1, w2)
      | (Some resp, w2) \<Rightarrow>
     (let refreshData = ''{'' @ quoted ''refresh_token'' @ '': '' @ quoted refresh_token @ ''}'' in
      case http_send serve (net 2) (post_json [''auth'', ''refresh''] refreshData addr) w2 of
        (None, w3) \<Rightarrow> (NetworkFailed 2, w3)
      | (Some resp, w3) \<Rightarrow>
     (case http_send serve (net 3) (logout_request refresh_token addr) w3 of
        (None, w4) \<Rightarrow> (NetworkFailed 3, w4)
      | (Some resp, w4) \<Rightarrow>
      if cr_StatusCode resp \<noteq> 200 then (Refused 3 (cr_StatusCode resp), w4)
      else
     (let jsonData = register_json (randomEmail (now 2)) (randomUsername (now 3)) ''testpass'' in
      case http_send serve (net 4) (post_json [''auth'', ''register''] jsonData addr) w4 of
        (None, w5) \<Rightarrow> (NetworkFailed 4, w5)
      | (Some resp, w5) \<Rightarrow>
     (case read_all resp of (body, resp) \<Rightarrow>
      if cr_StatusCode resp \<noteq> 201 then (Refused 4 (cr_StatusCode resp), w5)
      else
     (case refreshToken resp of (refresh_token, resp) \<Rightarrow>
     (case http_send serve (net 5) (logout_all_request refresh_token addr) w5 of
        (None, w6) \<Rightarrow> (NetworkFailed 5, w6)
      | (Some resp, w6) \<Rightarrow>
      if cr_StatusCode resp \<noteq> 200 then (Refused 5 (cr_StatusCode resp), w6)
      else (Finished, w6))))))))))))"

section \<open>\<open>api-accounts-test\<close>\<close>

definition accountID :: "env \<Rightarrow> client_response \<Rightarrow> string" where
  "accountID env resp =
     (case cr_Body resp of RegisteredBody a t # _ \<Rightarrow> e_uuid_text env (av_id a) | _ \<Rightarrow> [])"

definition accounts_script ::
  "env \<Rightarrow> (http_request \<Rightarrow> world \<Rightarrow> response \<times> world) \<Rightarrow> (nat \<Rightarrow> delivery) \<Rightarrow> (nat \<Rightarrow> int) \<Rightarrow> string \<Rightarrow> world
     \<Rightarrow> script_end \<times> world" where
  "accounts_script env serve net now addr w =
     (let jsonData = register_json (randomEmail (now 0)) (randomUsername (now 1)) ''testpass'' in
      case http_send serve (net 0) (post_json [''auth'', ''register''] jsonData addr) w of
        (None, w1) \<Rightarrow> (NetworkFailed 0, w1)
      | (Some resp, w1) \<Rightarrow>
      if cr_StatusCode resp \<noteq> 201 then (Refused 0 (cr_StatusCode resp), w1)
      else
     (let id = accountID env resp in
      case http_send serve (net 1) (bare_request ''GET'' (''accounts'' # segments_of id) addr) w1 of
        (None, w2) \<Rightarrow> (NetworkFailed 1, w2)
      | (Some resp, w2) \<Rightarrow>
      if cr_StatusCode resp \<noteq> 200 then (Refused 1 (cr_StatusCode resp), w2)
      else
     (case http_send serve (net 2)
             (bare_request ''GET'' (''accounts'' # segments_of id @ [''transactions'']) addr) w2 of
        (None, w3) \<Rightarrow> (NetworkFailed 2, w3)
      | (Some resp, w3) \<Rightarrow>
      if cr_StatusCode resp \<noteq> 200 then (Refused 2 (cr_StatusCode resp), w3)
      else (Finished, w3))))"

section \<open>How they end\<close>

lemma send_cases:
  assumes "http_send serve d r w = (q, w')"
  obtains (lost) "q = None" "w' = w \<or> w' = snd (serve r w)"
  | (answered) resp where "q = Some resp" "w' = snd (serve r w)"
      "cr_StatusCode resp = (case rp_code (fst (serve r w)) of None \<Rightarrow> 200 | Some c \<Rightarrow> c)"
  using assms by (cases d) (auto simp: http_send_def split: prod.splits)

lemma no_space_no_token:
  assumes "cut_space (get_first (rq_headers r) ''Authorization'') = None"
  shows "rp_code (fst (Middleware env app h r who w)) = Some 401" "snd (Middleware env app h r who w) = w"
  using assms by (simp_all add: Middleware_def bearerToken_def unauthorized_code)

lemma nameless_requests_have_no_token [simp]:
  "cut_space (get_first (rq_headers (logout_request [] addr)) ''Authorization'') = None"
  "cut_space (get_first (rq_headers (bare_request m p addr)) ''Authorization'') = None"
  by (simp_all add: logout_request_def bare_request_def get_first_def header_value_def cut_space_def)

lemma logout_route [simp]: "find_route (logout_request tok addr) = Some ELogout"
  by (simp add: logout_request_def bare_request_def find_route_def routes_def method_matches_def)

lemma logout_without_token:
  "rp_code (fst (serve_http env app checks (logout_request [] addr) w)) = Some 401"
  "snd (serve_http env app checks (logout_request [] addr) w) = w"
  by (simp_all add: serve_http_def no_space_no_token)

text \<open>Whatever the rest of the path, no reply about accounts without a token.\<close>

lemma accounts_without_token:
  fixes p :: "string list" and addr :: string
  defines "r \<equiv> bare_request ''GET'' (''accounts'' # p) addr"
  shows "\<exists>c\<in>{401, 404, 405}. rp_code (fst (serve_http env app checks r w)) = Some c"
    "snd (serve_http env app checks r w) = w"
proof -
  have "find_route r \<in> {None, Some EGetAccount, Some EAccountTransactions}"
    by (simp add: r_def bare_request_def find_route_def routes_def method_matches_def)
  then show "\<exists>c\<in>{401, 404, 405}. rp_code (fst (serve_http env app checks r w)) = Some c"
    "snd (serve_http env app checks r w) = w"
    by (auto simp: serve_http_def no_space_no_token r_def no_route_def write_body_def write_header_def)
qed

lemma auth_script_stops:
  "fst (auth_script (serve_http env app checks) net now addr w)
     \<in> NetworkFailed ` {0..<4} \<union> Refused 0 ` (- {201}) \<union> {Refused 3 401}"
proof -
  have logout: "cr_StatusCode resp = 401"
    if "http_send (serve_http env app checks) d (logout_request [] addr) v = (Some resp, v')" for d v v' resp
    using that by (rule send_cases) (auto simp: logout_without_token)
  show ?thesis
    by (auto simp: auth_script_def Let_def read_all_def accessToken_def refreshToken_def
      dest!: logout split: prod.split option.split if_split)
qed

lemma accounts_script_stops:
  "fst (accounts_script env (serve_http env app checks) net now addr w)
     \<in> NetworkFailed ` {0..<2} \<union> Refused 0 ` (- {201}) \<union> Refused 1 ` {401, 404, 405}"
proof -
  have get: "cr_StatusCode resp \<in> {401, 404, 405}"
    if "http_send (serve_http env app checks) d (bare_request ''GET'' (''accounts'' # p) addr) v = (Some resp, v')"
    for d v v' resp p
    using that accounts_without_token(1) [of env app checks p addr v] by (elim send_cases) auto
  show ?thesis
    by (auto simp: accounts_script_def Let_def
      dest!: get split: prod.split option.split if_split)
qed

section \<open>Properties\<close>

text \<open>
  C39: neither script can get through, whatever the network and the server do: \<open>api-auth-test\<close> ends at
  its first logout with 401, because it reads its token from a body it has already consumed, and
  \<open>api-accounts-test\<close> at its first question about the account, which it asks without a token.
\<close>
theorem client_scripts_stop:
  "fst (auth_script (serve_http env app checks) net now addr w)
     \<in> NetworkFailed ` {0..<4} \<union> Refused 0 ` (- {201}) \<union> {Refused 3 401}
   \<and> fst (accounts_script env (serve_http env app checks) net now addr w)
     \<in> NetworkFailed ` {0..<2} \<union> Refused 0 ` (- {201}) \<union> Refused 1 ` {401, 404, 405}"
  by (intro conjI auth_script_stops accounts_script_stops)

text \<open>The first registration can succeed, so the second request is reached.\<close>

lemma client_scripts_sample:
  "fst (accounts_script web_env (serve_http web_env web_app []) (\<lambda>_. Delivered) (\<lambda>_. 1) ''10.0.0.1:5000''
     (sample_world sample_db)) = Refused 1 401"
  by code_simp

end
