(* ===== verification/Spec2Isabelle.thy ===== *)
theory Spec2Isabelle
  imports Transfer_Props Transfer_Retry Read_Services Accounts_Create Rate_Limit Auth_Props Auth_Calm
    Jwt_Props Email_Props Http_Props Http_Replies Http_Pay Call_Count Config_Props Startup_Props Seed Deployment Logger Client_Scripts
begin

text \<open>
  Payment processing: a Go server that holds accounts with balances, moves money between them
  exactly once per idempotency key, and authenticates its users with token pairs whose refresh
  tokens rotate. Paths below are under \<open>src/\<close>.

  \<^bold>\<open>The program and the theories that model it.\<close> A request passes the router and the middleware,
  a handler decodes it and calls one service, the service asks the rate limiter in Redis and
  works in one SQL transaction through the repositories, and the handler encodes the reply.

  \<^item> \<open>internal/decimal\<close> (numbers as coefficient and 32-bit exponent): \<open>Decimal\<close>, on the model of
    \<open>strconv\<close> and \<open>math/big\<close> in \<open>Go_Strconv\<close>; its properties in \<open>Decimal_Props\<close>,
    its JSON form in \<open>Decimal_Json\<close>.
  \<^item> \<open>internal/domain\<close> (entities, sentinel errors, the idempotency key): \<open>Domain\<close>.
  \<^item> \<open>migrations\<close> (the tables with their constraints, the texts and numbers a column refuses):
    \<open>Schema\<close>; what PostgreSQL stores of a decimal: \<open>Money_Column\<close>.
  \<^item> \<open>internal/infrastructure/storage\<close>: \<open>World\<close> (the state and the SQL transaction), \<open>Storage\<close>
    (\<open>storage.go\<close>, one definition per method), \<open>Tx_Query\<close> (\<open>helper.go\<close>, the query builder).
  \<^item> \<open>internal/infrastructure/cache\<close>: \<open>Redis_Store\<close> (the Lua script) and \<open>Cache\<close> (\<open>redis.go\<close>).
  \<^item> \<open>internal/usecase\<close>: \<open>Transfers\<close> (\<open>transactions.go\<close>, the transfer), \<open>Read_Services\<close> and
    \<open>Accounts_Create\<close> (\<open>accounts.go\<close> and the readers of \<open>transactions.go\<close>), \<open>Auth\<close> (\<open>auth.go\<close>), on
    \<open>Sha256\<close>, \<open>Go_Text\<close> and \<open>Regex\<close> for what they use of the standard library.
  \<^item> \<open>internal/delivery/http\<close>: \<open>Jwt_Manager\<close> (\<open>jwt.go\<close>), \<open>Http_Util\<close> (helpers and the response
    writer), \<open>Json\<close> (\<open>encoding/json\<close>), \<open>Request_Filter\<close> (\<open>request.go\<close>), \<open>Http_Handlers\<close> (every
    handler), \<open>Http_Server\<close> (middleware and routes; \<open>serve_http\<close> serves one request).
  \<^item> \<open>internal/infrastructure/config\<close>: \<open>Go_Duration\<close>, \<open>Config\<close> and \<open>Postgres_Url\<close> (the connection
    string); \<open>internal/infrastructure/logger\<close>: \<open>Logger\<close>; \<open>internal/pkg/app\<close> and \<open>cmd/server\<close>: \<open>Startup\<close>
    (\<open>Run\<close> is the whole process).
  \<^item> \<open>cmd/seed\<close>: \<open>Seed\<close>; \<open>cmd/migrate\<close> and \<open>docker-compose.yml\<close>: \<open>Deployment\<close>; the clients of \<open>scripts\<close>:
    \<open>Client_Scripts\<close>.

  \<^bold>\<open>State and failures.\<close> The state \<open>world\<close> holds the committed tables, the open transaction, the
  Redis store and the number of external calls made. The environment \<open>env\<close> answers the n-th
  call: a fault of the database or of Redis, the outcome of a commit (done, lost, or done
  without an answer), the clocks, fresh ids, the end of the context; it also holds the library
  functions the code calls but does not contain (bcrypt, signing and parsing of JWTs, the texts
  of UUIDs, letters outside ASCII). Theorems quantify over the environment, hence over all
  schedules of faults; \<open>calm\<close> environments are those without faults. A fallible function returns
  \<open>Inl\<close> an error or \<open>Inr\<close> its result together with the state, which an error keeps.

  \<^bold>\<open>What is proved.\<close>

  \<^item> The transfer: an abstract ledger (\<open>Transfer_Spec\<close>, \<open>Ledger\<close>) that \<open>Transfer\<close> refines under all
    faults (\<open>Transfer_Refine\<close>); from it exactly-once, conservation, atomicity, replays
    (\<open>Transfer_Props\<close>); the full decision table without faults (\<open>Transfer_Calm\<close>); the survival of
    a serialization failure or deadlock by the retry (\<open>Transfer_Retry\<close>).
  \<^item> Sessions: an event model (\<open>Session_Spec\<close>) that the auth service refines (\<open>Session_Refine\<close>,
    \<open>Auth_Refine\<close>, with the frame lemmas of \<open>Auth_Frame\<close>); single use of refresh tokens, sessions
    that only close, login only with the password (\<open>Auth_Props\<close>); decision tables
    (\<open>Auth_Calm\<close>); the token pairs (\<open>Jwt_Props\<close>) and the e-mail pattern (\<open>Email_Props\<close>).
  \<^item> The limiter script as a sliding window (\<open>Rate_Limit\<close>), the history query (\<open>Tx_Query_Props\<close>),
    the readers (\<open>Read_Services\<close>), the creation of accounts (\<open>Accounts_Create\<close>).
  \<^item> The server: what one request can do to the tables (\<open>Http_Frame\<close>), who may spend and what is
    protected (\<open>Http_Props\<close>), well-formed and private replies (\<open>Http_Replies\<close>), \<open>POST /transactions\<close>
    from its bytes to the tables (\<open>Http_Pay\<close>, \<open>Json_Props\<close>), the number of external calls of a
    request and of attempts of a transfer (\<open>Call_Count\<close>), the configuration (\<open>Config_Props\<close>) and its
    connection string (\<open>Postgres_Url\<close>), the process from its environment to its end
    (\<open>Startup_Props\<close>), the seed, all or nothing (\<open>Seed\<close>), the whole stack on a fresh database
    (\<open>Deployment\<close>), and why neither client script gets through (\<open>Client_Scripts\<close>).

  \<^bold>\<open>Contracts.\<close> \<open>Contracts\<close> holds the locales. \<open>steady_server\<close> (a handler with an invariant) is
  extended by \<open>keyed_service\<close> (it acts once per key), interpreted on \<open>Transfer\<close> with the idempotency
  key and on \<open>Create\<close> with the caller's address, and by \<open>one_time\<close> (it accepts a key once),
  interpreted on the auth service with the refresh token; \<open>keeping_server\<close>, which lifts what one
  request keeps to all sequences of requests, is a \<open>steady_server\<close> too and is interpreted on
  \<open>serve_http\<close>. \<open>read_only\<close> is interpreted on the readers.

  \<^bold>\<open>Bounds and counters.\<close> The retry loop is a function with a termination proof; its three attempts
  make at most 62 external calls. \<open>json_value\<close> carries a counter that \<open>json_parse\<close> starts at
  twice the length of the text plus one, and \<open>json_fuel\<close> shows that more changes nothing;
  \<open>duration_parts\<close> starts at the length of the text, which \<open>duration_parts_enough\<close> shows to
  suffice. Exponents of decimals wrap at 32 bits as in the code (\<open>wrap32\<close>); properties state the
  range in which they do not. The limiter's results hold for calls in the order in which Redis runs
  them, with the callers' clock not going back in that order and the server's gaining at most ten
  seconds on it (\<open>calls_ok\<close>).

  \<^bold>\<open>Not modelled.\<close> One request runs at a time: the locks of PostgreSQL and the interleaving of
  transactions are outside, and so is the concurrency of the server. How the driver reads a
  connection string is outside; a database before its migrations is any value of the tables. Log lines, sockets, time
  limits of contexts and the closing of connections have no effect on the state. Container
  restarts and health checks are outside too, and the mocks are generated for the tests.
\<close>

end
